(* ===== verification/Go_Prelude.thy ===== *)
theory Go_Prelude
  imports
    Main
    "HOL-Library.List_Lexorder"
    "HOL-Library.Char_ord"
    "HOL-Library.Sublist"
    "HOL-Library.Finite_Map"
    "HOL-Library.Multiset"
    "HOL-Library.AList"
begin

text \<open>
  What the controllers use of the Go language and its standard library, and the lemma
  collections the component theories share.

  \<^item> A Go \<^verbatim>\<open>string\<close> is a byte list (\<open>string\<close>); \<open><\<close> on strings is the
    bytewise lexicographic order, the instance of \<open>List_Lexorder\<close> and \<open>Char_ord\<close>.
  \<^item> A \<^verbatim>\<open>map[string]string\<close> that may be nil is a \<open>strmap\<close>: \<open>None\<close> is nil.
  \<^item> A Go map whose keys are iterated is an association list with distinct keys. Go leaves
    the iteration order open; the lists here are in insertion order, and the theorems speak
    about sets, lookups or sorted results only.
  \<^item> A slice compared with \<^verbatim>\<open>reflect.DeepEqual\<close> is a \<open>slice\<close>: \<open>None\<close> is nil.
  \<^item> An error is a value of \<open>goerr\<close>, a call that can fail returns \<open>goerr + 'a\<close>.
\<close>

named_theorems go_simps \<open>evaluation of the standard library functions\<close>
named_theorems str_consts \<open>definitions of the string constants of the source\<close>

section \<open>Strings\<close>

definition HasPrefix :: "string \<Rightarrow> string \<Rightarrow> bool" where
  "HasPrefix s p = (take (length p) s = p)"

text \<open>\<^verbatim>\<open>strings.Cut(s, sep)\<close> for a separator of one byte.\<close>

definition Cut :: "string \<Rightarrow> char \<Rightarrow> string \<times> string \<times> bool" where
  "Cut s sep =
     (case dropWhile (\<lambda>c. c \<noteq> sep) s of
        [] \<Rightarrow> (s, [], False)
      | _ # after \<Rightarrow> (takeWhile (\<lambda>c. c \<noteq> sep) s, after, True))"

text \<open>\<^verbatim>\<open>strings.Split(s, sep)\<close> for a separator of one byte.\<close>

fun Split :: "string \<Rightarrow> char \<Rightarrow> string list" where
  "Split [] sep = [[]]"
| "Split (c # cs) sep =
     (if c = sep then [] # Split cs sep
      else (case Split cs sep of [] \<Rightarrow> [[c]] | w # ws \<Rightarrow> (c # w) # ws))"

fun Join :: "string list \<Rightarrow> string \<Rightarrow> string" where
  "Join [] sep = []"
| "Join [s] sep = s"
| "Join (s # t # ts) sep = s @ sep @ Join (t # ts) sep"

definition lower_char :: "char \<Rightarrow> char" where
  "lower_char c =
     (let n = (of_char c :: nat) in if 65 \<le> n \<and> n \<le> 90 then char_of (n + 32) else c)"

text \<open>
  \<^verbatim>\<open>strings.EqualFold\<close>. The source only folds against the ASCII literals "Enforce" and
  "true", none of whose letters has a non-ASCII case variant, so folding ASCII letters is exact.
\<close>

definition EqualFold :: "string \<Rightarrow> string \<Rightarrow> bool" where
  "EqualFold s t = (map lower_char s = map lower_char t)"

section \<open>Maps and slices that may be nil\<close>

type_synonym strmap = "(string, string) fmap option"
type_synonym 'a slice = "'a list option"

definition raw_map :: "strmap \<Rightarrow> (string, string) fmap" where
  "raw_map m = (case m of None \<Rightarrow> fmempty | Some f \<Rightarrow> f)"

text \<open>\<^verbatim>\<open>m[k]\<close>, the zero value for a missing key or a nil map.\<close>

definition map_index :: "strmap \<Rightarrow> string \<Rightarrow> string" where
  "map_index m k = (case fmlookup (raw_map m) k of None \<Rightarrow> [] | Some v \<Rightarrow> v)"

text \<open>\<^verbatim>\<open>_, ok := m[k]\<close>.\<close>

definition map_has :: "strmap \<Rightarrow> string \<Rightarrow> bool" where
  "map_has m k = (fmlookup (raw_map m) k \<noteq> None)"

text \<open>
  \<^verbatim>\<open>equality.Semantic.DeepEqual\<close> on two maps: nil and empty are equal.
\<close>

definition map_sem_eq :: "strmap \<Rightarrow> strmap \<Rightarrow> bool" where
  "map_sem_eq m n = (raw_map m = raw_map n)"

definition items :: "'a slice \<Rightarrow> 'a list" where
  "items s = (case s of None \<Rightarrow> [] | Some xs \<Rightarrow> xs)"

section \<open>Maps that are iterated\<close>

text \<open>\<^verbatim>\<open>table[k] = true\<close> on a map used as a set: its keys.\<close>

definition add_key :: "'a \<Rightarrow> 'a list \<Rightarrow> 'a list" where
  "add_key k ks = (if k \<in> set ks then ks else ks @ [k])"

section \<open>Errors\<close>

text \<open>
  The reasons of \<^verbatim>\<open>k8s.io/apimachinery/pkg/api/errors\<close> that the source asks for; any other
  reason is \<open>OtherReason\<close>.
\<close>

datatype api_reason =
    NotFound | AlreadyExists | Forbidden | Unauthorized | InternalError
  | ServiceUnavailable | TimeoutReason | TooManyRequests | OtherReason string

text \<open>
  An error value: an API status, a sentinel of the source, a plain message, a wrapped error
  (\<^verbatim>\<open>fmt.Errorf\<close> with \<^verbatim>\<open>%w\<close>) or two joined ones.
\<close>

datatype goerr =
    ApiStatus api_reason
  | ErrInvalidLabelValue
  | ErrRetryable
  | ErrSAMissing
  | ErrMissingAPIResource
  | ErrWatchStopping
  | Msg string
  | Wrapped string goerr
  | Joined goerr goerr

text \<open>
  \<^verbatim>\<open>ReasonForError\<close>: \<^verbatim>\<open>errors.As\<close> finds the first API status in the error's tree,
  depth first.
\<close>

fun ReasonForError :: "goerr \<Rightarrow> api_reason option" where
  "ReasonForError (ApiStatus r) = Some r"
| "ReasonForError (Wrapped _ e) = ReasonForError e"
| "ReasonForError (Joined a b) =
     (case ReasonForError a of Some r \<Rightarrow> Some r | None \<Rightarrow> ReasonForError b)"
| "ReasonForError _ = None"

definition IsNotFound :: "goerr \<Rightarrow> bool" where
  "IsNotFound e = (ReasonForError e = Some NotFound)"

definition IsAlreadyExists :: "goerr \<Rightarrow> bool" where
  "IsAlreadyExists e = (ReasonForError e = Some AlreadyExists)"

text \<open>\<^verbatim>\<open>errors.Is(err, target)\<close> for a sentinel target.\<close>

fun errors_Is :: "goerr \<Rightarrow> goerr \<Rightarrow> bool" where
  "errors_Is (Wrapped m e) t = (Wrapped m e = t \<or> errors_Is e t)"
| "errors_Is (Joined a b) t = (Joined a b = t \<or> errors_Is a t \<or> errors_Is b t)"
| "errors_Is e t = (e = t)"

text \<open>\<^verbatim>\<open>errors.Join\<close>: nil values are left out, and nil is returned when all are nil.\<close>

fun errors_Join :: "goerr option \<Rightarrow> goerr option \<Rightarrow> goerr option" where
  "errors_Join None None = None"
| "errors_Join (Some a) None = Some a"
| "errors_Join None (Some b) = Some b"
| "errors_Join (Some a) (Some b) = Some (Joined a b)"

text \<open>
  A loop that runs its body over a slice and returns at the first error.
\<close>

fun foldE :: "('a \<Rightarrow> 's \<Rightarrow> goerr + 's) \<Rightarrow> 'a list \<Rightarrow> 's \<Rightarrow> goerr + 's" where
  "foldE f [] s = Inr s"
| "foldE f (x # xs) s = (case f x s of Inl e \<Rightarrow> Inl e | Inr s' \<Rightarrow> foldE f xs s')"

section \<open>Lemmas\<close>

lemma map_index_None [simp, go_simps]: "map_index None k = []"
  by (simp add: map_index_def raw_map_def)

lemma map_index_Some [simp, go_simps]:
  "map_index (Some m) k = (case fmlookup m k of None \<Rightarrow> [] | Some v \<Rightarrow> v)"
  by (simp add: map_index_def raw_map_def)

lemma map_has_None [simp, go_simps]: "\<not> map_has None k"
  by (simp add: map_has_def raw_map_def)

lemma map_has_Some [simp, go_simps]: "map_has (Some m) k \<longleftrightarrow> fmlookup m k \<noteq> None"
  by (simp add: map_has_def raw_map_def)

lemma items_None [simp, go_simps]: "items None = []"
  by (simp add: items_def)

lemma items_Some [simp, go_simps]: "items (Some xs) = xs"
  by (simp add: items_def)

lemma map_sem_eq_refl [simp]: "map_sem_eq m m"
  by (simp add: map_sem_eq_def)

lemma map_sem_eq_sym: "map_sem_eq m n \<Longrightarrow> map_sem_eq n m"
  by (simp add: map_sem_eq_def)

lemma map_sem_eq_trans: "map_sem_eq m n \<Longrightarrow> map_sem_eq n p \<Longrightarrow> map_sem_eq m p"
  by (simp add: map_sem_eq_def)

lemma set_add_key [simp]: "set (add_key k ks) = insert k (set ks)"
  by (auto simp: add_key_def)

lemma distinct_add_key [simp]: "distinct (add_key k ks) = distinct ks"
  by (auto simp: add_key_def)

lemma set_foldl_add_key [simp]:
  "set (fold (\<lambda>x. add_key (f x)) xs ks) = set ks \<union> f ` set xs"
  by (induction xs arbitrary: ks) auto

lemma distinct_fold_add_key [simp]:
  "distinct (fold (\<lambda>x. add_key (f x)) xs ks) = distinct ks"
  by (induction xs arbitrary: ks) auto

lemma HasPrefix_append [simp]: "HasPrefix (p @ s) p"
  by (simp add: HasPrefix_def)

lemma HasPrefix_prefix: "HasPrefix s p \<longleftrightarrow> prefix p s"
  by (auto simp: HasPrefix_def prefix_def) (metis append_take_drop_id)

lemma Cut_found:
  "sep \<notin> set a \<Longrightarrow> Cut (a @ sep # b) sep = (a, b, True)"
proof -
  assume "sep \<notin> set a"
  then have "dropWhile (\<lambda>c. c \<noteq> sep) (a @ sep # b) = sep # b"
    and "takeWhile (\<lambda>c. c \<noteq> sep) (a @ sep # b) = a"
    by (induction a) auto
  then show ?thesis by (simp add: Cut_def)
qed

lemma Cut_not_found: "sep \<notin> set s \<Longrightarrow> Cut s sep = (s, [], False)"
proof -
  assume "sep \<notin> set s"
  then have "dropWhile (\<lambda>c. c \<noteq> sep) s = []"
    by (auto simp: dropWhile_eq_Nil_conv)
  then show ?thesis unfolding Cut_def by (simp only: list.case)
qed

lemma Cut_cases:
  obtains (found) a b where "s = a @ sep # b" "sep \<notin> set a" "Cut s sep = (a, b, True)"
  | (missing) "sep \<notin> set s" "Cut s sep = (s, [], False)"
proof (cases "sep \<in> set s")
  case True
  then obtain a b where "s = a @ sep # b" "sep \<notin> set a"
    by (meson split_list_first)
  with Cut_found [of sep a b] show ?thesis by (auto intro: found)
next
  case False
  with Cut_not_found [of sep s] show ?thesis by (auto intro: missing)
qed

lemma Split_not_Nil [simp]: "Split s sep \<noteq> []"
  by (induction s) (auto split: list.splits)

lemma length_Split: "length (Split s sep) = Suc (count_list s sep)"
  by (induction s) (auto split: list.splits)

lemma count_list_pos: "0 < count_list xs x \<longleftrightarrow> x \<in> set xs"
  by (metis bot_nat_0.not_eq_extremum count_list_0_iff)

lemma count_list_SucD: "count_list xs x = Suc n \<Longrightarrow> x \<in> set xs"
  using count_list_pos [of xs x] by simp

lemma Split_ge2: "2 \<le> length (Split s sep) \<longleftrightarrow> sep \<in> set s"
proof -
  have "2 \<le> length (Split s sep) \<longleftrightarrow> 0 < count_list s sep"
    by (auto simp: length_Split)
  then show ?thesis by (simp add: count_list_pos)
qed

lemma EqualFold_refl [simp]: "EqualFold s s"
  by (simp add: EqualFold_def)

lemma EqualFold_trans: "EqualFold s t \<Longrightarrow> EqualFold t u \<Longrightarrow> EqualFold s u"
  by (simp add: EqualFold_def)

lemma EqualFold_Nil [simp]: "EqualFold [] t \<longleftrightarrow> t = []" "EqualFold t [] \<longleftrightarrow> t = []"
  by (auto simp: EqualFold_def)

lemma IsNotFound_simps [simp, go_simps]:
  "IsNotFound (ApiStatus r) \<longleftrightarrow> r = NotFound"
  "IsNotFound (Wrapped m e) \<longleftrightarrow> IsNotFound e"
  "\<not> IsNotFound (Msg m)"
  "\<not> IsNotFound ErrInvalidLabelValue"
  by (simp_all add: IsNotFound_def)

lemma foldE_append:
  "foldE f (xs @ ys) s = (case foldE f xs s of Inl e \<Rightarrow> Inl e | Inr s' \<Rightarrow> foldE f ys s')"
  by (induction xs arbitrary: s) (auto split: sum.splits)

lemma foldE_invariant:
  assumes "foldE f xs s = Inr t" and "P s"
    and "\<And>x s s'. x \<in> set xs \<Longrightarrow> P s \<Longrightarrow> f x s = Inr s' \<Longrightarrow> P s'"
  shows "P t"
  using assms
proof (induction xs arbitrary: s)
  case Nil
  then show ?case by simp
next
  case (Cons x xs)
  from Cons.prems(1) obtain s' where s': "f x s = Inr s'" "foldE f xs s' = Inr t"
    by (auto split: sum.splits)
  with Cons.prems have "P s'" by (meson list.set_intros(1))
  with s' Cons show ?case by (meson list.set_intros(2))
qed

lemma foldE_ok:
  assumes "\<And>x s. x \<in> set xs \<Longrightarrow> f x s = Inr (g x s)"
  shows "foldE f xs s = Inr (fold g xs s)"
  using assms by (induction xs arbitrary: s) auto

lemma sort_unique:
  "sorted xs \<Longrightarrow> distinct xs \<Longrightarrow> set xs = set ys \<Longrightarrow> sorted ys \<Longrightarrow> distinct ys \<Longrightarrow> xs = ys"
  for xs ys :: "'a :: linorder list"
  by (rule sorted_distinct_set_unique)

lemma distinct_remdups_adj: "sorted xs \<Longrightarrow> distinct (remdups_adj xs)"
  for xs :: "'a :: linorder list"
  by (induction xs rule: remdups_adj.induct) (auto dest: antisym)

lemma remdups_adj_sort:
  "set (remdups_adj (sort xs)) = set xs"
  "sorted (remdups_adj (sort xs))"
  "distinct (remdups_adj (sort xs))"
  by (simp_all add: sorted_remdups_adj distinct_remdups_adj)

end
