(* ===== verification/Policy_Types.thy ===== *)
theory Policy_Types
  imports Go_Prelude
begin

text \<open>
  The API objects of \<^verbatim>\<open>api/v1\<close> and \<^verbatim>\<open>api/v1beta1\<close> as records with the fields of
  the source, and the fields of the foreign objects (ManagedCluster, Placement, PlacementDecision,
  PlacementRule, Secret) that the controllers read. A pointer that may be nil is an option. Fields
  that no controller reads (descriptions, JSON tags, managed fields) are left out.
\<close>

section \<open>Metadata\<close>

record NamespacedName =
  nn_Namespace :: string
  nn_Name :: string

type_synonym Request = NamespacedName

record OwnerReference =
  or_Kind :: string
  or_Name :: string
  or_UID :: string

record TypeMeta =
  tm_Kind :: string
  tm_APIVersion :: string

record ObjectMeta =
  om_Name :: string
  om_Namespace :: string
  om_UID :: string
  om_ResourceVersion :: string
  om_Generation :: int
  om_Labels :: strmap
  om_Annotations :: strmap
  om_Finalizers :: "string list"
  om_OwnerReferences :: "OwnerReference list"

text \<open>An object with its metadata only, as the update channel carries it.\<close>

record GuttedObject =
  go_TypeMeta :: TypeMeta
  go_ObjectMeta :: ObjectMeta

section \<open>Group and kind names\<close>

definition APIGroup :: string where
  "APIGroup = ''policy.open-cluster-management.io''"

definition ClusterNameLabel :: string where
  "ClusterNameLabel = APIGroup @ ''/cluster-name''"

definition ClusterNamespaceLabel :: string where
  "ClusterNamespaceLabel = APIGroup @ ''/cluster-namespace''"

definition RootPolicyLabel :: string where
  "RootPolicyLabel = APIGroup @ ''/root-policy''"

text \<open>\<^verbatim>\<open>policiesv1.SchemeGroupVersion.Group\<close>, the same literal as \<open>APIGroup\<close>.\<close>

definition SchemeGroup :: string where
  "SchemeGroup = ''policy.open-cluster-management.io''"

definition PolicyGroupVersion :: string where
  "PolicyGroupVersion = SchemeGroup @ ''/v1''"

definition PolicySetGroupVersion :: string where
  "PolicySetGroupVersion = SchemeGroup @ ''/v1beta1''"

definition PolicyKind :: string where
  "PolicyKind = ''Policy''"

definition PolicySetKind :: string where
  "PolicySetKind = ''PolicySet''"

definition PlacementLabel :: string where
  "PlacementLabel = ''cluster.open-cluster-management.io/placement''"

text \<open>Group names of the placement APIs: \<^verbatim>\<open>clusterv1beta1\<close> and \<^verbatim>\<open>appsv1\<close>.\<close>

definition ClusterGroup :: string where
  "ClusterGroup = ''cluster.open-cluster-management.io''"

definition AppsGroup :: string where
  "AppsGroup = ''apps.open-cluster-management.io''"

definition Placement_kind :: string where
  "Placement_kind = ''Placement''"

definition PlacementRule_kind :: string where
  "PlacementRule_kind = ''PlacementRule''"

section \<open>Policy\<close>

type_synonym RemediationAction = string

definition Enforce :: RemediationAction where
  "Enforce = ''Enforce''"

definition Inform :: RemediationAction where
  "Inform = ''Inform''"

type_synonym ComplianceState = string

definition Compliant :: ComplianceState where
  "Compliant = ''Compliant''"

definition NonCompliant :: ComplianceState where
  "NonCompliant = ''NonCompliant''"

definition Pending :: ComplianceState where
  "Pending = ''Pending''"

record PolicyDependency =
  dep_TypeMeta :: TypeMeta
  dep_Name :: string
  dep_Namespace :: string
  dep_Compliance :: ComplianceState

text \<open>\<^verbatim>\<open>ObjectDefinition.Raw\<close> is the JSON text of the wrapped object.\<close>

record PolicyTemplate =
  pt_ObjectDefinition :: string
  pt_ExtraDependencies :: "PolicyDependency list"
  pt_IgnorePending :: bool

text \<open>\<open>ps_HubTemplateOptions\<close> is the service account name behind the optional pointer.\<close>

record PolicySpec =
  ps_Disabled :: bool
  ps_CopyPolicyMetadata :: "bool option"
  ps_RemediationAction :: RemediationAction
  ps_PolicyTemplates :: "PolicyTemplate list"
  ps_Dependencies :: "PolicyDependency list"
  ps_HubTemplateOptions :: "string option"

record PolicyExclusion =
  px_ClusterName :: string

record Placement =
  pl_PlacementBinding :: string
  pl_PlacementRule :: string
  pl_Placement :: string
  pl_PolicySet :: string
  pl_Exclusions :: "PolicyExclusion list"

record RemainingBinding =
  rb_PlacementBinding :: string

record CompliancePerClusterStatus =
  cs_ComplianceState :: ComplianceState
  cs_ClusterName :: string
  cs_ClusterNamespace :: string
  cs_RemainingBindings :: "RemainingBinding list"

record ComplianceHistory =
  ch_LastTimestamp :: string
  ch_Message :: string
  ch_EventName :: string

record DetailsPerTemplate =
  dt_ComplianceState :: ComplianceState
  dt_History :: "ComplianceHistory list"

record PolicyStatus =
  st_Placement :: "Placement slice"
  st_Status :: "CompliancePerClusterStatus slice"
  st_ComplianceState :: ComplianceState
  st_Details :: "DetailsPerTemplate list"

record Policy =
  p_TypeMeta :: TypeMeta
  p_ObjectMeta :: ObjectMeta
  p_Spec :: PolicySpec
  p_Status :: PolicyStatus

section \<open>PlacementBinding\<close>

record Subject =
  sub_APIGroup :: string
  sub_Kind :: string
  sub_Name :: string

record PlacementSubject =
  ref_APIGroup :: string
  ref_Kind :: string
  ref_Name :: string

record BindingOverrides =
  bo_RemediationAction :: string

type_synonym SubFilter = string

definition Restricted :: SubFilter where
  "Restricted = ''restricted''"

record PlacementBinding =
  pb_ObjectMeta :: ObjectMeta
  pb_PlacementRef :: PlacementSubject
  pb_Subjects :: "Subject list"
  pb_BindingOverrides :: BindingOverrides
  pb_SubFilter :: SubFilter

section \<open>PolicySet\<close>

record PolicySetExclusion =
  ex_PolicyName :: string
  ex_Reason :: string
  ex_ClusterNames :: "string list"

record PolicySetSpec =
  pss_Policies :: "string list"
  pss_Exclusions :: "PolicySetExclusion list"

record PolicySetStatusPlacement =
  psp_PlacementBinding :: string
  psp_Placement :: string
  psp_PlacementRule :: string

record PolicySetStatusExclusion =
  pse_PolicyName :: string
  pse_Clusters :: "string list"

record PolicySetStatus =
  pst_Placement :: "PolicySetStatusPlacement list"
  pst_Compliant :: ComplianceState
  pst_StatusMessage :: string
  pst_Exclusions :: "PolicySetStatusExclusion list"

record PolicySet =
  set_ObjectMeta :: ObjectMeta
  set_Spec :: PolicySetSpec
  set_Status :: PolicySetStatus

section \<open>Foreign objects\<close>

record ManagedCluster =
  mc_Name :: string
  mc_UID :: string

record ClusterDecision =
  cd_ClusterName :: string
  cd_Reason :: string

record PlacementObj =
  plo_Name :: string

record PlacementDecisionObj =
  pd_Name :: string
  pd_Namespace :: string
  pd_Labels :: strmap
  pd_Decisions :: "ClusterDecision list"

record RuleDecision =
  rd_ClusterName :: string
  rd_ClusterNamespace :: string

record PlacementRuleObj =
  plr_Name :: string
  plr_Namespace :: string
  plr_Decisions :: "RuleDecision list"

text \<open>The bytes of a secret's entry are a \<open>string\<close>.\<close>

record Secret =
  sec_ObjectMeta :: ObjectMeta
  sec_Data :: strmap

section \<open>Zero values\<close>

definition ObjectMeta_zero :: ObjectMeta where
  "ObjectMeta_zero =
     \<lparr>om_Name = [], om_Namespace = [], om_UID = [], om_ResourceVersion = [], om_Generation = 0,
      om_Labels = None, om_Annotations = None, om_Finalizers = [], om_OwnerReferences = []\<rparr>"

definition PolicyStatus_zero :: PolicyStatus where
  "PolicyStatus_zero =
     \<lparr>st_Placement = None, st_Status = None, st_ComplianceState = [], st_Details = []\<rparr>"

definition PolicySpec_zero :: PolicySpec where
  "PolicySpec_zero =
     \<lparr>ps_Disabled = False, ps_CopyPolicyMetadata = None, ps_RemediationAction = [],
      ps_PolicyTemplates = [], ps_Dependencies = [], ps_HubTemplateOptions = None\<rparr>"

definition Policy_zero :: Policy where
  "Policy_zero =
     \<lparr>p_TypeMeta = \<lparr>tm_Kind = [], tm_APIVersion = []\<rparr>, p_ObjectMeta = ObjectMeta_zero,
      p_Spec = PolicySpec_zero, p_Status = PolicyStatus_zero\<rparr>"

definition PlacementRuleObj_zero :: PlacementRuleObj where
  "PlacementRuleObj_zero = \<lparr>plr_Name = [], plr_Namespace = [], plr_Decisions = []\<rparr>"

definition PlacementObj_zero :: PlacementObj where
  "PlacementObj_zero = \<lparr>plo_Name = []\<rparr>"

section \<open>Accessors\<close>

abbreviation p_Name :: "Policy \<Rightarrow> string" where
  "p_Name p \<equiv> om_Name (p_ObjectMeta p)"

abbreviation p_Namespace :: "Policy \<Rightarrow> string" where
  "p_Namespace p \<equiv> om_Namespace (p_ObjectMeta p)"

abbreviation p_Labels :: "Policy \<Rightarrow> strmap" where
  "p_Labels p \<equiv> om_Labels (p_ObjectMeta p)"

abbreviation p_Annotations :: "Policy \<Rightarrow> strmap" where
  "p_Annotations p \<equiv> om_Annotations (p_ObjectMeta p)"

abbreviation p_ResourceVersion :: "Policy \<Rightarrow> string" where
  "p_ResourceVersion p \<equiv> om_ResourceVersion (p_ObjectMeta p)"

abbreviation pb_Name :: "PlacementBinding \<Rightarrow> string" where
  "pb_Name pb \<equiv> om_Name (pb_ObjectMeta pb)"

abbreviation pb_Namespace :: "PlacementBinding \<Rightarrow> string" where
  "pb_Namespace pb \<equiv> om_Namespace (pb_ObjectMeta pb)"

abbreviation set_Name :: "PolicySet \<Rightarrow> string" where
  "set_Name s \<equiv> om_Name (set_ObjectMeta s)"

abbreviation set_Namespace :: "PolicySet \<Rightarrow> string" where
  "set_Namespace s \<equiv> om_Namespace (set_ObjectMeta s)"

abbreviation nn :: "string \<Rightarrow> string \<Rightarrow> NamespacedName" where
  "nn ns name \<equiv> \<lparr>nn_Namespace = ns, nn_Name = name\<rparr>"

section \<open>Distinctness of the constants\<close>

lemma compliance_distinct [simp]:
  "Compliant \<noteq> NonCompliant" "NonCompliant \<noteq> Compliant"
  "Compliant \<noteq> Pending" "Pending \<noteq> Compliant"
  "NonCompliant \<noteq> Pending" "Pending \<noteq> NonCompliant"
  "Compliant \<noteq> []" "NonCompliant \<noteq> []" "Pending \<noteq> []"
  "[] \<noteq> Compliant" "[] \<noteq> NonCompliant" "[] \<noteq> Pending"
  by (simp_all add: Compliant_def NonCompliant_def Pending_def)

lemma kind_distinct [simp]:
  "PolicyKind \<noteq> PolicySetKind" "PolicySetKind \<noteq> PolicyKind"
  "Placement_kind \<noteq> PlacementRule_kind" "PlacementRule_kind \<noteq> Placement_kind"
  by (simp_all add: PolicyKind_def PolicySetKind_def Placement_kind_def PlacementRule_kind_def)

lemma label_distinct [simp]:
  "ClusterNameLabel \<noteq> ClusterNamespaceLabel" "ClusterNamespaceLabel \<noteq> ClusterNameLabel"
  "ClusterNameLabel \<noteq> RootPolicyLabel" "RootPolicyLabel \<noteq> ClusterNameLabel"
  "ClusterNamespaceLabel \<noteq> RootPolicyLabel" "RootPolicyLabel \<noteq> ClusterNamespaceLabel"
  by (simp_all add: ClusterNameLabel_def ClusterNamespaceLabel_def RootPolicyLabel_def)

lemma Enforce_neq [simp]: "Enforce \<noteq> []" "Enforce \<noteq> Inform" "Inform \<noteq> Enforce" "Inform \<noteq> []"
  by (simp_all add: Enforce_def Inform_def)

lemma Restricted_neq [simp]: "Restricted \<noteq> []" "[] \<noteq> Restricted"
  by (simp_all add: Restricted_def)

lemma not_EqualFold_Inform [simp]: "\<not> EqualFold Inform Enforce"
  by (simp add: EqualFold_def Inform_def Enforce_def)

end
