(* ===== verification/Kube_Client.thy ===== *)
theory Kube_Client
  imports Policy_Types
begin

text \<open>
  The code outside the repository that the controllers call: the controller-runtime client (reads
  from the informer cache, writes to the API server) and the dynamic watcher. None of it is
  defined here. A \<open>client_reader\<close> holds the read operations at one moment (the cache contents
  one helper call sees), and an \<open>api\<close> holds the operations over an unspecified state
  \<open>'k\<close> of the outside world. Definitions take them as arguments; a property that relies on
  documented behaviour of the client names it as a hypothesis from this theory, and the witnesses
  instantiate the client with \<open>empty_reader\<close> updated at the objects of an example.
\<close>

section \<open>Reads\<close>

datatype ListOption =
    InNamespace string
  | MatchingLabels string string
  | MatchingFields string string
  | LabelExists string

record client_reader =
  Get_ManagedCluster :: "string \<Rightarrow> goerr + ManagedCluster"
  List_ManagedClusters :: "goerr + ManagedCluster list"
  Get_Policy :: "NamespacedName \<Rightarrow> goerr + Policy"
  List_Policies :: "ListOption list \<Rightarrow> goerr + Policy list"
  Get_PolicySet :: "NamespacedName \<Rightarrow> goerr + PolicySet"
  Get_PlacementBinding :: "NamespacedName \<Rightarrow> goerr + PlacementBinding"
  List_PlacementBindings :: "ListOption list \<Rightarrow> goerr + PlacementBinding list"
  Get_Placement :: "NamespacedName \<Rightarrow> goerr + PlacementObj"
  List_PlacementDecisions :: "ListOption list \<Rightarrow> goerr + PlacementDecisionObj list"
  Get_PlacementRule :: "NamespacedName \<Rightarrow> goerr + PlacementRuleObj"
  Get_Secret :: "NamespacedName \<Rightarrow> goerr + Secret"

text \<open>A cache with no objects, the starting point of the examples.\<close>

definition empty_reader :: client_reader where
  "empty_reader =
     \<lparr>Get_ManagedCluster = (\<lambda>_. Inl (ApiStatus NotFound)),
      List_ManagedClusters = Inr [],
      Get_Policy = (\<lambda>_. Inl (ApiStatus NotFound)),
      List_Policies = (\<lambda>_. Inr []),
      Get_PolicySet = (\<lambda>_. Inl (ApiStatus NotFound)),
      Get_PlacementBinding = (\<lambda>_. Inl (ApiStatus NotFound)),
      List_PlacementBindings = (\<lambda>_. Inr []),
      Get_Placement = (\<lambda>_. Inl (ApiStatus NotFound)),
      List_PlacementDecisions = (\<lambda>_. Inr []),
      Get_PlacementRule = (\<lambda>_. Inl (ApiStatus NotFound)),
      Get_Secret = (\<lambda>_. Inl (ApiStatus NotFound))\<rparr>"

section \<open>Writes, the dynamic watcher, the clock and the random source\<close>

record ObjectIdentifier =
  oid_Group :: string
  oid_Version :: string
  oid_Kind :: string
  oid_Namespace :: string
  oid_Name :: string

text \<open>
  A write returns the object as the server stored it (with its new resource version) or an error,
  and the next state of the outside world. \<open>Patch_Policy\<close> takes the JSON of a merge patch,
  \<open>Now\<close> is the time in nanoseconds, \<open>RandRead\<close> fills a buffer of the given length, and
  \<open>GroupVersionKind\<close> splits a type's \<^verbatim>\<open>apiVersion\<close>.
\<close>

record 'k api =
  api_read :: "'k \<Rightarrow> client_reader"
  Create_Policy :: "Policy \<Rightarrow> 'k \<Rightarrow> (goerr + Policy) \<times> 'k"
  Update_Policy :: "Policy \<Rightarrow> 'k \<Rightarrow> (goerr + Policy) \<times> 'k"
  Delete_Policy :: "Policy \<Rightarrow> 'k \<Rightarrow> goerr option \<times> 'k"
  UpdateStatus_Policy :: "Policy \<Rightarrow> 'k \<Rightarrow> goerr option \<times> 'k"
  PatchStatus_PolicySet :: "PolicySet \<Rightarrow> 'k \<Rightarrow> goerr option \<times> 'k"
  AddOrUpdateWatcher :: "ObjectIdentifier \<Rightarrow> ObjectIdentifier list \<Rightarrow> 'k \<Rightarrow> goerr option \<times> 'k"
  RemoveWatcher :: "ObjectIdentifier \<Rightarrow> 'k \<Rightarrow> goerr option \<times> 'k"
  Create_Secret :: "Secret \<Rightarrow> 'k \<Rightarrow> (goerr + Secret) \<times> 'k"
  Update_Secret :: "Secret \<Rightarrow> 'k \<Rightarrow> (goerr + Secret) \<times> 'k"
  Patch_Policy :: "NamespacedName \<Rightarrow> string \<Rightarrow> 'k \<Rightarrow> goerr option \<times> 'k"
  Now :: "'k \<Rightarrow> int"
  RandRead :: "nat \<Rightarrow> 'k \<Rightarrow> (goerr + string) \<times> 'k"
  GroupVersionKind :: "TypeMeta \<Rightarrow> string \<times> string \<times> string"

section \<open>Evaluation of the empty cache\<close>

lemma empty_reader_simps [simp]:
  "Get_ManagedCluster empty_reader n = Inl (ApiStatus NotFound)"
  "List_ManagedClusters empty_reader = Inr []"
  "Get_Policy empty_reader k = Inl (ApiStatus NotFound)"
  "List_Policies empty_reader os = Inr []"
  "Get_PolicySet empty_reader k = Inl (ApiStatus NotFound)"
  "Get_PlacementBinding empty_reader k = Inl (ApiStatus NotFound)"
  "List_PlacementBindings empty_reader os = Inr []"
  "Get_Placement empty_reader k = Inl (ApiStatus NotFound)"
  "List_PlacementDecisions empty_reader os = Inr []"
  "Get_PlacementRule empty_reader k = Inl (ApiStatus NotFound)"
  "Get_Secret empty_reader k = Inl (ApiStatus NotFound)"
  by (simp_all add: empty_reader_def)

end
