(* ===== verification/Example_Objects.thy ===== *)
theory Example_Objects
  imports Kube_Client
begin

text \<open>
  A small hub on which the properties are evaluated: the managed clusters \<^verbatim>\<open>c1\<close> and
  \<^verbatim>\<open>c2\<close>, a root policy \<^verbatim>\<open>ns/p\<close>, a policy set \<^verbatim>\<open>s\<close> with that policy which excludes
  \<^verbatim>\<open>c2\<close>, a Placement \<^verbatim>\<open>pl\<close> that decides both clusters, and two bindings, one for the policy
  and one for the set. The client serves these objects from a world without further state, and the
  writes succeed.
\<close>

definition ex_meta :: "string \<Rightarrow> string \<Rightarrow> ObjectMeta" where
  "ex_meta ns name = ObjectMeta_zero\<lparr>om_Name := name, om_Namespace := ns\<rparr>"

definition ex_policy :: "string \<Rightarrow> string \<Rightarrow> Policy" where
  "ex_policy ns name =
     Policy_zero\<lparr>p_TypeMeta := \<lparr>tm_Kind = PolicyKind, tm_APIVersion = PolicyGroupVersion\<rparr>,
       p_ObjectMeta := ex_meta ns name\<rparr>"

definition ex_root :: Policy where
  "ex_root = ex_policy ''ns'' ''p''"

definition ex_labelled :: "string \<Rightarrow> ObjectMeta" where
  "ex_labelled rv = (ex_meta ''c1'' ''ns.p'')\<lparr>om_ResourceVersion := rv,
     om_Labels := Some (fmupd RootPolicyLabel ''ns.p'' fmempty)\<rparr>"

definition ex_replica :: Policy where
  "ex_replica = (ex_policy ''c1'' ''ns.p'')\<lparr>p_ObjectMeta := ex_labelled ''5'',
     p_Status := PolicyStatus_zero\<lparr>st_ComplianceState := NonCompliant\<rparr>\<rparr>"

definition ex_set :: PolicySet where
  "ex_set =
     \<lparr>set_ObjectMeta = ex_meta ''ns'' ''s'',
      set_Spec = \<lparr>pss_Policies = [''p''],
        pss_Exclusions = [\<lparr>ex_PolicyName = ''p'', ex_Reason = [], ex_ClusterNames = [''c2'']\<rparr>]\<rparr>,
      set_Status = \<lparr>pst_Placement = [], pst_Compliant = [], pst_StatusMessage = [], pst_Exclusions = []\<rparr>\<rparr>"

definition ex_binding :: "string \<Rightarrow> Subject \<Rightarrow> string \<Rightarrow> SubFilter \<Rightarrow> PlacementBinding" where
  "ex_binding name subject action subFilter =
     \<lparr>pb_ObjectMeta = ex_meta ''ns'' name,
      pb_PlacementRef = \<lparr>ref_APIGroup = ClusterGroup, ref_Kind = Placement_kind, ref_Name = ''pl''\<rparr>,
      pb_Subjects = [subject], pb_BindingOverrides = \<lparr>bo_RemediationAction = action\<rparr>,
      pb_SubFilter = subFilter\<rparr>"

definition ex_subject :: Subject where
  "ex_subject = \<lparr>sub_APIGroup = SchemeGroup, sub_Kind = PolicyKind, sub_Name = ''p''\<rparr>"

definition ex_set_subject :: Subject where
  "ex_set_subject = \<lparr>sub_APIGroup = SchemeGroup, sub_Kind = PolicySetKind, sub_Name = ''s''\<rparr>"

definition ex_pb :: PlacementBinding where
  "ex_pb = ex_binding ''b'' ex_subject [] []"

definition ex_set_pb :: PlacementBinding where
  "ex_set_pb = ex_binding ''bs'' ex_set_subject [] []"

definition ex_decisions :: "ClusterDecision list" where
  "ex_decisions = [\<lparr>cd_ClusterName = ''c1'', cd_Reason = []\<rparr>, \<lparr>cd_ClusterName = ''c2'', cd_Reason = []\<rparr>]"

definition ex_pd :: PlacementDecisionObj where
  "ex_pd = \<lparr>pd_Name = ''d'', pd_Namespace = ''ns'',
     pd_Labels = Some (fmupd PlacementLabel ''pl'' fmempty), pd_Decisions = ex_decisions\<rparr>"

definition ex_reader :: client_reader where
  "ex_reader = empty_reader\<lparr>
     Get_ManagedCluster := (\<lambda>n. if n = ''c1'' \<or> n = ''c2'' then Inr \<lparr>mc_Name = n, mc_UID = ''u''\<rparr>
                                else Inl (ApiStatus NotFound)),
     List_ManagedClusters := Inr [\<lparr>mc_Name = ''c1'', mc_UID = ''u''\<rparr>, \<lparr>mc_Name = ''c2'', mc_UID = ''u''\<rparr>],
     Get_Policy := (\<lambda>k. if k = nn ''ns'' ''p'' then Inr ex_root
                        else if k = nn ''c1'' ''ns.p'' then Inr ex_replica
                        else Inl (ApiStatus NotFound)),
     Get_PolicySet := (\<lambda>k. if k = nn ''ns'' ''s'' then Inr ex_set else Inl (ApiStatus NotFound)),
     List_PlacementBindings := (\<lambda>_. Inr [ex_pb, ex_set_pb]),
     Get_Placement := (\<lambda>k. if k = nn ''ns'' ''pl'' then Inr \<lparr>plo_Name = ''pl''\<rparr>
                           else Inl (ApiStatus NotFound)),
     List_PlacementDecisions := (\<lambda>os. if os = [InNamespace ''ns'', MatchingLabels PlacementLabel ''pl'']
                                     then Inr [ex_pd] else Inr [])\<rparr>"

text \<open>The world is the list of writes; every write succeeds and is appended to it.\<close>

datatype ex_write =
    Created Policy | Updated Policy | Deleted Policy | StatusUpdated Policy | SetPatched PolicySet
  | Watched | Unwatched | SecretCreated Secret | SecretUpdated Secret | Patched NamespacedName

definition ex_version :: "Policy \<Rightarrow> Policy" where
  "ex_version p = p\<lparr>p_ObjectMeta := (p_ObjectMeta p)\<lparr>om_ResourceVersion := ''7''\<rparr>\<rparr>"

definition ex_api :: "client_reader \<Rightarrow> ex_write list api" where
  "ex_api c =
     \<lparr>api_read = (\<lambda>_. c),
      Create_Policy = (\<lambda>p k. (Inr (ex_version p), k @ [Created p])),
      Update_Policy = (\<lambda>p k. (Inr (ex_version p), k @ [Updated p])),
      Delete_Policy = (\<lambda>p k. (None, k @ [Deleted p])),
      UpdateStatus_Policy = (\<lambda>p k. (None, k @ [StatusUpdated p])),
      PatchStatus_PolicySet = (\<lambda>s k. (None, k @ [SetPatched s])),
      AddOrUpdateWatcher = (\<lambda>_ _ k. (None, k @ [Watched])),
      RemoveWatcher = (\<lambda>_ k. (None, k @ [Unwatched])),
      Create_Secret = (\<lambda>s k. (Inr s, k @ [SecretCreated s])),
      Update_Secret = (\<lambda>s k. (Inr s, k @ [SecretUpdated s])),
      Patch_Policy = (\<lambda>n _ k. (None, k @ [Patched n])),
      Now = (\<lambda>_. 1000000000),
      RandRead = (\<lambda>n k. (Inr (replicate n CHR ''r''), k)),
      GroupVersionKind = (\<lambda>tm. (SchemeGroup, ''v1'', tm_Kind tm))\<rparr>"

lemmas ex_objects =
  ex_meta_def ex_policy_def ex_root_def ex_labelled_def ex_replica_def ex_set_def ex_binding_def
  ex_subject_def ex_set_subject_def ex_pb_def ex_set_pb_def ex_decisions_def ex_pd_def
  ObjectMeta_zero_def Policy_zero_def PolicySpec_zero_def PolicyStatus_zero_def

lemmas ex_client = ex_reader_def ex_api_def ex_version_def

end
