(* ===== verification/Common_Lookup.thy ===== *)
theory Common_Lookup
  imports Example_Objects
begin

text \<open>
  \<^verbatim>\<open>controllers/common/common.go\<close>, first part: cluster namespaces, root policy labels, the
  policies a PlacementBinding names, placement decisions, and the difference of two object lists
  (\<open>GetAffectedObjs\<close>), which the update handlers rely on. \<open>affected_diff\<close> is that
  contract as a locale.
\<close>

section \<open>Namespaces and labels\<close>

definition IsInClusterNamespace :: "client_reader \<Rightarrow> string \<Rightarrow> goerr + bool" where
  "IsInClusterNamespace c ns =
     (case Get_ManagedCluster c ns of
        Inl e \<Rightarrow> if IsNotFound e then Inr False
                else Inl (Wrapped (''failed to get the managed cluster '' @ ns) e)
      | Inr _ \<Rightarrow> Inr True)"

text \<open>The result is \<open>(name, namespace)\<close>, in the order of the source.\<close>

definition ParseRootPolicyLabel :: "string \<Rightarrow> goerr + string \<times> string" where
  "ParseRootPolicyLabel rootPlc =
     (case Cut rootPlc (CHR ''.'') of
        (namespace, name, found) \<Rightarrow>
          if \<not> found
          then Inl (Wrapped (''required at least one `.` in value of label '' @ RootPolicyLabel)
                     ErrInvalidLabelValue)
          else Inr (name, namespace))"

definition IsReplicatedPolicy :: "client_reader \<Rightarrow> ObjectMeta \<Rightarrow> goerr + bool" where
  "IsReplicatedPolicy c policy =
     (let rootPlcName = map_index (om_Labels policy) RootPolicyLabel in
      if rootPlcName = [] then Inr False
      else case ParseRootPolicyLabel rootPlcName of
             Inl e \<Rightarrow> Inl (Wrapped (''invalid value set in '' @ RootPolicyLabel) e)
           | Inr _ \<Rightarrow> IsInClusterNamespace c (om_Namespace policy))"

definition FullNameForPolicy :: "Policy \<Rightarrow> string" where
  "FullNameForPolicy plc = p_Namespace plc @ ''.'' @ p_Name plc"

definition LabelsForRootPolicy :: "Policy \<Rightarrow> (string, string) fmap" where
  "LabelsForRootPolicy plc = fmupd RootPolicyLabel (FullNameForPolicy plc) fmempty"

section \<open>Placement bindings\<close>

definition IsForPolicyOrPolicySet :: "PlacementBinding option \<Rightarrow> bool" where
  "IsForPolicyOrPolicySet pb =
     (case pb of
        None \<Rightarrow> False
      | Some b \<Rightarrow>
          list_ex (\<lambda>subject. sub_APIGroup subject = SchemeGroup \<and>
                     (sub_Kind subject = PolicyKind \<or> sub_Kind subject = PolicySetKind))
            (pb_Subjects b))"

definition IsPbForPolicySet :: "PlacementBinding option \<Rightarrow> bool" where
  "IsPbForPolicySet pb =
     (case pb of
        None \<Rightarrow> False
      | Some b \<Rightarrow>
          list_ex (\<lambda>subject. sub_Kind subject = PolicySetKind \<and> sub_APIGroup subject = SchemeGroup)
            (pb_Subjects b))"

text \<open>One turn of the subject loop: the keys of \<^verbatim>\<open>table\<close> after the subject.\<close>

definition add_subject_policies ::
  "client_reader \<Rightarrow> string \<Rightarrow> Subject \<Rightarrow> Request list \<Rightarrow> Request list" where
  "add_subject_policies c ns subject table =
     (if sub_APIGroup subject \<noteq> SchemeGroup then table
      else if sub_Kind subject = PolicyKind then add_key (nn ns (sub_Name subject)) table
      else if sub_Kind subject = PolicySetKind then
        (case Get_PolicySet c (nn ns (sub_Name subject)) of
           Inl _ \<Rightarrow> table
         | Inr policySet \<Rightarrow>
             fold (\<lambda>plc. add_key (nn ns plc)) (pss_Policies (set_Spec policySet)) table)
      else table)"

definition GetPoliciesInPlacementBinding ::
  "client_reader \<Rightarrow> PlacementBinding \<Rightarrow> Request list" where
  "GetPoliciesInPlacementBinding c pb =
     fold (add_subject_policies c (pb_Namespace pb)) (pb_Subjects pb) []"

definition FindNonCompliantClustersForPolicy :: "Policy \<Rightarrow> string list" where
  "FindNonCompliantClustersForPolicy plc =
     map cs_ClusterName
       (filter (\<lambda>s. cs_ComplianceState s = NonCompliant) (items (st_Status (p_Status plc))))"

definition HasValidPlacementRef :: "PlacementBinding \<Rightarrow> bool" where
  "HasValidPlacementRef pb =
     (let ref = pb_PlacementRef pb in
      if ref_Kind ref = PlacementRule_kind then ref_APIGroup ref = AppsGroup
      else if ref_Kind ref = Placement_kind then ref_APIGroup ref = ClusterGroup
      else False)"

text \<open>
  The items of a list call whose NotFound error is ignored: the list object stays empty.
\<close>

definition GetDecisions :: "client_reader \<Rightarrow> PlacementBinding \<Rightarrow> goerr + string list" where
  "GetDecisions c pb =
     (if \<not> HasValidPlacementRef pb then Inr []
      else
        let ref = pb_PlacementRef pb; refNN = nn (pb_Namespace pb) (ref_Name ref) in
        if ref_Kind ref = Placement_kind then
          (case Get_Placement c refNN of
             Inl e \<Rightarrow> if \<not> IsNotFound e
                     then Inl (Wrapped (''failed to get Placement '' @ ref_Name ref) e)
                     else Inr []
           | Inr pl \<Rightarrow>
               (case List_PlacementDecisions c
                       [InNamespace (pb_Namespace pb), MatchingLabels PlacementLabel (plo_Name pl)] of
                  Inl e \<Rightarrow> if \<not> IsNotFound e
                          then Inl (Wrapped (''failed to list the PlacementDecisions for '' @ ref_Name ref) e)
                          else Inr []
                | Inr ds \<Rightarrow> Inr (concat (map (\<lambda>d. map cd_ClusterName (pd_Decisions d)) ds))))
        else if ref_Kind ref = PlacementRule_kind then
          (case Get_PlacementRule c refNN of
             Inl e \<Rightarrow> if \<not> IsNotFound e
                     then Inl (Wrapped (''failed to get PlacementRule '' @ ref_Name ref) e)
                     else Inr (map rd_ClusterName (plr_Decisions PlacementRuleObj_zero))
           | Inr plr \<Rightarrow> Inr (map rd_ClusterName (plr_Decisions plr)))
        else Inl (Msg ''placement binding reference is not valid''))"

definition GetRepPoliciesInPlacementBinding ::
  "client_reader \<Rightarrow> PlacementBinding \<Rightarrow> Request list" where
  "GetRepPoliciesInPlacementBinding c pb =
     (case GetDecisions c pb of
        Inl _ \<Rightarrow> []
      | Inr decisions \<Rightarrow>
          concat (map (\<lambda>rp. map (\<lambda>clusterName. nn clusterName (nn_Namespace rp @ ''.'' @ nn_Name rp))
                         decisions)
                   (GetPoliciesInPlacementBinding c pb)))"

definition kindGroupMap :: "string \<Rightarrow> string" where
  "kindGroupMap k =
     (if k = Placement_kind then ClusterGroup
      else if k = PlacementRule_kind then AppsGroup else [])"

definition GetRootPolicyRequests ::
  "client_reader \<Rightarrow> string \<Rightarrow> string \<Rightarrow> string \<Rightarrow> goerr + Request list" where
  "GetRootPolicyRequests c namespace placementRefName refKind =
     (case List_PlacementBindings c
             [InNamespace namespace, MatchingFields ''placementRef.name'' placementRefName] of
        Inl e \<Rightarrow> Inl e
      | Inr pbs \<Rightarrow>
          Inr (concat (map (GetPoliciesInPlacementBinding c)
                (filter (\<lambda>pb. ref_APIGroup (pb_PlacementRef pb) = kindGroupMap refKind \<and>
                              ref_Kind (pb_PlacementRef pb) = refKind \<and>
                              ref_Name (pb_PlacementRef pb) = placementRefName) pbs))))"

section \<open>Objects added or removed\<close>

definition count_up :: "'a \<Rightarrow> ('a \<times> int) list \<Rightarrow> ('a \<times> int) list" where
  "count_up x table =
     AList.update x ((case map_of table x of None \<Rightarrow> 0 | Some n \<Rightarrow> n) + 1) table"

definition GetAffectedObjs :: "'a list \<Rightarrow> 'a list \<Rightarrow> 'a list" where
  "GetAffectedObjs oldObjs newObjs =
     (let marked = fold (\<lambda>oldObj. AList.update oldObj 1) oldObjs [];
          table = fold count_up newObjs marked
      in map fst (filter (\<lambda>(key, val). val = 1) table))"

section \<open>Lemmas\<close>

subsection \<open>Labels\<close>

lemma ParseRootPolicyLabel_append:
  "CHR ''.'' \<notin> set ns \<Longrightarrow> ParseRootPolicyLabel (ns @ ''.'' @ name) = Inr (name, ns)"
  using Cut_found [of "CHR ''.''" ns name] by (simp add: ParseRootPolicyLabel_def)

lemma ParseRootPolicyLabel_Inr:
  "ParseRootPolicyLabel s = Inr (name, ns) \<longleftrightarrow> CHR ''.'' \<notin> set ns \<and> s = ns @ ''.'' @ name"
proof
  assume "ParseRootPolicyLabel s = Inr (name, ns)"
  then show "CHR ''.'' \<notin> set ns \<and> s = ns @ ''.'' @ name"
    by (cases rule: Cut_cases [of s "CHR ''.''"]) (auto simp: ParseRootPolicyLabel_def)
next
  assume "CHR ''.'' \<notin> set ns \<and> s = ns @ ''.'' @ name"
  then show "ParseRootPolicyLabel s = Inr (name, ns)"
    using ParseRootPolicyLabel_append by blast
qed

lemma ParseRootPolicyLabel_Inl:
  "(\<exists>e. ParseRootPolicyLabel s = Inl e) \<longleftrightarrow> CHR ''.'' \<notin> set s"
  by (cases rule: Cut_cases [of s "CHR ''.''"]) (auto simp: ParseRootPolicyLabel_def)

lemma IsInClusterNamespace_cases:
  obtains (yes) mc where "Get_ManagedCluster c ns = Inr mc" "IsInClusterNamespace c ns = Inr True"
  | (no) e where "Get_ManagedCluster c ns = Inl e" "IsNotFound e" "IsInClusterNamespace c ns = Inr False"
  | (err) e e' where "Get_ManagedCluster c ns = Inl e" "\<not> IsNotFound e" "IsInClusterNamespace c ns = Inl e'"
  unfolding IsInClusterNamespace_def by (cases "Get_ManagedCluster c ns") (auto split: if_splits)

subsection \<open>Policies of a binding\<close>

definition subject_names_policy :: "client_reader \<Rightarrow> string \<Rightarrow> Subject \<Rightarrow> string \<Rightarrow> bool" where
  "subject_names_policy c ns s name \<longleftrightarrow>
     sub_APIGroup s = SchemeGroup \<and>
     (sub_Kind s = PolicyKind \<and> sub_Name s = name \<or>
      sub_Kind s = PolicySetKind \<and>
        (\<exists>ps. Get_PolicySet c (nn ns (sub_Name s)) = Inr ps \<and> name \<in> set (pss_Policies (set_Spec ps))))"

lemma set_add_subject_policies:
  "set (add_subject_policies c ns s table) =
     set table \<union> {nn ns name | name. subject_names_policy c ns s name}"
  by (auto simp: add_subject_policies_def subject_names_policy_def split: sum.splits)

lemma distinct_add_subject_policies:
  "distinct (add_subject_policies c ns s table) = distinct table"
  by (auto simp: add_subject_policies_def split: sum.splits)

lemma set_fold_add_subject_policies:
  "set (fold (add_subject_policies c ns) ss table) =
     set table \<union> {nn ns name | name. \<exists>s \<in> set ss. subject_names_policy c ns s name}"
  by (induction ss arbitrary: table) (auto simp: set_add_subject_policies)

lemma distinct_fold_add_subject_policies:
  "distinct (fold (add_subject_policies c ns) ss table) = distinct table"
  by (induction ss arbitrary: table) (auto simp: distinct_add_subject_policies)

lemma set_GetPoliciesInPlacementBinding:
  "set (GetPoliciesInPlacementBinding c pb) =
     {nn (pb_Namespace pb) name | name.
        \<exists>s \<in> set (pb_Subjects pb). subject_names_policy c (pb_Namespace pb) s name}"
  by (simp add: GetPoliciesInPlacementBinding_def set_fold_add_subject_policies)

lemma distinct_GetPoliciesInPlacementBinding: "distinct (GetPoliciesInPlacementBinding c pb)"
  by (simp add: GetPoliciesInPlacementBinding_def distinct_fold_add_subject_policies)

subsection \<open>Affected objects\<close>

lemma map_of_count_up:
  "map_of (count_up x t) y =
     (if x = y then Some ((case map_of t x of None \<Rightarrow> 0 | Some n \<Rightarrow> n) + 1) else map_of t y)"
  by (simp add: count_up_def update_conv')

lemma distinct_count_up: "distinct (map fst t) \<Longrightarrow> distinct (map fst (count_up x t))"
  by (simp add: count_up_def distinct_update)

lemma map_of_fold_mark:
  "map_of (fold (\<lambda>oldObj. AList.update oldObj 1) xs t) y = (if y \<in> set xs then Some 1 else map_of t y)"
  by (induction xs arbitrary: t) (auto simp: update_conv')

lemma distinct_fold_mark:
  "distinct (map fst t) \<Longrightarrow> distinct (map fst (fold (\<lambda>oldObj. AList.update oldObj 1) xs t))"
  by (induction xs arbitrary: t) (auto simp: distinct_update)

lemma map_of_fold_count_up:
  "map_of (fold count_up xs t) y =
     (if y \<in> set xs then Some ((case map_of t y of None \<Rightarrow> 0 | Some n \<Rightarrow> n) + int (count_list xs y))
      else map_of t y)"
  by (induction xs arbitrary: t) (auto simp: map_of_count_up split: option.splits)

lemma distinct_fold_count_up:
  "distinct (map fst t) \<Longrightarrow> distinct (map fst (fold count_up xs t))"
  by (induction xs arbitrary: t) (auto simp: distinct_count_up)

lemma set_filter_keys:
  assumes "distinct (map fst t)"
  shows "set (map fst (filter (\<lambda>(k, v). v = x) t)) = {k. map_of t k = Some x}"
  using assms by (force simp: map_of_eq_Some_iff)

lemma distinct_filter_keys:
  "distinct (map fst t) \<Longrightarrow> distinct (map fst (filter P t))"
  by (induction t) auto

lemma set_GetAffectedObjs:
  "set (GetAffectedObjs old new) =
     {x. x \<in> set old \<and> x \<notin> set new \<or> x \<notin> set old \<and> count_list new x = 1}"
proof -
  let ?m = "fold (\<lambda>x. AList.update x (1::int)) old []"
  have dm: "distinct (map fst ?m)" by (rule distinct_fold_mark) simp
  have "set (GetAffectedObjs old new) = {k. map_of (fold count_up new ?m) k = Some 1}"
    by (simp only: GetAffectedObjs_def Let_def set_filter_keys [OF distinct_fold_count_up [OF dm]])
  also have "\<dots> = {x. x \<in> set old \<and> x \<notin> set new \<or> x \<notin> set old \<and> count_list new x = 1}"
    by (auto simp: map_of_fold_count_up map_of_fold_mark count_list_0_iff dest: count_list_SucD split: if_splits)
  finally show ?thesis .
qed

lemma distinct_GetAffectedObjs: "distinct (GetAffectedObjs old new)"
  unfolding GetAffectedObjs_def Let_def
  by (intro distinct_filter_keys distinct_fold_count_up distinct_fold_mark) simp

section \<open>The contract of the difference\<close>

text \<open>
  What the update handlers rely on: on lists without duplicates, \<open>affected\<close> is the symmetric
  difference, each element once.
\<close>

locale affected_diff =
  fixes affected :: "'a list \<Rightarrow> 'a list \<Rightarrow> 'a list"
  assumes affected_set:
      "distinct ys \<Longrightarrow> set (affected xs ys) = (set xs - set ys) \<union> (set ys - set xs)"
    and affected_distinct: "distinct (affected xs ys)"
begin

lemma affected_sym:
  "distinct xs \<Longrightarrow> distinct ys \<Longrightarrow> set (affected xs ys) = set (affected ys xs)"
  by (auto simp: affected_set)

lemma affected_empty_iff: "distinct ys \<Longrightarrow> affected xs ys = [] \<longleftrightarrow> set xs = set ys"
  by (metis Diff_eq_empty_iff Un_empty affected_set order_antisym order_refl set_empty)

text \<open>Requests built from every affected object and every root policy.\<close>

lemma affected_requests:
  "distinct ys \<Longrightarrow>
   set (concat (map (\<lambda>r. map (g r) (affected xs ys)) rs)) =
     {g r d | r d. r \<in> set rs \<and> (d \<in> set xs) \<noteq> (d \<in> set ys)}"
  by (auto simp: affected_set)

end

lemma count_list_distinct: "distinct xs \<Longrightarrow> count_list xs x = (if x \<in> set xs then 1 else 0)"
  by (induction xs) auto

interpretation gao: affected_diff GetAffectedObjs
proof
  show "set (GetAffectedObjs xs ys) = (set xs - set ys) \<union> (set ys - set xs)"
    if "distinct ys" for xs ys :: "'a list"
    using that by (auto simp: set_GetAffectedObjs count_list_distinct)
  show "distinct (GetAffectedObjs xs ys)" for xs ys :: "'a list"
    by (rule distinct_GetAffectedObjs)
qed

section \<open>Properties\<close>

text \<open>\<open>GetAffectedObjs\<close> on lists without duplicates returns exactly the objects that are in one
  list and not in the other, each once, and it does so whichever list comes first.\<close>

theorem affected_objs_symmetric:
  assumes "distinct old" and "distinct new"
  shows "set (GetAffectedObjs old new) = (set old - set new) \<union> (set new - set old) \<and>
    distinct (GetAffectedObjs old new) \<and>
    set (GetAffectedObjs new old) = set (GetAffectedObjs old new) \<and>
    (GetAffectedObjs old new = [] \<longleftrightarrow> set old = set new)"
  using gao.affected_set [OF assms(2), of old] gao.affected_distinct [of old new]
    gao.affected_sym [OF assms] gao.affected_empty_iff [OF assms(2), of old] by auto

theorem affected_objs_symmetric_witness:
  "set (GetAffectedObjs [1, 2] [2, 3 :: nat]) = {1, 3}"
proof -
  have "distinct [1, 2 :: nat]" "distinct [2, 3 :: nat]" by simp_all
  note diff = conjunct1 [OF affected_objs_symmetric [OF this]]
  show ?thesis unfolding diff by auto
qed

text \<open>The full name that labels a replicated policy is parsed back to the root policy's name and
  namespace, and nothing else is: a label value is rejected exactly when it has no dot.\<close>

theorem root_label_roundtrip:
  assumes "CHR ''.'' \<notin> set (p_Namespace plc)"
  shows "ParseRootPolicyLabel (FullNameForPolicy plc) = Inr (p_Name plc, p_Namespace plc) \<and>
    (\<forall>name ns. ParseRootPolicyLabel (FullNameForPolicy plc) = Inr (name, ns) \<longrightarrow>
       ns @ ''.'' @ name = FullNameForPolicy plc) \<and>
    fmlookup (LabelsForRootPolicy plc) RootPolicyLabel = Some (FullNameForPolicy plc)"
  using ParseRootPolicyLabel_append [OF assms, of "p_Name plc"]
  by (simp add: FullNameForPolicy_def LabelsForRootPolicy_def)

theorem root_label_roundtrip_witness:
  "ParseRootPolicyLabel (FullNameForPolicy ex_root) = Inr (''p'', ''ns'')"
  using root_label_roundtrip [of ex_root] by (simp add: ex_objects)

text \<open>The policies of a PlacementBinding: the requests are distinct and are exactly the policies in
  the binding's namespace that a subject of the policy group names, directly or through a policy set
  that can be read.\<close>

theorem binding_policies_exact:
  "distinct (GetPoliciesInPlacementBinding c pb) \<and>
   (r \<in> set (GetPoliciesInPlacementBinding c pb) \<longleftrightarrow>
      nn_Namespace r = pb_Namespace pb \<and>
      (\<exists>s \<in> set (pb_Subjects pb). subject_names_policy c (pb_Namespace pb) s (nn_Name r)))"
  by (cases r) (auto simp: distinct_GetPoliciesInPlacementBinding set_GetPoliciesInPlacementBinding)

end
