(* ===== verification/Set_Exclusions.thy ===== *)
theory Set_Exclusions
  imports Common_Lookup
begin

text \<open>
  \<^verbatim>\<open>controllers/common/common.go\<close>, second part: policy set membership and exclusions, the
  decision set of a root policy (\<^verbatim>\<open>DecisionSet\<close> of
  \<^verbatim>\<open>common_status_update.go\<close>: for each cluster the names of the bindings that place the
  policy there) and the bindings that remain after exclusions.
\<close>

section \<open>Definitions\<close>

definition GetPolicySet :: "client_reader \<Rightarrow> string \<Rightarrow> string \<Rightarrow> goerr + PolicySet option" where
  "GetPolicySet c namespace policySetName =
     (case Get_PolicySet c (nn namespace policySetName) of
        Inl e \<Rightarrow> if IsNotFound e then Inr None
                else Inl (Wrapped (''failed to get PolicySet '' @ policySetName) e)
      | Inr policySet \<Rightarrow> Inr (Some policySet))"

definition IsPolicyInPolicySet :: "PolicySet option \<Rightarrow> string \<Rightarrow> bool" where
  "IsPolicyInPolicySet policySet policyName =
     (case policySet of
        None \<Rightarrow> False
      | Some s \<Rightarrow> if policyName = [] then False else policyName \<in> set (pss_Policies (set_Spec s)))"

definition ExcludedClustersForPolicy :: "PolicySet option \<Rightarrow> string \<Rightarrow> string list" where
  "ExcludedClustersForPolicy policySet policyName =
     (case policySet of
        None \<Rightarrow> []
      | Some s \<Rightarrow>
          if pss_Exclusions (set_Spec s) = [] then []
          else
            let clusterNames =
                  concat (map ex_ClusterNames
                    (filter (\<lambda>ex. ex_PolicyName ex = policyName) (pss_Exclusions (set_Spec s))))
            in if clusterNames = [] then [] else remdups_adj (sort clusterNames))"

definition FilterExcludedClusters :: "string list \<Rightarrow> string list \<Rightarrow> string list" where
  "FilterExcludedClusters clusters excluded = filter (\<lambda>cluster. \<not> cluster \<in> set excluded) clusters"

definition buildPolicyExclusionsStatus :: "PolicySet option \<Rightarrow> string \<Rightarrow> PolicyExclusion list" where
  "buildPolicyExclusionsStatus policySet policyName =
     (let excludedClusters = ExcludedClustersForPolicy policySet policyName in
      if excludedClusters = [] then []
      else sort_key px_ClusterName
             (map (\<lambda>clusterName. \<lparr>px_ClusterName = clusterName\<rparr>) excludedClusters))"

type_synonym DecisionSet = "(string \<times> string list) list"

text \<open>\<^verbatim>\<open>d[clusterName]\<close>: the nil slice for a missing key.\<close>

definition bindings_of :: "(string \<times> 'b list) list \<Rightarrow> string \<Rightarrow> 'b list" where
  "bindings_of d clusterName = (case map_of d clusterName of None \<Rightarrow> [] | Some bs \<Rightarrow> bs)"

definition addBinding :: "string \<Rightarrow> string \<Rightarrow> DecisionSet \<Rightarrow> DecisionSet" where
  "addBinding clusterName bindingName d =
     (if bindingName \<in> set (bindings_of d clusterName) then d
      else AList.update clusterName (bindings_of d clusterName @ [bindingName]) d)"

definition sortDecisionSet :: "DecisionSet \<Rightarrow> DecisionSet" where
  "sortDecisionSet decisions = map (\<lambda>(clusterName, bindings). (clusterName, sort bindings)) decisions"

text \<open>
  \<^verbatim>\<open>excludedByCluster\<close> after the loops over the placements: for each cluster the bindings
  through which a policy set excludes it. The placements are the non-nil pointers that
  \<^verbatim>\<open>GetClusterDecisions\<close> builds.
\<close>

definition add_placement_exclusions ::
  "Placement \<Rightarrow> (string \<times> string list) list \<Rightarrow> (string \<times> string list) list" where
  "add_placement_exclusions placement m =
     (if pl_PolicySet placement = [] then m
      else fold (\<lambda>exclusion m.
                   AList.update (px_ClusterName exclusion)
                     (bindings_of m (px_ClusterName exclusion) @ [pl_PlacementBinding placement]) m)
             (pl_Exclusions placement) m)"

definition computeRemainingBindings ::
  "Policy \<Rightarrow> Placement list \<Rightarrow> DecisionSet \<Rightarrow> (string \<times> RemainingBinding list) list" where
  "computeRemainingBindings rootPolicy placements decisions =
     (if ps_Disabled (p_Spec rootPolicy) \<or> decisions = [] then []
      else
        let excludedByCluster = fold add_placement_exclusions placements [] in
        concat (map (\<lambda>(clusterName, bindingNames).
          let excludingBindings = bindings_of excludedByCluster clusterName in
          if excludingBindings = [] then []
          else
            let remaining = filter (\<lambda>b. \<not> b \<in> set excludingBindings) bindingNames in
            if remaining = [] then []
            else [(clusterName,
                   sort_key rb_PlacementBinding
                     (map (\<lambda>b. \<lparr>rb_PlacementBinding = b\<rparr>) remaining))]) decisions))"

section \<open>Exclusions of a policy set\<close>

lemma set_ExcludedClustersForPolicy:
  "set (ExcludedClustersForPolicy (Some s) p) =
     {cl. \<exists>ex \<in> set (pss_Exclusions (set_Spec s)). ex_PolicyName ex = p \<and> cl \<in> set (ex_ClusterNames ex)}"
  by (auto simp: ExcludedClustersForPolicy_def Let_def)

lemma sorted_ExcludedClustersForPolicy: "sorted (ExcludedClustersForPolicy ps p)"
  by (auto simp: ExcludedClustersForPolicy_def Let_def remdups_adj_sort split: option.splits)

lemma distinct_ExcludedClustersForPolicy: "distinct (ExcludedClustersForPolicy ps p)"
  by (auto simp: ExcludedClustersForPolicy_def Let_def remdups_adj_sort split: option.splits)

lemma ExcludedClustersForPolicy_None [simp]: "ExcludedClustersForPolicy None p = []"
  by (simp add: ExcludedClustersForPolicy_def)

lemma set_FilterExcludedClusters [simp]:
  "set (FilterExcludedClusters cs ex) = set cs - set ex"
  by (auto simp: FilterExcludedClusters_def)

lemma sort_key_map_sorted:
  "sorted xs \<Longrightarrow> (\<And>x. f (g x) = x) \<Longrightarrow> sort_key f (map g xs) = map g xs"
  by (rule sort_key_id_if_sorted) (simp add: comp_def)

lemma buildPolicyExclusionsStatus_eq:
  "buildPolicyExclusionsStatus ps p =
     map (\<lambda>cl. \<lparr>px_ClusterName = cl\<rparr>) (ExcludedClustersForPolicy ps p)"
  by (simp add: buildPolicyExclusionsStatus_def Let_def sort_key_map_sorted
      sorted_ExcludedClustersForPolicy)

lemma GetPolicySet_cases:
  obtains (found) ps where "Get_PolicySet c (nn ns n) = Inr ps" "GetPolicySet c ns n = Inr (Some ps)"
  | (missing) e where "Get_PolicySet c (nn ns n) = Inl e" "IsNotFound e" "GetPolicySet c ns n = Inr None"
  | (err) e e' where "Get_PolicySet c (nn ns n) = Inl e" "\<not> IsNotFound e" "GetPolicySet c ns n = Inl e'"
  unfolding GetPolicySet_def by (cases "Get_PolicySet c (nn ns n)") (auto split: if_splits)

section \<open>Decision sets\<close>

definition decided :: "DecisionSet \<Rightarrow> string set" where
  "decided d = fst ` set d"

text \<open>The invariant of a decision set: keys distinct, every cluster with a binding, none twice.\<close>

definition wf_decisions :: "DecisionSet \<Rightarrow> bool" where
  "wf_decisions d \<longleftrightarrow>
     distinct (map fst d) \<and> (\<forall>(cl, bs) \<in> set d. bs \<noteq> [] \<and> distinct bs)"

lemma decided_dom: "decided d = dom (map_of d)"
  by (simp add: decided_def dom_map_of_conv_image_fst)

lemma bindings_of_Nil [simp]: "bindings_of [] cl = []"
  by (simp add: bindings_of_def)

lemma bindings_of_update:
  "bindings_of (AList.update k v d) cl = (if k = cl then v else bindings_of d cl)"
  by (simp add: bindings_of_def update_conv')

lemma wf_decisions_Nil [simp]: "wf_decisions []"
  by (simp add: wf_decisions_def)

lemma wf_bindings_of:
  "wf_decisions d \<Longrightarrow> distinct (bindings_of d cl) \<and> (bindings_of d cl \<noteq> [] \<longleftrightarrow> cl \<in> decided d)"
  by (auto simp: wf_decisions_def bindings_of_def decided_dom split: option.splits
      dest!: map_of_SomeD)

lemma bindings_of_addBinding:
  "set (bindings_of (addBinding cl b d) cl') =
     set (bindings_of d cl') \<union> (if cl = cl' then {b} else {})"
  by (auto simp: addBinding_def bindings_of_update)

lemma decided_addBinding:
  "wf_decisions d \<Longrightarrow> decided (addBinding cl b d) = insert cl (decided d)"
  using wf_bindings_of [of d cl]
  by (auto simp: addBinding_def decided_dom update_conv' dom_if)

lemma wf_addBinding:
  assumes "wf_decisions d" shows "wf_decisions (addBinding cl b d)"
proof (cases "b \<in> set (bindings_of d cl)")
  case True
  with assms show ?thesis by (simp add: addBinding_def)
next
  case False
  have sub: "set (AList.update cl v d) \<subseteq> insert (cl, v) (set d)" for v :: "string list"
    by (induction d) auto
  from False wf_bindings_of [OF assms, of cl] have ok: "distinct (bindings_of d cl @ [b])" by simp
  from assms have keys: "distinct (map fst (AList.update cl (bindings_of d cl @ [b]) d))"
    by (simp add: wf_decisions_def distinct_update)
  from assms ok sub [of "bindings_of d cl @ [b]"] False keys show ?thesis
    by (auto simp: wf_decisions_def addBinding_def split_def dest!: subsetD)
qed

lemma fold_addBinding:
  assumes "wf_decisions d"
  shows "wf_decisions (fold (\<lambda>cl. addBinding cl b) cls d)"
    and "decided (fold (\<lambda>cl. addBinding cl b) cls d) = decided d \<union> set cls"
    and "set (bindings_of (fold (\<lambda>cl. addBinding cl b) cls d) cl') =
           set (bindings_of d cl') \<union> (if cl' \<in> set cls then {b} else {})"
  using assms
  by (induction cls arbitrary: d)
     (auto simp: wf_addBinding decided_addBinding bindings_of_addBinding)

lemma map_of_sortDecisionSet: "map_of (sortDecisionSet d) cl = map_option sort (map_of d cl)"
  by (induction d) (auto simp: sortDecisionSet_def)

lemma bindings_of_sortDecisionSet: "bindings_of (sortDecisionSet d) cl = sort (bindings_of d cl)"
  by (simp add: bindings_of_def map_of_sortDecisionSet split: option.splits)

lemma decided_sortDecisionSet [simp]: "decided (sortDecisionSet d) = decided d"
  by (force simp: decided_def sortDecisionSet_def)

lemma keys_sortDecisionSet [simp]: "map fst (sortDecisionSet d) = map fst d"
  by (simp add: sortDecisionSet_def comp_def split_def)

lemma sort_eq_Nil [simp]: "sort bs = [] \<longleftrightarrow> bs = []"
  by (metis length_0_conv length_sort)

lemma wf_sortDecisionSet: "wf_decisions d \<Longrightarrow> wf_decisions (sortDecisionSet d)"
  unfolding wf_decisions_def keys_sortDecisionSet
  by (auto simp: sortDecisionSet_def)

section \<open>Remaining bindings\<close>

lemma bindings_of_fold_exclusions:
  "set (bindings_of (fold (\<lambda>ex m. AList.update (px_ClusterName ex)
          (bindings_of m (px_ClusterName ex) @ [b]) m) exs m) cl) =
     set (bindings_of m cl) \<union> (if \<exists>ex \<in> set exs. px_ClusterName ex = cl then {b} else {})"
  by (induction exs arbitrary: m) (auto simp: bindings_of_update)

definition excludes :: "Placement \<Rightarrow> string \<Rightarrow> bool" where
  "excludes pl cl \<longleftrightarrow> pl_PolicySet pl \<noteq> [] \<and> (\<exists>ex \<in> set (pl_Exclusions pl). px_ClusterName ex = cl)"

lemma bindings_of_excludedByCluster:
  "set (bindings_of (fold add_placement_exclusions pls m) cl) =
     set (bindings_of m cl) \<union> {pl_PlacementBinding pl | pl. pl \<in> set pls \<and> excludes pl cl}"
  by (induction pls arbitrary: m)
     (auto simp: add_placement_exclusions_def bindings_of_fold_exclusions excludes_def)

text \<open>Lookup in a map built by at most one entry per entry of another map.\<close>

lemma map_of_concat_entries:
  assumes "distinct (map fst d)" and "\<And>k v. g (k, v) = [] \<or> (\<exists>w. g (k, v) = [(k, w)])"
  shows "map_of (concat (map g d)) cl =
           (case map_of d cl of None \<Rightarrow> None | Some v \<Rightarrow> map_of (g (cl, v)) cl)"
  using assms(1)
proof (induction d)
  case Nil
  show ?case by simp
next
  case (Cons kv d)
  obtain k v where kv: "kv = (k, v)" by fastforce
  have other: "map_of (concat (map g d)) k = None" if "k \<notin> fst ` set d" for k
  proof (rule ccontr)
    assume "\<not> ?thesis"
    then obtain w where "(k, w) \<in> set (concat (map g d))" by (auto dest: map_of_SomeD)
    then obtain k' v' where "(k', v') \<in> set d" "(k, w) \<in> set (g (k', v'))" by auto
    with assms(2) [of k' v'] that show False by force
  qed
  show ?case
    using Cons assms(2) [of k v] other [of k] by (auto simp: kv map_add_def split: option.splits)
qed

lemma insort_key_map: "(\<And>x. f (g x) = x) \<Longrightarrow> insort_key f (g x) (map g ys) = map g (insort x ys)"
  by (induction ys) auto

lemma sort_key_map: "(\<And>x. f (g x) = x) \<Longrightarrow> sort_key f (map g xs) = map g (sort xs)"
  by (induction xs) (auto simp: insort_key_map)

text \<open>
  For a cluster that some policy set path excludes, the remaining bindings are the sorted bindings
  that place the policy there and are not themselves an excluding path; other clusters have none.
\<close>

lemma computeRemainingBindings_lookup:
  assumes "wf_decisions d" and "\<not> ps_Disabled (p_Spec root)"
  shows "bindings_of (computeRemainingBindings root pls d) cl =
    (if \<exists>pl \<in> set pls. excludes pl cl
     then map (\<lambda>b. \<lparr>rb_PlacementBinding = b\<rparr>)
            (sort (filter (\<lambda>b. \<not> (\<exists>pl \<in> set pls. excludes pl cl \<and> pl_PlacementBinding pl = b))
                    (bindings_of d cl)))
     else [])"
proof (cases "d = []")
  case True
  then show ?thesis by (simp add: computeRemainingBindings_def)
next
  case False
  define ebc where "ebc = fold add_placement_exclusions pls []"
  have ebc: "set (bindings_of ebc cl) = {pl_PlacementBinding pl | pl. pl \<in> set pls \<and> excludes pl cl}" for cl
    by (simp add: ebc_def bindings_of_excludedByCluster)
  define g where "g = (\<lambda>(clusterName, bindingNames).
          let excludingBindings = bindings_of ebc clusterName in
          if excludingBindings = [] then []
          else
            let remaining = filter (\<lambda>b. \<not> b \<in> set excludingBindings) bindingNames in
            if remaining = [] then []
            else [(clusterName,
                   sort_key rb_PlacementBinding
                     (map (\<lambda>b. \<lparr>rb_PlacementBinding = b\<rparr>) remaining))])"
  have crb: "computeRemainingBindings root pls d = concat (map g d)"
    using assms(2) False by (simp add: computeRemainingBindings_def g_def ebc_def Let_def)
  have "map_of (concat (map g d)) cl = (case map_of d cl of None \<Rightarrow> None | Some v \<Rightarrow> map_of (g (cl, v)) cl)"
    by (rule map_of_concat_entries) (use assms(1) in \<open>auto simp: wf_decisions_def g_def Let_def\<close>)
  moreover have "bindings_of ebc cl = [] \<longleftrightarrow> \<not> (\<exists>pl \<in> set pls. excludes pl cl)"
    using ebc [of cl] by (auto simp flip: set_empty)
  moreover have "b \<in> set (bindings_of ebc cl) \<longleftrightarrow>
      (\<exists>pl \<in> set pls. excludes pl cl \<and> pl_PlacementBinding pl = b)" for b
    using ebc [of cl] by auto
  ultimately show ?thesis
    by (auto simp: crb bindings_of_def g_def Let_def sort_key_map split: option.splits)
qed

section \<open>Properties\<close>

text \<open>The clusters a policy set excludes for a policy are listed sorted and without duplicates,
  they are the clusters of all its exclusions with that policy's name, and filtering a decision list
  removes exactly them.\<close>

theorem excluded_clusters_exact:
  "sorted (ExcludedClustersForPolicy (Some s) p) \<and> distinct (ExcludedClustersForPolicy (Some s) p) \<and>
   set (ExcludedClustersForPolicy (Some s) p) =
     {cl. \<exists>ex \<in> set (pss_Exclusions (set_Spec s)). ex_PolicyName ex = p \<and> cl \<in> set (ex_ClusterNames ex)} \<and>
   set (FilterExcludedClusters cls (ExcludedClustersForPolicy (Some s) p)) =
     set cls - set (ExcludedClustersForPolicy (Some s) p) \<and>
   map px_ClusterName (buildPolicyExclusionsStatus (Some s) p) = ExcludedClustersForPolicy (Some s) p"
  by (simp add: sorted_ExcludedClustersForPolicy distinct_ExcludedClustersForPolicy
      set_ExcludedClustersForPolicy buildPolicyExclusionsStatus_eq comp_def)

text \<open>The remaining bindings of a cluster: when some policy set path excludes the cluster, the
  sorted bindings that decide it and are not themselves such a path; otherwise none.\<close>

theorem remaining_bindings_exact:
  assumes "wf_decisions d" and "\<not> ps_Disabled (p_Spec root)"
  shows "map rb_PlacementBinding (bindings_of (computeRemainingBindings root pls d) cl) =
    (if \<exists>pl \<in> set pls. excludes pl cl
     then sort (filter (\<lambda>b. \<forall>pl \<in> set pls. excludes pl cl \<longrightarrow> pl_PlacementBinding pl \<noteq> b)
                 (bindings_of d cl))
     else [])"
proof -
  have "(\<lambda>b. \<not> (\<exists>pl \<in> set pls. excludes pl cl \<and> pl_PlacementBinding pl = b)) =
      (\<lambda>b. \<forall>pl \<in> set pls. excludes pl cl \<longrightarrow> pl_PlacementBinding pl \<noteq> b)"
    by auto
  with computeRemainingBindings_lookup [OF assms, of pls cl] show ?thesis
    by (simp add: comp_def)
qed

theorem remaining_bindings_exact_witness:
  "map rb_PlacementBinding (bindings_of (computeRemainingBindings ex_root
      [\<lparr>pl_PlacementBinding = ''bs'', pl_PlacementRule = [], pl_Placement = ''pl'', pl_PolicySet = ''s'',
        pl_Exclusions = [\<lparr>px_ClusterName = ''c2''\<rparr>]\<rparr>]
      [(''c2'', [''b'', ''bs''])]) ''c2'') = [''b'']"
  using remaining_bindings_exact [of "[(''c2'', [''b'', ''bs''])]" ex_root
      "[\<lparr>pl_PlacementBinding = ''bs'', pl_PlacementRule = [], pl_Placement = ''pl'', pl_PolicySet = ''s'',
        pl_Exclusions = [\<lparr>px_ClusterName = ''c2''\<rparr>]\<rparr>]" "''c2''"]
  by (simp add: ex_objects wf_decisions_def excludes_def bindings_of_def)

end
