(* ===== verification/Root_Status.thy ===== *)
theory Root_Status
  imports Set_Exclusions
begin

text \<open>
  \<^verbatim>\<open>controllers/common/common_status_update.go\<close>: the placements and decisions of a root
  policy, the compliance per cluster, the compliance of the whole policy, and the status update
  that both root controllers share. \<open>compliance_rollup\<close> is the contract of a function that
  combines compliance states; the root policy's and the policy set's functions implement it.
\<close>

section \<open>Placements and decisions of one binding\<close>

text \<open>
  The subject loop carries \<^verbatim>\<open>policySubjectFound\<close>, the keys of
  \<^verbatim>\<open>policySetSubjects\<close> and the placements.
\<close>

definition placement_for :: "string \<Rightarrow> string \<Rightarrow> PolicyExclusion list \<Rightarrow> Placement" where
  "placement_for binding policySet exclusions =
     \<lparr>pl_PlacementBinding = binding, pl_PlacementRule = [], pl_Placement = [],
      pl_PolicySet = policySet, pl_Exclusions = exclusions\<rparr>"

definition subject_placements ::
  "client_reader \<Rightarrow> Policy \<Rightarrow> PlacementBinding \<Rightarrow> Subject \<Rightarrow>
   bool \<times> string list \<times> Placement list \<Rightarrow> goerr + bool \<times> string list \<times> Placement list" where
  "subject_placements c inst pb subject st =
     (case st of (policySubjectFound, policySetSubjects, placements) \<Rightarrow>
      if sub_APIGroup subject \<noteq> SchemeGroup then Inr st
      else if sub_Kind subject = PolicyKind then
        (if \<not> policySubjectFound \<and> sub_Name subject = p_Name inst
         then Inr (True, policySetSubjects, placements @ [placement_for (pb_Name pb) [] []])
         else Inr st)
      else if sub_Kind subject = PolicySetKind then
        (if sub_Name subject \<in> set policySetSubjects then Inr st
         else case GetPolicySet c (pb_Namespace pb) (sub_Name subject) of
                Inl e \<Rightarrow> Inl e
              | Inr policySet \<Rightarrow>
                  Inr (policySubjectFound, policySetSubjects @ [sub_Name subject],
                    if IsPolicyInPolicySet policySet (p_Name inst)
                    then placements @
                      [placement_for (pb_Name pb) (sub_Name subject)
                         (buildPolicyExclusionsStatus policySet (p_Name inst))]
                    else placements))
      else Inr st)"

text \<open>The switch that adds the placement resource's name to every placement.\<close>

definition name_placements ::
  "client_reader \<Rightarrow> PlacementBinding \<Rightarrow> Placement list \<Rightarrow> goerr + Placement list" where
  "name_placements c pb placements =
     (let ref = pb_PlacementRef pb; refNN = nn (pb_Namespace pb) (ref_Name ref) in
      if ref_Kind ref = PlacementRule_kind then
        (case Get_PlacementRule c refNN of
           Inl e \<Rightarrow> if \<not> IsNotFound e
                   then Inl (Wrapped (''failed to check for PlacementRule '' @ ref_Name ref) e)
                   else Inr (map (\<lambda>p. p\<lparr>pl_PlacementRule := plr_Name PlacementRuleObj_zero\<rparr>) placements)
         | Inr plr \<Rightarrow> Inr (map (\<lambda>p. p\<lparr>pl_PlacementRule := plr_Name plr\<rparr>) placements))
      else if ref_Kind ref = Placement_kind then
        (case Get_Placement c refNN of
           Inl e \<Rightarrow> if \<not> IsNotFound e
                   then Inl (Wrapped (''failed to check for Placement '' @ ref_Name ref) e)
                   else Inr (map (\<lambda>p. p\<lparr>pl_Placement := plo_Name PlacementObj_zero\<rparr>) placements)
         | Inr pl \<Rightarrow> Inr (map (\<lambda>p. p\<lparr>pl_Placement := plo_Name pl\<rparr>) placements))
      else Inr placements)"

definition GetPolicyPlacementDecisions ::
  "client_reader \<Rightarrow> Policy \<Rightarrow> PlacementBinding \<Rightarrow> goerr + string list \<times> Placement list" where
  "GetPolicyPlacementDecisions c inst pb =
     (case foldE (subject_placements c inst pb) (pb_Subjects pb) (False, [], []) of
        Inl e \<Rightarrow> Inl e
      | Inr (_, _, placements) \<Rightarrow>
          if placements = [] then Inr ([], [])
          else if \<not> HasValidPlacementRef pb then Inr ([], [])
          else case name_placements c pb placements of
                 Inl e \<Rightarrow> Inl e
               | Inr placements \<Rightarrow>
                   if placements = [] then Inr ([], [])
                   else if ps_Disabled (p_Spec inst) then Inr ([], placements)
                   else case GetDecisions c pb of
                          Inl e \<Rightarrow> Inl e
                        | Inr clusterDecisions \<Rightarrow> Inr (clusterDecisions, placements))"

section \<open>Placements and decisions of a root policy\<close>

definition gather_unrestricted ::
  "client_reader \<Rightarrow> Policy \<Rightarrow> PlacementBinding \<Rightarrow>
   Placement list \<times> DecisionSet \<Rightarrow> goerr + Placement list \<times> DecisionSet" where
  "gather_unrestricted c rootPolicy pb st =
     (case st of (placements, decisions) \<Rightarrow>
      if pb_SubFilter pb = Restricted then Inr st
      else case GetPolicyPlacementDecisions c rootPolicy pb of
             Inl e \<Rightarrow> Inl e
           | Inr (plcDecisions, plcPlacements) \<Rightarrow>
               Inr (placements @ plcPlacements,
                    fold (\<lambda>clusterName. addBinding clusterName (pb_Name pb)) plcDecisions decisions))"

text \<open>
  The loop over the decisions of a restricted binding: \<^verbatim>\<open>foundInDecisions\<close> and the map,
  which the loop extends as it goes.
\<close>

definition note_restricted ::
  "string \<Rightarrow> string \<Rightarrow> bool \<times> DecisionSet \<Rightarrow> bool \<times> DecisionSet" where
  "note_restricted bindingName clusterName st =
     (case st of (foundInDecisions, decisions) \<Rightarrow>
      (foundInDecisions \<or> 0 < length (bindings_of decisions clusterName),
       addBinding clusterName bindingName decisions))"

definition gather_restricted ::
  "client_reader \<Rightarrow> Policy \<Rightarrow> PlacementBinding \<Rightarrow>
   Placement list \<times> DecisionSet \<Rightarrow> goerr + Placement list \<times> DecisionSet" where
  "gather_restricted c rootPolicy pb st =
     (case st of (placements, decisions) \<Rightarrow>
      if pb_SubFilter pb \<noteq> Restricted then Inr st
      else case GetPolicyPlacementDecisions c rootPolicy pb of
             Inl e \<Rightarrow> Inl e
           | Inr (plcDecisions, plcPlacements) \<Rightarrow>
               (case fold (note_restricted (pb_Name pb)) plcDecisions (False, decisions) of
                  (foundInDecisions, decisions) \<Rightarrow>
                    Inr (if foundInDecisions then placements @ plcPlacements else placements,
                         decisions)))"

definition placement_key :: "Placement \<Rightarrow> string" where
  "placement_key p =
     pl_PlacementBinding p @ '' '' @ pl_Placement p @ '' '' @ pl_PlacementRule p @ '' '' @ pl_PolicySet p"

definition GetClusterDecisions ::
  "client_reader \<Rightarrow> Policy \<Rightarrow> goerr + Placement list \<times> DecisionSet" where
  "GetClusterDecisions c rootPolicy =
     (case List_PlacementBindings c [InNamespace (p_Namespace rootPolicy)] of
        Inl e \<Rightarrow> Inl e
      | Inr pbs \<Rightarrow>
          (case foldE (gather_unrestricted c rootPolicy) pbs ([], []) of
             Inl e \<Rightarrow> Inl e
           | Inr st \<Rightarrow>
               (case foldE (gather_restricted c rootPolicy) pbs st of
                  Inl e \<Rightarrow> Inl e
                | Inr (placements, decisions) \<Rightarrow>
                    Inr (sort_key placement_key placements, sortDecisionSet decisions))))"

section \<open>Compliance\<close>

text \<open>One turn of the loop over the decisions: the cluster's status and the lookup error, if any.\<close>

definition cluster_status ::
  "client_reader \<Rightarrow> Policy \<Rightarrow> (string \<times> RemainingBinding list) list \<Rightarrow> string \<Rightarrow>
   CompliancePerClusterStatus \<times> goerr option" where
  "cluster_status c rootPolicy remainingBindings clusterName =
     (let clusterStatus =
            \<lparr>cs_ComplianceState = [], cs_ClusterName = clusterName, cs_ClusterNamespace = clusterName,
             cs_RemainingBindings = bindings_of remainingBindings clusterName\<rparr>
      in case Get_Policy c (nn clusterName (p_Namespace rootPolicy @ ''.'' @ p_Name rootPolicy)) of
           Inl e \<Rightarrow>
             if IsNotFound e then (clusterStatus, None)
             else (clusterStatus\<lparr>cs_ComplianceState := st_ComplianceState (p_Status Policy_zero)\<rparr>, Some e)
         | Inr replicatedPolicy \<Rightarrow>
             (clusterStatus\<lparr>cs_ComplianceState := st_ComplianceState (p_Status replicatedPolicy)\<rparr>, None))"

definition CalculatePerClusterStatus ::
  "client_reader \<Rightarrow> Policy \<Rightarrow> Placement list \<Rightarrow> DecisionSet \<Rightarrow>
   CompliancePerClusterStatus slice \<times> goerr option" where
  "CalculatePerClusterStatus c rootPolicy placements decisions =
     (if ps_Disabled (p_Spec rootPolicy) then (None, None)
      else
        let remainingBindings = computeRemainingBindings rootPolicy placements decisions;
            results = map (\<lambda>(clusterName, _). cluster_status c rootPolicy remainingBindings clusterName) decisions;
            lookupErr = fold (\<lambda>(_, e) acc. case e of None \<Rightarrow> acc | Some e \<Rightarrow> Some e) results None
        in (Some (sort_key cs_ClusterName (map fst results)), lookupErr))"

fun root_compliance_loop ::
  "CompliancePerClusterStatus list \<Rightarrow> bool \<Rightarrow> bool \<Rightarrow> ComplianceState" where
  "root_compliance_loop [] unknownFound pendingFound =
     (if pendingFound then Pending else if unknownFound then [] else Compliant)"
| "root_compliance_loop (status # rest) unknownFound pendingFound =
     (if cs_ComplianceState status = NonCompliant then NonCompliant
      else if cs_ComplianceState status = Pending then root_compliance_loop rest unknownFound True
      else if cs_ComplianceState status = Compliant then root_compliance_loop rest unknownFound pendingFound
      else root_compliance_loop rest True pendingFound)"

definition CalculateRootCompliance :: "CompliancePerClusterStatus list \<Rightarrow> ComplianceState" where
  "CalculateRootCompliance clusters =
     (if clusters = [] then [] else root_compliance_loop clusters False False)"

section \<open>The status update\<close>

text \<open>
  The result, the policy behind the caller's pointer (refreshed from the cache, with the new
  status when one was written) and the next state. \<^verbatim>\<open>reflect.DeepEqual\<close> tells a nil slice
  from an empty one; the placements are never nil here.
\<close>

definition RootStatusUpdate ::
  "'k api \<Rightarrow> Policy \<Rightarrow> 'k \<Rightarrow> (goerr + DecisionSet) \<times> Policy \<times> 'k" where
  "RootStatusUpdate a rootPolicy k =
     (let c = api_read a k in
      case GetClusterDecisions c rootPolicy of
        Inl e \<Rightarrow> (Inl e, rootPolicy, k)
      | Inr (placements, decisions) \<Rightarrow>
          let cpcs = fst (CalculatePerClusterStatus c rootPolicy placements decisions);
              rootPolicy = (case Get_Policy c (nn (p_Namespace rootPolicy) (p_Name rootPolicy)) of
                              Inl _ \<Rightarrow> rootPolicy | Inr p \<Rightarrow> p);
              complianceState = CalculateRootCompliance (items cpcs);
              status = p_Status rootPolicy
          in if st_Status status = cpcs \<and> st_ComplianceState status = complianceState \<and>
                st_Placement status = Some placements
             then (Inr decisions, rootPolicy, k)
             else
               let rootPolicy = rootPolicy\<lparr>p_Status := status\<lparr>st_Status := cpcs,
                     st_ComplianceState := complianceState, st_Placement := Some placements\<rparr>\<rparr>
               in case UpdateStatus_Policy a rootPolicy k of
                    (Some e, k') \<Rightarrow> (Inl e, rootPolicy, k')
                  | (None, k') \<Rightarrow> (Inr decisions, rootPolicy, k'))"

section \<open>Compliance roll-ups\<close>

text \<open>
  A function that combines compliance states: NonCompliant wins, then Pending, and Compliant needs
  at least one compliant state.
\<close>

locale compliance_rollup =
  fixes agg :: "'a list \<Rightarrow> ComplianceState"
    and state :: "'a \<Rightarrow> ComplianceState"
  assumes agg_NonCompliant: "agg xs = NonCompliant \<longleftrightarrow> (\<exists>x \<in> set xs. state x = NonCompliant)"
    and agg_Pending: "agg xs = Pending \<longleftrightarrow>
          (\<forall>x \<in> set xs. state x \<noteq> NonCompliant) \<and> (\<exists>x \<in> set xs. state x = Pending)"
    and agg_Compliant: "agg xs = Compliant \<Longrightarrow> \<exists>x \<in> set xs. state x = Compliant"
    and agg_range: "agg xs \<in> {NonCompliant, Pending, Compliant, []}"
begin

lemma agg_Compliant_no_worse:
  "agg xs = Compliant \<Longrightarrow> x \<in> set xs \<Longrightarrow> state x \<noteq> NonCompliant \<and> state x \<noteq> Pending"
  using agg_NonCompliant [of xs] agg_Pending [of xs]
  by (metis compliance_distinct(1,3))

lemma agg_append_NonCompliant:
  "agg (xs @ ys) = NonCompliant \<longleftrightarrow> agg xs = NonCompliant \<or> agg ys = NonCompliant"
  by (auto simp: agg_NonCompliant)

lemma agg_append_Pending:
  "agg (xs @ ys) = Pending \<longleftrightarrow>
     agg xs \<noteq> NonCompliant \<and> agg ys \<noteq> NonCompliant \<and> (agg xs = Pending \<or> agg ys = Pending)"
  by (auto simp: agg_NonCompliant agg_Pending)

lemma agg_same_set:
  "set xs = set ys \<Longrightarrow> agg xs = NonCompliant \<longleftrightarrow> agg ys = NonCompliant"
  "set xs = set ys \<Longrightarrow> agg xs = Pending \<longleftrightarrow> agg ys = Pending"
  by (simp_all add: agg_NonCompliant agg_Pending)

lemma agg_Nil: "agg [] = []"
  using agg_range [of "[]"] agg_NonCompliant [of "[]"] agg_Pending [of "[]"] agg_Compliant [of "[]"]
  by auto

end

lemma root_compliance_loop_eq:
  "root_compliance_loop xs u p =
     (if \<exists>x \<in> set xs. cs_ComplianceState x = NonCompliant then NonCompliant
      else if p \<or> (\<exists>x \<in> set xs. cs_ComplianceState x = Pending) then Pending
      else if u \<or> (\<exists>x \<in> set xs. cs_ComplianceState x \<noteq> Compliant) then []
      else Compliant)"
  by (induction xs u p rule: root_compliance_loop.induct) auto

lemma CalculateRootCompliance_eq:
  "CalculateRootCompliance xs =
     (if xs = [] then []
      else if \<exists>x \<in> set xs. cs_ComplianceState x = NonCompliant then NonCompliant
      else if \<exists>x \<in> set xs. cs_ComplianceState x = Pending then Pending
      else if \<exists>x \<in> set xs. cs_ComplianceState x \<noteq> Compliant then []
      else Compliant)"
  by (simp add: CalculateRootCompliance_def root_compliance_loop_eq)

interpretation root_rollup: compliance_rollup CalculateRootCompliance cs_ComplianceState
proof
  fix xs
  show "CalculateRootCompliance xs = NonCompliant \<longleftrightarrow> (\<exists>x \<in> set xs. cs_ComplianceState x = NonCompliant)"
    by (auto simp: CalculateRootCompliance_eq split: if_splits)
  show "CalculateRootCompliance xs = Pending \<longleftrightarrow>
      (\<forall>x \<in> set xs. cs_ComplianceState x \<noteq> NonCompliant) \<and> (\<exists>x \<in> set xs. cs_ComplianceState x = Pending)"
    by (auto simp: CalculateRootCompliance_eq split: if_splits)
  show "CalculateRootCompliance xs \<in> {NonCompliant, Pending, Compliant, []}"
    by (simp add: CalculateRootCompliance_eq)
  show "\<exists>x \<in> set xs. cs_ComplianceState x = Compliant" if "CalculateRootCompliance xs = Compliant"
    using that by (cases xs) (auto simp: CalculateRootCompliance_eq split: if_splits)
qed

section \<open>One binding\<close>

definition policy_decisions :: "client_reader \<Rightarrow> Policy \<Rightarrow> PlacementBinding \<Rightarrow> string list" where
  "policy_decisions c root pb =
     (case GetPolicyPlacementDecisions c root pb of Inl _ \<Rightarrow> [] | Inr (ds, _) \<Rightarrow> ds)"

definition policy_placements :: "client_reader \<Rightarrow> Policy \<Rightarrow> PlacementBinding \<Rightarrow> Placement list" where
  "policy_placements c root pb =
     (case GetPolicyPlacementDecisions c root pb of Inl _ \<Rightarrow> [] | Inr (_, pls) \<Rightarrow> pls)"

lemma policy_decisions_GetDecisions:
  assumes "cl \<in> set (policy_decisions c root pb)"
  shows "HasValidPlacementRef pb \<and> \<not> ps_Disabled (p_Spec root) \<and>
         (\<exists>ds. GetDecisions c pb = Inr ds \<and> cl \<in> set ds)"
  using assms
  by (auto simp: policy_decisions_def GetPolicyPlacementDecisions_def split: sum.splits if_splits)

lemma policy_decisions_Disabled: "ps_Disabled (p_Spec root) \<Longrightarrow> policy_decisions c root pb = []"
  using policy_decisions_GetDecisions by (metis list.set_intros(1) neq_Nil_conv)

text \<open>The subject loop: which placements it adds.\<close>

lemma foldE_subject_placements_binding:
  assumes "foldE (subject_placements c inst pb) ss st = Inr (f, sets, pls)"
    and "\<forall>pl \<in> set (snd (snd st)). pl_PlacementBinding pl = pb_Name pb"
  shows "\<forall>pl \<in> set pls. pl_PlacementBinding pl = pb_Name pb"
proof -
  have "(\<lambda>st. \<forall>pl \<in> set (snd (snd st)). pl_PlacementBinding pl = pb_Name pb) (f, sets, pls)"
    by (rule foldE_invariant [OF assms(1)])
       (use assms(2) in \<open>auto simp: subject_placements_def placement_for_def split: if_splits sum.splits\<close>)
  then show ?thesis by simp
qed

lemma policy_placements_binding:
  "pl \<in> set (policy_placements c root pb) \<Longrightarrow> pl_PlacementBinding pl = pb_Name pb"
  by (auto simp: policy_placements_def GetPolicyPlacementDecisions_def name_placements_def Let_def
      dest!: foldE_subject_placements_binding split: sum.splits if_splits)

section \<open>All bindings\<close>

lemma gather_unrestricted_step:
  "gather_unrestricted c root pb (pls, d) = Inr st \<Longrightarrow>
     st = (if pb_SubFilter pb = Restricted then (pls, d)
           else (pls @ policy_placements c root pb,
                 fold (\<lambda>cl. addBinding cl (pb_Name pb)) (policy_decisions c root pb) d))"
  by (auto simp: gather_unrestricted_def policy_decisions_def policy_placements_def
      split: if_splits sum.splits)

lemma gather_unrestricted_result:
  assumes "foldE (gather_unrestricted c root) pbs (pls0, d0) = Inr (pls, d)" and "wf_decisions d0"
  shows "wf_decisions d \<and>
    pls = pls0 @ concat (map (policy_placements c root)
            (filter (\<lambda>pb. pb_SubFilter pb \<noteq> Restricted) pbs)) \<and>
    (\<forall>cl. set (bindings_of d cl) = set (bindings_of d0 cl) \<union>
       {pb_Name pb | pb. pb \<in> set pbs \<and> pb_SubFilter pb \<noteq> Restricted \<and>
          cl \<in> set (policy_decisions c root pb)})"
  using assms
proof (induction pbs arbitrary: pls0 d0)
  case Nil
  then show ?case by simp
next
  case (Cons pb pbs)
  from Cons.prems(1) obtain pls1 d1 where
    one: "gather_unrestricted c root pb (pls0, d0) = Inr (pls1, d1)" and
    rest: "foldE (gather_unrestricted c root) pbs (pls1, d1) = Inr (pls, d)"
    by (auto split: sum.splits)
  from gather_unrestricted_step [OF one] Cons.prems(2) have "wf_decisions d1"
    by (auto simp: fold_addBinding split: if_splits)
  from Cons.IH [OF rest this] gather_unrestricted_step [OF one] Cons.prems(2) show ?case
    by (auto simp: fold_addBinding split: if_splits)
qed

lemma fold_note_restricted_snd:
  "snd (fold (note_restricted b) cls (f, d)) = fold (\<lambda>cl. addBinding cl b) cls d"
  by (induction cls arbitrary: f d) (auto simp: note_restricted_def)

lemma fold_note_restricted_fst:
  assumes "wf_decisions d"
  shows "fst (fold (note_restricted b) cls (f, d)) \<longleftrightarrow>
           f \<or> (\<exists>cl \<in> set cls. cl \<in> decided d) \<or> \<not> distinct cls"
  using assms
proof (induction cls arbitrary: f d)
  case Nil
  then show ?case by simp
next
  case (Cons cl cls)
  have "fst (fold (note_restricted b) cls (f \<or> cl \<in> decided d, addBinding cl b d)) \<longleftrightarrow>
      (f \<or> cl \<in> decided d) \<or> (\<exists>x \<in> set cls. x \<in> insert cl (decided d)) \<or> \<not> distinct cls"
    using Cons.IH [OF wf_addBinding [OF Cons.prems]] by (simp add: decided_addBinding [OF Cons.prems])
  moreover have "0 < length (bindings_of d cl) \<longleftrightarrow> cl \<in> decided d"
    using wf_bindings_of [OF Cons.prems, of cl] by simp
  moreover have "note_restricted b cl (f, d) = (f \<or> 0 < length (bindings_of d cl), addBinding cl b d)"
    by (simp add: note_restricted_def)
  ultimately show ?case by (auto simp del: length_greater_0_conv)
qed

lemma gather_restricted_step:
  assumes "gather_restricted c root pb (pls, d) = Inr (pls', d')"
  shows "d' = (if pb_SubFilter pb = Restricted
               then fold (\<lambda>cl. addBinding cl (pb_Name pb)) (policy_decisions c root pb) d else d)"
    and "wf_decisions d \<Longrightarrow>
         pls' = (if pb_SubFilter pb = Restricted \<and>
                    ((\<exists>cl \<in> set (policy_decisions c root pb). cl \<in> decided d) \<or>
                     \<not> distinct (policy_decisions c root pb))
                 then pls @ policy_placements c root pb else pls)"
  using assms fold_note_restricted_snd [of "pb_Name pb" "policy_decisions c root pb" False d]
    fold_note_restricted_fst [of d "pb_Name pb" "policy_decisions c root pb" False]
  by (auto simp: gather_restricted_def policy_decisions_def policy_placements_def
      split: if_splits sum.splits prod.splits)

lemma gather_restricted_result:
  assumes "foldE (gather_restricted c root) pbs (pls0, d0) = Inr (pls, d)" and "wf_decisions d0"
  shows "wf_decisions d \<and> set pls0 \<subseteq> set pls \<and>
    set pls \<subseteq> set pls0 \<union> \<Union> (set ` policy_placements c root ` {pb \<in> set pbs. pb_SubFilter pb = Restricted}) \<and>
    (\<forall>cl. set (bindings_of d cl) = set (bindings_of d0 cl) \<union>
       {pb_Name pb | pb. pb \<in> set pbs \<and> pb_SubFilter pb = Restricted \<and>
          cl \<in> set (policy_decisions c root pb)})"
  using assms
proof (induction pbs arbitrary: pls0 d0)
  case Nil
  then show ?case by simp
next
  case (Cons pb pbs)
  from Cons.prems(1) obtain pls1 d1 where
    one: "gather_restricted c root pb (pls0, d0) = Inr (pls1, d1)" and
    rest: "foldE (gather_restricted c root) pbs (pls1, d1) = Inr (pls, d)"
    by (auto split: sum.splits)
  note d1 = gather_restricted_step(1) [OF one] and pls1 = gather_restricted_step(2) [OF one Cons.prems(2)]
  from d1 Cons.prems(2) have "wf_decisions d1" by (auto simp: fold_addBinding split: if_splits)
  from Cons.IH [OF rest this] d1 pls1 Cons.prems(2) show ?case
    by (auto simp: fold_addBinding split: if_splits)
qed

text \<open>
  The decision set of a root policy: every cluster that some binding decides, with the sorted names
  of the bindings that decide it.
\<close>

lemma GetClusterDecisions_result:
  assumes "GetClusterDecisions c root = Inr (pls, d)"
    and "List_PlacementBindings c [InNamespace (p_Namespace root)] = Inr pbs"
  shows "wf_decisions d"
    and "set (bindings_of d cl) = {pb_Name pb | pb. pb \<in> set pbs \<and> cl \<in> set (policy_decisions c root pb)}"
    and "cl \<in> decided d \<longleftrightarrow> (\<exists>pb \<in> set pbs. cl \<in> set (policy_decisions c root pb))"
    and "sorted (bindings_of d cl)"
    and "sorted (map placement_key pls)"
    and "pb \<in> set pbs \<Longrightarrow> pb_SubFilter pb \<noteq> Restricted \<Longrightarrow> set (policy_placements c root pb) \<subseteq> set pls"
proof -
  from assms obtain pls1 d1 pls2 d2 where
    one: "foldE (gather_unrestricted c root) pbs ([], []) = Inr (pls1, d1)" and
    two: "foldE (gather_restricted c root) pbs (pls1, d1) = Inr (pls2, d2)" and
    pls: "pls = sort_key placement_key pls2" and d: "d = sortDecisionSet d2"
    by (auto simp: GetClusterDecisions_def split: sum.splits)
  note r1 = gather_unrestricted_result [OF one wf_decisions_Nil]
  then have "wf_decisions d1" by simp
  note r2 = gather_restricted_result [OF two this]
  then show wf: "wf_decisions d" by (simp add: d wf_sortDecisionSet)
  from r1 r2 show bs: "set (bindings_of d cl) =
      {pb_Name pb | pb. pb \<in> set pbs \<and> cl \<in> set (policy_decisions c root pb)}"
    by (auto simp: d bindings_of_sortDecisionSet)
  from wf_bindings_of [OF wf, of cl] bs show "cl \<in> decided d \<longleftrightarrow>
      (\<exists>pb \<in> set pbs. cl \<in> set (policy_decisions c root pb))"
    by (auto simp flip: set_empty)
  show "sorted (bindings_of d cl)" by (simp add: d bindings_of_sortDecisionSet)
  show "sorted (map placement_key pls)" by (simp add: pls)
  from r1 r2 show "set (policy_placements c root pb) \<subseteq> set pls"
    if "pb \<in> set pbs" "pb_SubFilter pb \<noteq> Restricted"
    using that by (auto simp: pls)
qed

section \<open>Status of every cluster\<close>

lemma cs_ClusterName_cluster_status [simp]:
  "cs_ClusterName (fst (cluster_status c root rem cl)) = cl"
  by (simp add: cluster_status_def Let_def split: sum.splits)

text \<open>The compliance state a cluster reports: empty unless its replicated policy was read.\<close>

definition reported_state :: "client_reader \<Rightarrow> Policy \<Rightarrow> string \<Rightarrow> ComplianceState" where
  "reported_state c root cl =
     (case Get_Policy c (nn cl (FullNameForPolicy root)) of
        Inl _ \<Rightarrow> [] | Inr p \<Rightarrow> st_ComplianceState (p_Status p))"

lemma cluster_status_fields:
  "cs_ComplianceState (fst (cluster_status c root rem cl)) = reported_state c root cl"
  "cs_ClusterNamespace (fst (cluster_status c root rem cl)) = cl"
  "cs_RemainingBindings (fst (cluster_status c root rem cl)) = bindings_of rem cl"
  by (simp_all add: cluster_status_def reported_state_def FullNameForPolicy_def Let_def
      Policy_zero_def PolicyStatus_zero_def split: sum.splits)

lemma CalculatePerClusterStatus_result:
  assumes "\<not> ps_Disabled (p_Spec root)" and "wf_decisions d"
    and "CalculatePerClusterStatus c root pls d = (cpcs, err)"
  shows "\<exists>ss. cpcs = Some ss \<and> sorted (map cs_ClusterName ss) \<and> distinct (map cs_ClusterName ss) \<and>
           set ss = (\<lambda>cl. fst (cluster_status c root (computeRemainingBindings root pls d) cl)) ` decided d"
proof -
  let ?f = "\<lambda>cl. fst (cluster_status c root (computeRemainingBindings root pls d) cl)"
  let ?ss = "map (\<lambda>(cl, _). ?f cl) d"
  from assms(1,3) have "cpcs = Some (sort_key cs_ClusterName ?ss)"
    by (auto simp: CalculatePerClusterStatus_def Let_def comp_def split_def)
  moreover have names: "map cs_ClusterName ?ss = map fst d"
    by (simp add: comp_def split_def)
  moreover have "distinct (map cs_ClusterName (sort_key cs_ClusterName ?ss))"
  proof -
    have "mset (map cs_ClusterName (sort_key cs_ClusterName ?ss)) = mset (map fst d)"
      unfolding names [symmetric] by (simp only: mset_map mset_sort)
    moreover have "distinct (map fst d)" using assms(2) by (simp add: wf_decisions_def)
    ultimately show ?thesis by (metis mset_eq_imp_distinct_iff)
  qed
  ultimately show ?thesis by (auto simp: decided_def split_def)
qed

text \<open>The decisions depend on the name, namespace and the disabled flag of the root policy and not on the
  policies the client returns; the status per cluster does not look at the root policy.\<close>

lemma GetClusterDecisions_reads:
  assumes "p_Name root' = p_Name root" "p_Namespace root' = p_Namespace root"
    and "ps_Disabled (p_Spec root') = ps_Disabled (p_Spec root)"
  shows "GetClusterDecisions (c\<lparr>Get_Policy := f\<rparr>) root' = GetClusterDecisions c root"
proof -
  have "GetPolicySet (c\<lparr>Get_Policy := f\<rparr>) = GetPolicySet c" by (intro ext) (simp add: GetPolicySet_def)
  then have s: "subject_placements (c\<lparr>Get_Policy := f\<rparr>) root' pb = subject_placements c root pb" for pb
    by (intro ext) (simp only: subject_placements_def assms)
  have nd: "name_placements (c\<lparr>Get_Policy := f\<rparr>) = name_placements c" "GetDecisions (c\<lparr>Get_Policy := f\<rparr>) = GetDecisions c"
    by (intro ext; simp add: name_placements_def GetDecisions_def Let_def split: sum.splits)+
  have p: "GetPolicyPlacementDecisions (c\<lparr>Get_Policy := f\<rparr>) root' pb = GetPolicyPlacementDecisions c root pb" for pb
    by (simp only: GetPolicyPlacementDecisions_def s nd assms)
  have "gather_unrestricted (c\<lparr>Get_Policy := f\<rparr>) root' = gather_unrestricted c root"
    "gather_restricted (c\<lparr>Get_Policy := f\<rparr>) root' = gather_restricted c root"
    by (intro ext; simp only: gather_unrestricted_def gather_restricted_def p)+
  moreover have "List_PlacementBindings (c\<lparr>Get_Policy := f\<rparr>) = List_PlacementBindings c" by simp
  ultimately show ?thesis by (simp only: GetClusterDecisions_def assms)
qed

lemma CalculatePerClusterStatus_reads:
  assumes "p_Name root' = p_Name root" "p_Namespace root' = p_Namespace root"
    and "ps_Disabled (p_Spec root') = ps_Disabled (p_Spec root)"
  shows "CalculatePerClusterStatus (c\<lparr>Get_Policy := (Get_Policy c)(nn (p_Namespace root) (p_Name root) := r)\<rparr>) root' pls d =
    CalculatePerClusterStatus c root pls d"
proof -
  have other: "nn cl (p_Namespace root @ ''.'' @ p_Name root) \<noteq> nn (p_Namespace root) (p_Name root)" for cl
    by (metis NamespacedName.select_convs(2) append_assoc append_self_conv2 append_is_Nil_conv list.distinct(1))
  have s: "cluster_status (c\<lparr>Get_Policy := (Get_Policy c)(nn (p_Namespace root) (p_Name root) := r)\<rparr>) root' rem cl =
      cluster_status c root rem cl" for rem cl
    using other [of cl] by (simp add: cluster_status_def assms)
  have "computeRemainingBindings root' pls d = computeRemainingBindings root pls d"
    by (simp add: computeRemainingBindings_def assms)
  then show ?thesis by (simp add: CalculatePerClusterStatus_def s assms)
qed

text \<open>A client on which a status update can be read back.\<close>

definition ex_status_api :: "client_reader \<Rightarrow> ex_write list api" where
  "ex_status_api c = (ex_api c)\<lparr>api_read := \<lambda>k. fold (\<lambda>w c. case w of
       StatusUpdated p \<Rightarrow> c\<lparr>Get_Policy := (Get_Policy c)(nn (p_Namespace p) (p_Name p) := Inr p)\<rparr>
     | _ \<Rightarrow> c) k c\<rparr>"

section \<open>Properties\<close>

text \<open>C8. The decision set of a root policy: its clusters are exactly those that the decisions of some
  binding of the namespace contain, restricted bindings included, and each cluster carries the sorted
  names of exactly those bindings, none twice.\<close>

theorem decision_set_exact:
  assumes "GetClusterDecisions c root = Inr (pls, d)"
    and "List_PlacementBindings c [InNamespace (p_Namespace root)] = Inr pbs"
  shows "distinct (map fst d) \<and>
    (cl \<in> decided d \<longleftrightarrow> (\<exists>pb \<in> set pbs. cl \<in> set (policy_decisions c root pb))) \<and>
    set (bindings_of d cl) = {pb_Name pb | pb. pb \<in> set pbs \<and> cl \<in> set (policy_decisions c root pb)} \<and>
    sorted (bindings_of d cl) \<and> distinct (bindings_of d cl)"
  using GetClusterDecisions_result(1) [OF assms] GetClusterDecisions_result(2-4) [OF assms, of cl]
    wf_bindings_of [of d cl]
  by (auto simp: wf_decisions_def)

theorem decision_set_exact_witness:
  "\<exists>pls d. GetClusterDecisions ex_reader ex_root = Inr (pls, d) \<and> ''c1'' \<in> decided d"
proof -
  have l: "List_PlacementBindings ex_reader [InNamespace (p_Namespace ex_root)] = Inr [ex_pb, ex_set_pb]"
    by (simp add: ex_reader_def)
  obtain pls d where g: "GetClusterDecisions ex_reader ex_root = Inr (pls, d)"
    by (simp add: GetClusterDecisions_def gather_unrestricted_def gather_restricted_def
        GetPolicyPlacementDecisions_def subject_placements_def name_placements_def GetDecisions_def
        HasValidPlacementRef_def GetPolicySet_def IsPolicyInPolicySet_def ex_reader_def ex_objects Let_def)
  have "''c1'' \<in> set (policy_decisions ex_reader ex_root ex_pb)"
    by (simp add: policy_decisions_def GetPolicyPlacementDecisions_def subject_placements_def
        name_placements_def GetDecisions_def HasValidPlacementRef_def ex_reader_def ex_objects Let_def)
  with decision_set_exact [OF g l, of "''c1''"] g show ?thesis by auto
qed

text \<open>The compliance of a root policy: NonCompliant when some cluster is, otherwise Pending when
  some cluster is, otherwise empty when some cluster has another state or there is no cluster, and
  Compliant when every cluster is. It implements the roll-up contract.\<close>

theorem root_compliance_rollup:
  "CalculateRootCompliance xs =
     (if \<exists>x \<in> set xs. cs_ComplianceState x = NonCompliant then NonCompliant
      else if \<exists>x \<in> set xs. cs_ComplianceState x = Pending then Pending
      else if xs = [] \<or> (\<exists>x \<in> set xs. cs_ComplianceState x \<noteq> Compliant) then []
      else Compliant) \<and>
   (CalculateRootCompliance (xs @ ys) = NonCompliant \<longleftrightarrow>
      CalculateRootCompliance xs = NonCompliant \<or> CalculateRootCompliance ys = NonCompliant)"
  using root_rollup.agg_append_NonCompliant [of xs ys] by (auto simp: CalculateRootCompliance_eq)

text \<open>C18. The status per cluster of an enabled root policy: one entry for every decided cluster and no
  other, sorted by cluster name, with the state the replicated policy reports (empty when it cannot be
  read) and the remaining bindings of the cluster.\<close>

theorem per_cluster_status_exact:
  assumes "\<not> ps_Disabled (p_Spec root)" and "wf_decisions d"
    and "CalculatePerClusterStatus c root pls d = (cpcs, err)"
  shows "\<exists>ss. cpcs = Some ss \<and> sorted (map cs_ClusterName ss) \<and> distinct (map cs_ClusterName ss) \<and>
    cs_ClusterName ` set ss = decided d \<and>
    (\<forall>s \<in> set ss. cs_ComplianceState s = reported_state c root (cs_ClusterName s) \<and>
       cs_RemainingBindings s = bindings_of (computeRemainingBindings root pls d) (cs_ClusterName s))"
proof -
  from CalculatePerClusterStatus_result [OF assms] obtain ss where ss:
    "cpcs = Some ss" "sorted (map cs_ClusterName ss)" "distinct (map cs_ClusterName ss)"
    "set ss = (\<lambda>cl. fst (cluster_status c root (computeRemainingBindings root pls d) cl)) ` decided d"
    by blast
  moreover from ss(4) have "cs_ClusterName ` set ss = decided d" by (simp add: image_image)
  ultimately show ?thesis by (auto simp: cluster_status_fields)
qed

theorem per_cluster_status_exact_witness:
  "\<exists>ss. CalculatePerClusterStatus ex_reader ex_root [] [(''c1'', [''b''])] = (Some ss, None) \<and>
     (\<forall>s \<in> set ss. cs_ComplianceState s = NonCompliant) \<and> cs_ClusterName ` set ss = {''c1''}"
proof -
  obtain cpcs where c: "CalculatePerClusterStatus ex_reader ex_root [] [(''c1'', [''b''])] = (cpcs, None)"
    by (simp add: CalculatePerClusterStatus_def computeRemainingBindings_def cluster_status_def
        bindings_of_def ex_reader_def ex_objects Let_def)
  have "\<not> ps_Disabled (p_Spec ex_root)" "wf_decisions [(''c1'', [''b''])]"
    by (simp_all add: ex_objects wf_decisions_def)
  from per_cluster_status_exact [OF this c] obtain ss where ss: "cpcs = Some ss"
    "cs_ClusterName ` set ss = {''c1''}"
    "\<forall>s \<in> set ss. cs_ComplianceState s = reported_state ex_reader ex_root (cs_ClusterName s)"
    by (auto simp: decided_def)
  moreover have "reported_state ex_reader ex_root ''c1'' = NonCompliant"
    by (simp add: reported_state_def FullNameForPolicy_def ex_reader_def ex_objects)
  moreover from ss(2) have "cs_ClusterName s = ''c1''" if "s \<in> set ss" for s using that by blast
  ultimately show ?thesis using c by auto
qed

text \<open>The status update is idempotent: once it has succeeded and the client returns the policy as it
  was written, the next update finds the same decisions and writes nothing.\<close>

theorem status_update_idempotent:
  assumes "RootStatusUpdate a root k = (Inr d, root', k')"
    and "Get_Policy (api_read a k) (nn (p_Namespace root) (p_Name root)) = Inr root"
    and "api_read a k' = (api_read a k)\<lparr>Get_Policy :=
           (Get_Policy (api_read a k))(nn (p_Namespace root) (p_Name root) := Inr root')\<rparr>"
  shows "RootStatusUpdate a root' k' = (Inr d, root', k')"
proof -
  from assms(1) obtain pls where g: "GetClusterDecisions (api_read a k) root = Inr (pls, d)"
    by (auto simp: RootStatusUpdate_def Let_def split: sum.splits if_splits prod.splits option.splits)
  obtain cpcs err where s: "CalculatePerClusterStatus (api_read a k) root pls d = (cpcs, err)" by fastforce
  have root': "root' = root\<lparr>p_Status := (p_Status root)\<lparr>st_Status := cpcs,
      st_ComplianceState := CalculateRootCompliance (items cpcs), st_Placement := Some pls\<rparr>\<rparr>"
    using assms(1,2) g s by (auto simp: RootStatusUpdate_def Let_def split: if_splits prod.splits option.splits)
  have "GetClusterDecisions (api_read a k') root' = Inr (pls, d)"
    unfolding assms(3) using GetClusterDecisions_reads [of root' root] g by (simp add: root')
  moreover have "CalculatePerClusterStatus (api_read a k') root' pls d = (cpcs, err)"
    unfolding assms(3) using CalculatePerClusterStatus_reads [of root' root] s by (simp add: root')
  moreover have "Get_Policy (api_read a k') (nn (p_Namespace root') (p_Name root')) = Inr root'"
    unfolding assms(3) by (simp add: root')
  ultimately show ?thesis by (simp add: RootStatusUpdate_def) (simp add: root')
qed

theorem status_update_idempotent_witness:
  "\<exists>d root' k'. RootStatusUpdate (ex_status_api ex_reader) ex_root [] = (Inr d, root', k') \<and>
     k' = [StatusUpdated root'] \<and> RootStatusUpdate (ex_status_api ex_reader) root' k' = (Inr d, root', k')"
proof -
  obtain pls d where g: "GetClusterDecisions ex_reader ex_root = Inr (pls, d)"
    by (simp add: GetClusterDecisions_def gather_unrestricted_def gather_restricted_def
        GetPolicyPlacementDecisions_def subject_placements_def name_placements_def GetDecisions_def
        HasValidPlacementRef_def GetPolicySet_def IsPolicyInPolicySet_def ex_reader_def ex_objects Let_def)
  have r: "api_read (ex_status_api ex_reader) [] = ex_reader" by (simp add: ex_status_api_def)
  have p: "Get_Policy ex_reader (nn (p_Namespace ex_root) (p_Name ex_root)) = Inr ex_root"
    by (simp add: ex_reader_def ex_objects)
  define root' where "root' = ex_root\<lparr>p_Status := (p_Status ex_root)\<lparr>
      st_Status := fst (CalculatePerClusterStatus ex_reader ex_root pls d),
      st_ComplianceState := CalculateRootCompliance (items (fst (CalculatePerClusterStatus ex_reader ex_root pls d))),
      st_Placement := Some pls\<rparr>\<rparr>"
  have u: "RootStatusUpdate (ex_status_api ex_reader) ex_root [] = (Inr d, root', [StatusUpdated root'])"
    using g p by (simp add: RootStatusUpdate_def r root'_def Let_def)
      (simp add: ex_status_api_def ex_api_def ex_objects)
  have n: "p_Namespace root' = p_Namespace ex_root" "p_Name root' = p_Name ex_root" by (simp_all add: root'_def)
  have "api_read (ex_status_api ex_reader) [StatusUpdated root'] = ex_reader\<lparr>Get_Policy :=
      (Get_Policy ex_reader)(nn (p_Namespace ex_root) (p_Name ex_root) := Inr root')\<rparr>"
    by (simp add: ex_status_api_def n)
  with status_update_idempotent [OF u] p u show ?thesis by (simp add: r)
qed

end
