(* ===== verification/Cluster_Decision.thy ===== *)
theory Cluster_Decision
  imports Root_Status
begin

text \<open>
  \<^verbatim>\<open>controllers/propagator/replicatedpolicy_controller.go\<close>: the decision whether one policy
  belongs on one cluster (\<open>singleClusterDecision\<close>), which the replicated policy reconciler
  takes for its request alone, and how it relates to the decision set the root policy's status is
  built from (\<open>GetClusterDecisions\<close>).
\<close>

section \<open>Definitions\<close>

record clusterDecision =
  dec_Cluster :: string
  dec_PolicyOverrides :: BindingOverrides

definition clusterDecision_zero :: clusterDecision where
  "clusterDecision_zero = \<lparr>dec_Cluster = [], dec_PolicyOverrides = \<lparr>bo_RemediationAction = []\<rparr>\<rparr>"

text \<open>The subject loop; \<^verbatim>\<open>subjectFound\<close> ends it.\<close>

fun subject_found ::
  "client_reader \<Rightarrow> string \<Rightarrow> string \<Rightarrow> string \<Rightarrow> Subject list \<Rightarrow> goerr + bool" where
  "subject_found c ns policyName clusterName [] = Inr False"
| "subject_found c ns policyName clusterName (subject # rest) =
     (if sub_APIGroup subject \<noteq> SchemeGroup then subject_found c ns policyName clusterName rest
      else if sub_Kind subject = PolicyKind then
        (if sub_Name subject = policyName then Inr True
         else subject_found c ns policyName clusterName rest)
      else if sub_Kind subject = PolicySetKind then
        (case GetPolicySet c ns (sub_Name subject) of
           Inl e \<Rightarrow> Inl e
         | Inr policySet \<Rightarrow>
             if \<not> IsPolicyInPolicySet policySet policyName
             then subject_found c ns policyName clusterName rest
             else if clusterName \<in> set (ExcludedClustersForPolicy policySet policyName)
             then subject_found c ns policyName clusterName rest
             else Inr True)
      else subject_found c ns policyName clusterName rest)"

text \<open>
  In the Placement case the source tests \<^verbatim>\<open>IsNotFound(err)\<close> on the named result, which is
  still nil there, because the error of the Get is scoped to the preceding \<^verbatim>\<open>if\<close>. So a
  missing Placement is not noticed, and the decisions are listed with the empty name of the zero
  object.
\<close>

definition isSingleClusterInDecisions ::
  "client_reader \<Rightarrow> PlacementBinding \<Rightarrow> string \<Rightarrow> string \<Rightarrow> goerr + bool" where
  "isSingleClusterInDecisions c pb policyName clusterName =
     (if \<not> HasValidPlacementRef pb then Inr False
      else case subject_found c (pb_Namespace pb) policyName clusterName (pb_Subjects pb) of
        Inl e \<Rightarrow> Inl e
      | Inr subjectFound \<Rightarrow>
          if \<not> subjectFound then Inr False
          else
            let ref = pb_PlacementRef pb; refNN = nn (pb_Namespace pb) (ref_Name ref) in
            if ref_Kind ref = PlacementRule_kind then
              (case (case Get_PlacementRule c refNN of
                       Inl e \<Rightarrow> if \<not> IsNotFound e
                               then Inl (Wrapped (''failed to get PlacementRule '' @ ref_Name ref) e)
                               else Inr PlacementRuleObj_zero
                     | Inr plr \<Rightarrow> Inr plr) of
                 Inl e \<Rightarrow> Inl e
               | Inr plr \<Rightarrow> Inr (list_ex (\<lambda>d. rd_ClusterName d = clusterName) (plr_Decisions plr)))
            else if ref_Kind ref = Placement_kind then
              (case (case Get_Placement c refNN of
                       Inl e \<Rightarrow> if \<not> IsNotFound e
                               then Inl (Wrapped (''failed to get Placement '' @ ref_Name ref) e)
                               else Inr PlacementObj_zero
                     | Inr pl \<Rightarrow> Inr pl) of
                 Inl e \<Rightarrow> Inl e
               | Inr pl \<Rightarrow>
                   (case List_PlacementDecisions c
                           [InNamespace (pb_Namespace pb), MatchingLabels PlacementLabel (plo_Name pl)] of
                      Inl e \<Rightarrow> if \<not> IsNotFound e
                              then Inl (Wrapped (''failed to list the PlacementDecisions for '' @ ref_Name ref) e)
                              else Inr False
                    | Inr ds \<Rightarrow>
                        Inr (list_ex (\<lambda>d. list_ex (\<lambda>cl. cd_ClusterName cl = clusterName) (pd_Decisions d)) ds)))
            else Inr False)"

text \<open>
  The loop over the bindings without subFilter: an early return with an override, or the flag
  \<^verbatim>\<open>foundWithoutSubFilter\<close>.
\<close>

fun scan_unrestricted ::
  "client_reader \<Rightarrow> Policy \<Rightarrow> string \<Rightarrow> PlacementBinding list \<Rightarrow> bool \<Rightarrow>
   goerr + clusterDecision option \<times> bool" where
  "scan_unrestricted c rootPlc clusterName [] found = Inr (None, found)"
| "scan_unrestricted c rootPlc clusterName (pb # pbs) found =
     (if pb_SubFilter pb = Restricted then scan_unrestricted c rootPlc clusterName pbs found
      else case isSingleClusterInDecisions c pb (p_Name rootPlc) clusterName of
             Inl e \<Rightarrow> Inl e
           | Inr False \<Rightarrow> scan_unrestricted c rootPlc clusterName pbs found
           | Inr True \<Rightarrow>
               if EqualFold (bo_RemediationAction (pb_BindingOverrides pb)) Enforce
               then Inr (Some \<lparr>dec_Cluster = clusterName, dec_PolicyOverrides = pb_BindingOverrides pb\<rparr>, found)
               else scan_unrestricted c rootPlc clusterName pbs True)"

fun scan_restricted ::
  "client_reader \<Rightarrow> Policy \<Rightarrow> string \<Rightarrow> PlacementBinding list \<Rightarrow> goerr + clusterDecision option" where
  "scan_restricted c rootPlc clusterName [] = Inr None"
| "scan_restricted c rootPlc clusterName (pb # pbs) =
     (if pb_SubFilter pb \<noteq> Restricted then scan_restricted c rootPlc clusterName pbs
      else case isSingleClusterInDecisions c pb (p_Name rootPlc) clusterName of
             Inl e \<Rightarrow> Inl e
           | Inr False \<Rightarrow> scan_restricted c rootPlc clusterName pbs
           | Inr True \<Rightarrow>
               if EqualFold (bo_RemediationAction (pb_BindingOverrides pb)) Enforce
               then Inr (Some \<lparr>dec_Cluster = clusterName, dec_PolicyOverrides = pb_BindingOverrides pb\<rparr>)
               else scan_restricted c rootPlc clusterName pbs)"

definition singleClusterDecision ::
  "client_reader \<Rightarrow> Policy \<Rightarrow> string \<Rightarrow> goerr + clusterDecision" where
  "singleClusterDecision c rootPlc clusterName =
     (let positiveDecision = clusterDecision_zero\<lparr>dec_Cluster := clusterName\<rparr> in
      case List_PlacementBindings c [InNamespace (p_Namespace rootPlc)] of
        Inl e \<Rightarrow> Inl e
      | Inr pbs \<Rightarrow>
          (case scan_unrestricted c rootPlc clusterName pbs False of
             Inl e \<Rightarrow> Inl e
           | Inr (Some decision, _) \<Rightarrow> Inr decision
           | Inr (None, foundWithoutSubFilter) \<Rightarrow>
               if \<not> foundWithoutSubFilter then Inr clusterDecision_zero
               else case scan_restricted c rootPlc clusterName pbs of
                      Inl e \<Rightarrow> Inl e
                    | Inr (Some decision) \<Rightarrow> Inr decision
                    | Inr None \<Rightarrow> Inr positiveDecision))"

section \<open>One binding\<close>

text \<open>A subject that brings the policy to the cluster: named directly, or in a set that does not
  exclude the cluster.\<close>

definition subject_places :: "client_reader \<Rightarrow> string \<Rightarrow> Subject \<Rightarrow> string \<Rightarrow> string \<Rightarrow> bool" where
  "subject_places c ns s policyName cl \<longleftrightarrow>
     sub_APIGroup s = SchemeGroup \<and>
     (sub_Kind s = PolicyKind \<and> sub_Name s = policyName \<or>
      sub_Kind s = PolicySetKind \<and>
        (\<exists>ps. Get_PolicySet c (nn ns (sub_Name s)) = Inr ps \<and> IsPolicyInPolicySet (Some ps) policyName \<and>
              cl \<notin> set (ExcludedClustersForPolicy (Some ps) policyName)))"

lemma subject_found_spec:
  "subject_found c ns p cl ss = Inr b \<Longrightarrow> b \<longleftrightarrow> (\<exists>s \<in> set ss. subject_places c ns s p cl)"
proof (induction ss)
  case Nil
  then show ?case by simp
next
  case (Cons s ss)
  show ?case
  proof (cases rule: GetPolicySet_cases [of c ns "sub_Name s"])
    case (found ps)
    with Cons show ?thesis by (auto simp: subject_places_def split: if_splits)
  next
    case (missing e)
    then have "\<not> IsPolicyInPolicySet None p" by (simp add: IsPolicyInPolicySet_def)
    with Cons missing show ?thesis by (auto simp: subject_places_def split: if_splits)
  next
    case (err e e')
    with Cons show ?thesis by (auto simp: subject_places_def split: if_splits)
  qed
qed

text \<open>
  No PlacementDecision carries the placement label with an empty value: what the code relies on
  when the Placement of a binding is missing.
\<close>

definition no_unnamed_decisions :: "client_reader \<Rightarrow> bool" where
  "no_unnamed_decisions c \<longleftrightarrow>
     (\<forall>ns ds. List_PlacementDecisions c [InNamespace ns, MatchingLabels PlacementLabel []] = Inr ds \<longrightarrow>
        (\<forall>d \<in> set ds. pd_Decisions d = []))"

lemma isSingleClusterInDecisions_True:
  assumes "isSingleClusterInDecisions c pb p cl = Inr True" and "no_unnamed_decisions c"
  shows "HasValidPlacementRef pb"
    and "\<exists>s \<in> set (pb_Subjects pb). subject_places c (pb_Namespace pb) s p cl"
    and "\<exists>ds. GetDecisions c pb = Inr ds \<and> cl \<in> set ds"
  using assms
  by (auto simp: isSingleClusterInDecisions_def GetDecisions_def Let_def list_ex_iff
      PlacementObj_zero_def PlacementRuleObj_zero_def no_unnamed_decisions_def
      dest!: subject_found_spec split: sum.splits if_splits)

lemma isSingleClusterInDecisions_iff:
  assumes "isSingleClusterInDecisions c pb p cl = Inr b" and "no_unnamed_decisions c"
    and "GetDecisions c pb = Inr ds"
  shows "b \<longleftrightarrow> (\<exists>s \<in> set (pb_Subjects pb). subject_places c (pb_Namespace pb) s p cl) \<and> cl \<in> set ds"
proof (cases b)
  case True
  with assms(1) have t: "isSingleClusterInDecisions c pb p cl = Inr True" by simp
  from isSingleClusterInDecisions_True [OF t assms(2)] assms(3) True show ?thesis by auto
next
  case False
  with assms show ?thesis
    by (auto simp: isSingleClusterInDecisions_def GetDecisions_def Let_def list_ex_iff
        PlacementObj_zero_def PlacementRuleObj_zero_def no_unnamed_decisions_def
        dest!: subject_found_spec split: sum.splits if_splits) blast+
qed

section \<open>All bindings\<close>

definition enforces :: "PlacementBinding \<Rightarrow> bool" where
  "enforces pb \<longleftrightarrow> EqualFold (bo_RemediationAction (pb_BindingOverrides pb)) Enforce"

definition found_on :: "client_reader \<Rightarrow> Policy \<Rightarrow> string \<Rightarrow> PlacementBinding \<Rightarrow> bool" where
  "found_on c root cl pb \<longleftrightarrow> isSingleClusterInDecisions c pb (p_Name root) cl = Inr True"

lemma scan_unrestricted_None:
  "scan_unrestricted c root cl pbs f = Inr (None, g) \<Longrightarrow>
     (g \<longleftrightarrow> f \<or> (\<exists>pb \<in> set pbs. pb_SubFilter pb \<noteq> Restricted \<and> found_on c root cl pb)) \<and>
     (\<forall>pb \<in> set pbs. pb_SubFilter pb \<noteq> Restricted \<and> found_on c root cl pb \<longrightarrow> \<not> enforces pb)"
  by (induction pbs arbitrary: f)
     (auto simp: found_on_def enforces_def split: if_splits sum.splits bool.splits)

lemma scan_unrestricted_Some:
  "scan_unrestricted c root cl pbs f = Inr (Some dec, g) \<Longrightarrow>
     \<exists>pb \<in> set pbs. pb_SubFilter pb \<noteq> Restricted \<and> found_on c root cl pb \<and> enforces pb \<and>
       dec = \<lparr>dec_Cluster = cl, dec_PolicyOverrides = pb_BindingOverrides pb\<rparr>"
  by (induction pbs arbitrary: f)
     (auto simp: found_on_def enforces_def split: if_splits sum.splits bool.splits)

lemma scan_restricted_None:
  "scan_restricted c root cl pbs = Inr None \<Longrightarrow>
     \<forall>pb \<in> set pbs. pb_SubFilter pb = Restricted \<and> found_on c root cl pb \<longrightarrow> \<not> enforces pb"
  by (induction pbs)
     (auto simp: found_on_def enforces_def split: if_splits sum.splits bool.splits)

lemma scan_restricted_Some:
  "scan_restricted c root cl pbs = Inr (Some dec) \<Longrightarrow>
     \<exists>pb \<in> set pbs. pb_SubFilter pb = Restricted \<and> found_on c root cl pb \<and> enforces pb \<and>
       dec = \<lparr>dec_Cluster = cl, dec_PolicyOverrides = pb_BindingOverrides pb\<rparr>"
  by (induction pbs)
     (auto simp: found_on_def enforces_def split: if_splits sum.splits bool.splits)

lemma singleClusterDecision_cluster:
  assumes "singleClusterDecision c root cl = Inr dec"
    and "List_PlacementBindings c [InNamespace (p_Namespace root)] = Inr pbs"
  shows "dec_Cluster dec =
           (if \<exists>pb \<in> set pbs. pb_SubFilter pb \<noteq> Restricted \<and> found_on c root cl pb then cl else [])"
proof (cases "scan_unrestricted c root cl pbs False")
  case (Inl e)
  with assms show ?thesis by (simp add: singleClusterDecision_def)
next
  case (Inr r)
  obtain early found where r: "r = (early, found)" by fastforce
  show ?thesis
  proof (cases early)
    case (Some d)
    from scan_unrestricted_Some [of c root cl pbs False d found] Inr Some r assms show ?thesis
      by (auto simp: singleClusterDecision_def Let_def)
  next
    case None
    from scan_unrestricted_None [of c root cl pbs False found] Inr None r
    have f: "found \<longleftrightarrow> (\<exists>pb \<in> set pbs. pb_SubFilter pb \<noteq> Restricted \<and> found_on c root cl pb)"
      by simp
    show ?thesis
    proof (cases found)
      case False
      with assms Inr None r f show ?thesis
        by (auto simp: singleClusterDecision_def Let_def clusterDecision_zero_def)
    next
      case True
      with assms Inr None r have "dec_Cluster dec = cl"
        by (auto simp: singleClusterDecision_def Let_def clusterDecision_zero_def
            dest!: scan_restricted_Some split: sum.splits option.splits)
      with True f show ?thesis by simp
    qed
  qed
qed

lemma singleClusterDecision_override:
  assumes "singleClusterDecision c root cl = Inr dec"
    and "List_PlacementBindings c [InNamespace (p_Namespace root)] = Inr pbs"
    and "pb0 \<in> set pbs" "pb_SubFilter pb0 \<noteq> Restricted" "found_on c root cl pb0"
  shows "EqualFold (bo_RemediationAction (dec_PolicyOverrides dec)) Enforce \<longleftrightarrow>
           (\<exists>pb \<in> set pbs. found_on c root cl pb \<and> enforces pb)"
proof (cases "scan_unrestricted c root cl pbs False")
  case (Inl e)
  with assms show ?thesis by (simp add: singleClusterDecision_def)
next
  case (Inr r)
  obtain early found where r: "r = (early, found)" by fastforce
  show ?thesis
  proof (cases early)
    case (Some d)
    from scan_unrestricted_Some [of c root cl pbs False d found] Inr Some r assms(1,2) show ?thesis
      by (auto simp: singleClusterDecision_def enforces_def Let_def)
  next
    case None
    note un = scan_unrestricted_None [of c root cl pbs False found]
    from un Inr None r assms(3-5) have found by auto
    show ?thesis
    proof (cases "scan_restricted c root cl pbs")
      case (Inl e)
      with assms(1,2) Inr None r \<open>found\<close> show ?thesis by (simp add: singleClusterDecision_def Let_def)
    next
      case rest: (Inr late)
      show ?thesis
      proof (cases late)
        case (Some d)
        from scan_restricted_Some [of c root cl pbs d] rest Some Inr None r \<open>found\<close> assms(1,2) show ?thesis
          by (auto simp: singleClusterDecision_def enforces_def Let_def)
      next
        case late: None
        from scan_restricted_None [of c root cl pbs] rest late un Inr None r
        have "\<not> (\<exists>pb \<in> set pbs. found_on c root cl pb \<and> enforces pb)" by auto
        moreover from rest late Inr None r \<open>found\<close> assms(1,2)
        have "dec = clusterDecision_zero\<lparr>dec_Cluster := cl\<rparr>"
          by (simp add: singleClusterDecision_def Let_def)
        ultimately show ?thesis by (simp add: clusterDecision_zero_def)
      qed
    qed
  qed
qed

lemma scan_unrestricted_total:
  "scan_unrestricted c root cl pbs f = Inr (None, g) \<Longrightarrow> pb \<in> set pbs \<Longrightarrow> pb_SubFilter pb \<noteq> Restricted \<Longrightarrow>
     \<exists>b. isSingleClusterInDecisions c pb (p_Name root) cl = Inr b"
  by (induction pbs arbitrary: f) (auto split: if_splits sum.splits bool.splits)

lemma scan_total_or_found:
  assumes "singleClusterDecision c root cl = Inr dec"
    and "List_PlacementBindings c [InNamespace (p_Namespace root)] = Inr pbs"
    and "pb \<in> set pbs" "pb_SubFilter pb \<noteq> Restricted"
  shows "(\<exists>b. isSingleClusterInDecisions c pb (p_Name root) cl = Inr b) \<or>
    (\<exists>pb' \<in> set pbs. pb_SubFilter pb' \<noteq> Restricted \<and> found_on c root cl pb')"
proof (cases "scan_unrestricted c root cl pbs False")
  case (Inl e)
  with assms show ?thesis by (simp add: singleClusterDecision_def)
next
  case (Inr r)
  obtain early found where r: "r = (early, found)" by fastforce
  show ?thesis
  proof (cases early)
    case None
    with Inr r scan_unrestricted_total [of c root cl pbs False found pb] assms(3,4) show ?thesis by simp
  next
    case (Some d)
    with Inr r scan_unrestricted_Some [of c root cl pbs False d found] show ?thesis by auto
  qed
qed

section \<open>Properties\<close>

text \<open>C1. A root policy is replicated to a cluster exactly when some binding without the restricted
  subfilter places it there: one of its subjects names the policy, directly or through a policy set
  that has the policy and does not exclude the cluster, and the cluster is among its decisions. A
  restricted binding alone never places a policy.\<close>

theorem placed_iff:
  assumes "singleClusterDecision c root cl = Inr dec"
    and "List_PlacementBindings c [InNamespace (p_Namespace root)] = Inr pbs"
    and "no_unnamed_decisions c" and "cl \<noteq> []"
  shows "dec_Cluster dec = cl \<longleftrightarrow>
    (\<exists>pb \<in> set pbs. pb_SubFilter pb \<noteq> Restricted \<and>
       (\<exists>s \<in> set (pb_Subjects pb). subject_places c (pb_Namespace pb) s (p_Name root) cl) \<and>
       (\<exists>ds. GetDecisions c pb = Inr ds \<and> cl \<in> set ds))" (is "_ \<longleftrightarrow> ?placed")
proof -
  have "dec_Cluster dec = cl \<longleftrightarrow> (\<exists>pb \<in> set pbs. pb_SubFilter pb \<noteq> Restricted \<and> found_on c root cl pb)"
    using singleClusterDecision_cluster [OF assms(1,2)] assms(4) by auto
  also have "\<dots> \<longleftrightarrow> ?placed"
  proof
    assume "\<exists>pb \<in> set pbs. pb_SubFilter pb \<noteq> Restricted \<and> found_on c root cl pb"
    then show ?placed
      using isSingleClusterInDecisions_True [OF _ assms(3)] unfolding found_on_def by blast
  next
    assume ?placed
    then obtain pb ds where pb: "pb \<in> set pbs" "pb_SubFilter pb \<noteq> Restricted"
      "\<exists>s \<in> set (pb_Subjects pb). subject_places c (pb_Namespace pb) s (p_Name root) cl"
      "GetDecisions c pb = Inr ds" "cl \<in> set ds" by blast
    from scan_total_or_found [OF assms(1,2) pb(1,2)]
    show "\<exists>pb \<in> set pbs. pb_SubFilter pb \<noteq> Restricted \<and> found_on c root cl pb"
    proof
      assume "\<exists>b. isSingleClusterInDecisions c pb (p_Name root) cl = Inr b"
      then obtain b where b: "isSingleClusterInDecisions c pb (p_Name root) cl = Inr b" by blast
      with isSingleClusterInDecisions_iff [OF b assms(3) pb(4)] pb have "found_on c root cl pb"
        by (simp add: found_on_def)
      with pb show ?thesis by blast
    qed
  qed
  finally show ?thesis .
qed

theorem placed_iff_witness:
  "\<exists>dec. singleClusterDecision ex_reader ex_root ''c1'' = Inr dec \<and> dec_Cluster dec = ''c1''"
proof -
  obtain dec where d: "singleClusterDecision ex_reader ex_root ''c1'' = Inr dec"
    by (simp add: singleClusterDecision_def isSingleClusterInDecisions_def GetPolicySet_def
        IsPolicyInPolicySet_def ExcludedClustersForPolicy_def HasValidPlacementRef_def EqualFold_def
        Enforce_def ex_reader_def ex_objects Let_def)
  have l: "List_PlacementBindings ex_reader [InNamespace (p_Namespace ex_root)] = Inr [ex_pb, ex_set_pb]"
    by (simp add: ex_reader_def)
  have n: "no_unnamed_decisions ex_reader"
    by (simp add: no_unnamed_decisions_def ex_reader_def)
  have "subject_places ex_reader (pb_Namespace ex_pb) ex_subject (p_Name ex_root) ''c1''"
    by (simp add: subject_places_def ex_objects)
  moreover have "\<exists>ds. GetDecisions ex_reader ex_pb = Inr ds \<and> ''c1'' \<in> set ds"
    by (simp add: GetDecisions_def HasValidPlacementRef_def ex_reader_def ex_objects Let_def)
  ultimately have "dec_Cluster dec = ''c1''"
    using placed_iff [OF d l n] by (simp add: ex_pb_def ex_binding_def)
  with d show ?thesis by blast
qed

text \<open>C19. A placed policy is overridden to enforce exactly when some binding that finds the cluster,
  restricted or not, overrides the remediation action with enforce (in any case).\<close>

theorem enforce_override_iff:
  assumes "singleClusterDecision c root cl = Inr dec"
    and "List_PlacementBindings c [InNamespace (p_Namespace root)] = Inr pbs"
    and "dec_Cluster dec \<noteq> []"
  shows "EqualFold (bo_RemediationAction (dec_PolicyOverrides dec)) Enforce \<longleftrightarrow>
    (\<exists>pb \<in> set pbs. isSingleClusterInDecisions c pb (p_Name root) cl = Inr True \<and>
       EqualFold (bo_RemediationAction (pb_BindingOverrides pb)) Enforce)"
proof -
  from singleClusterDecision_cluster [OF assms(1,2)] assms(3) obtain pb where
    "pb \<in> set pbs" "pb_SubFilter pb \<noteq> Restricted" "found_on c root cl pb"
    by (auto split: if_splits)
  from singleClusterDecision_override [OF assms(1,2) this] show ?thesis
    by (simp add: found_on_def enforces_def)
qed

theorem enforce_override_iff_witness:
  "\<exists>dec. singleClusterDecision (ex_reader\<lparr>List_PlacementBindings := \<lambda>_. Inr [ex_binding ''b'' ex_subject ''enforce'' []]\<rparr>)
     ex_root ''c1'' = Inr dec \<and> EqualFold (bo_RemediationAction (dec_PolicyOverrides dec)) Enforce"
proof -
  let ?pb = "ex_binding ''b'' ex_subject ''enforce'' []"
  let ?c = "ex_reader\<lparr>List_PlacementBindings := \<lambda>_. Inr [?pb]\<rparr>"
  have e: "EqualFold ''enforce'' Enforce" by code_simp
  have s: "isSingleClusterInDecisions ?c ?pb ''p'' ''c1'' = Inr True"
    by (simp add: isSingleClusterInDecisions_def HasValidPlacementRef_def ex_reader_def ex_objects Let_def)
  have d: "singleClusterDecision ?c ex_root ''c1'' =
      Inr \<lparr>dec_Cluster = ''c1'', dec_PolicyOverrides = \<lparr>bo_RemediationAction = ''enforce''\<rparr>\<rparr>"
    using s e by (simp add: singleClusterDecision_def ex_root_def ex_policy_def ex_meta_def ex_binding_def)
  have l: "List_PlacementBindings ?c [InNamespace (p_Namespace ex_root)] = Inr [?pb]" by simp
  from enforce_override_iff [OF d l] s e d show ?thesis
    by (simp add: ex_root_def ex_policy_def ex_meta_def ex_binding_def)
qed

text \<open>C40. When the Placement of a binding does not exist, the replicated policy controller still lists
  the PlacementDecisions, those whose placement label is empty, and places the policy on their
  clusters, while the status of the root policy is computed from no decision at all.\<close>

theorem missing_placement_still_places:
  assumes "HasValidPlacementRef pb" and "ref_Kind (pb_PlacementRef pb) = Placement_kind"
    and "Get_Placement c (nn (pb_Namespace pb) (ref_Name (pb_PlacementRef pb))) = Inl e" and "IsNotFound e"
    and "subject_found c (pb_Namespace pb) policyName clusterName (pb_Subjects pb) = Inr True"
    and "List_PlacementDecisions c [InNamespace (pb_Namespace pb), MatchingLabels PlacementLabel []] = Inr ds"
  shows "isSingleClusterInDecisions c pb policyName clusterName =
      Inr (\<exists>d \<in> set ds. \<exists>cd \<in> set (pd_Decisions d). cd_ClusterName cd = clusterName) \<and>
    GetDecisions c pb = Inr []"
  using assms
  by (simp add: isSingleClusterInDecisions_def GetDecisions_def PlacementObj_zero_def list_ex_iff)

theorem missing_placement_still_places_witness:
  "isSingleClusterInDecisions (ex_reader\<lparr>Get_Placement := \<lambda>_. Inl (ApiStatus NotFound),
      List_PlacementDecisions := \<lambda>_. Inr [ex_pd\<lparr>pd_Labels := Some (fmupd PlacementLabel [] fmempty)\<rparr>]\<rparr>)
     ex_pb ''p'' ''c1'' = Inr True"
  using missing_placement_still_places [of ex_pb "ex_reader\<lparr>Get_Placement := \<lambda>_. Inl (ApiStatus NotFound),
      List_PlacementDecisions := \<lambda>_. Inr [ex_pd\<lparr>pd_Labels := Some (fmupd PlacementLabel [] fmempty)\<rparr>]\<rparr>"
      "ApiStatus NotFound" "''p''" "''c1''" "[ex_pd\<lparr>pd_Labels := Some (fmupd PlacementLabel [] fmempty)\<rparr>]"]
  by (simp add: HasValidPlacementRef_def ex_objects)

end
