(* ===== verification/Event_Handlers.thy ===== *)
theory Event_Handlers
  imports Cluster_Decision
begin

text \<open>
  The event handlers, mappers and predicates that turn watch events into reconcile requests:
  \<^verbatim>\<open>controllers/common/{handler,policy_mapper,policyset_handler}.go\<close>, the three
  \<^verbatim>\<open>replicatepolicy_*_eventHandler.go\<close> files, \<^verbatim>\<open>rootpolicystatus/filters.go\<close>,
  \<^verbatim>\<open>rootpolicy_setup.go\<close> and the mappers and predicates of
  \<^verbatim>\<open>controllers/policyset\<close>. A handler is the list of requests it adds to the work queue, in
  order. \<open>placement_handler\<close> is the contract the two placement handlers share.
\<close>

section \<open>Policy sets\<close>

definition mapPolicySetToRequests :: "PolicySet \<Rightarrow> Request list" where
  "mapPolicySetToRequests policySet =
     map (\<lambda>plc. nn (set_Namespace policySet) plc) (pss_Policies (set_Spec policySet))"

definition exclusion_map :: "PolicySet \<Rightarrow> (string \<times> PolicySetExclusion) list" where
  "exclusion_map s = fold (\<lambda>ex. AList.update (ex_PolicyName ex) ex) (pss_Exclusions (set_Spec s)) []"

definition getPolicySetDiffs :: "PolicySet \<Rightarrow> PolicySet \<Rightarrow> string list" where
  "getPolicySetDiffs oldPolicySet newPolicySet =
     (let newPolicies = pss_Policies (set_Spec newPolicySet);
          oldPolicies = pss_Policies (set_Spec oldPolicySet);
          oldExclusions = exclusion_map oldPolicySet;
          newExclusions = exclusion_map newPolicySet;
          d1 = fold (\<lambda>plc. if \<not> plc \<in> set newPolicies then add_key plc else id) oldPolicies [];
          d2 = fold (\<lambda>plc. if \<not> plc \<in> set oldPolicies then add_key plc else id) newPolicies d1;
          d3 = fold (\<lambda>(policyName, newExclusion).
                 case map_of oldExclusions policyName of
                   None \<Rightarrow> add_key policyName
                 | Some oldExclusion \<Rightarrow>
                     if newExclusion \<noteq> oldExclusion then add_key policyName else id) newExclusions d2
      in fold (\<lambda>(policyName, _).
           if map_of newExclusions policyName = None then add_key policyName else id) oldExclusions d3)"

definition EnqueueRequestsFromPolicySet_Create :: "PolicySet \<Rightarrow> Request list" where
  "EnqueueRequestsFromPolicySet_Create s = mapPolicySetToRequests s"

definition EnqueueRequestsFromPolicySet_Update :: "PolicySet \<Rightarrow> PolicySet \<Rightarrow> Request list" where
  "EnqueueRequestsFromPolicySet_Update oldPolicySet newPolicySet =
     map (\<lambda>policyName. nn (set_Namespace newPolicySet) policyName)
       (getPolicySetDiffs oldPolicySet newPolicySet)"

definition EnqueueRequestsFromPolicySet_Delete :: "PolicySet \<Rightarrow> Request list" where
  "EnqueueRequestsFromPolicySet_Delete s = mapPolicySetToRequests s"

section \<open>Policies\<close>

definition MapToRootPolicy :: "client_reader \<Rightarrow> ObjectMeta \<Rightarrow> Request list" where
  "MapToRootPolicy c object =
     (case IsReplicatedPolicy c object of
        Inl _ \<Rightarrow> []
      | Inr isReplicated \<Rightarrow>
          if isReplicated then
            (case ParseRootPolicyLabel (map_index (om_Labels object) RootPolicyLabel) of
               Inl _ \<Rightarrow> [nn [] []]
             | Inr (name, namespace) \<Rightarrow> [nn namespace name])
          else [nn (om_Namespace object) (om_Name object)])"

text \<open>
  \<^verbatim>\<open>rootPolicyNonStatusUpdates\<close>: the predicate of the root policy controller.
\<close>

definition rootPolicy_CreateFunc :: "ObjectMeta \<Rightarrow> bool" where
  "rootPolicy_CreateFunc object = (\<not> map_has (om_Labels object) RootPolicyLabel)"

definition rootPolicy_DeleteFunc :: "ObjectMeta \<Rightarrow> bool" where
  "rootPolicy_DeleteFunc object = (\<not> map_has (om_Labels object) RootPolicyLabel)"

definition non_status_change :: "ObjectMeta \<Rightarrow> ObjectMeta \<Rightarrow> bool" where
  "non_status_change objectOld objectNew \<longleftrightarrow>
     om_Generation objectOld \<noteq> om_Generation objectNew \<or>
     \<not> map_sem_eq (om_Labels objectOld) (om_Labels objectNew) \<or>
     \<not> map_sem_eq (om_Annotations objectOld) (om_Annotations objectNew)"

definition rootPolicy_UpdateFunc :: "ObjectMeta \<Rightarrow> ObjectMeta \<Rightarrow> bool" where
  "rootPolicy_UpdateFunc objectOld objectNew =
     (let newIsReplicated = map_has (om_Labels objectNew) RootPolicyLabel;
          oldIsReplicated = map_has (om_Labels objectOld) RootPolicyLabel
      in if oldIsReplicated \<or> newIsReplicated then False
         else non_status_change objectOld objectNew)"

text \<open>\<^verbatim>\<open>policyStatusPredicate\<close> of the root policy status controller: create and delete
  events are dropped.\<close>

definition policyStatus_UpdateFunc :: "Policy \<Rightarrow> Policy \<Rightarrow> bool" where
  "policyStatus_UpdateFunc oldPolicy updatedPolicy =
     (om_Generation (p_ObjectMeta oldPolicy) = om_Generation (p_ObjectMeta updatedPolicy))"

section \<open>Placement bindings\<close>

definition binding_getMappedReplicatedPolicy ::
  "client_reader \<Rightarrow> PlacementBinding \<Rightarrow> Request list" where
  "binding_getMappedReplicatedPolicy c pBinding =
     (if \<not> IsForPolicyOrPolicySet (Some pBinding) then []
      else GetRepPoliciesInPlacementBinding c pBinding)"

definition handlerForBinding_Create :: "client_reader \<Rightarrow> PlacementBinding \<Rightarrow> Request list" where
  "handlerForBinding_Create c pb = binding_getMappedReplicatedPolicy c pb"

definition handlerForBinding_Update ::
  "client_reader \<Rightarrow> PlacementBinding \<Rightarrow> PlacementBinding \<Rightarrow> Request list" where
  "handlerForBinding_Update c oldObj newObj =
     (if \<not> IsForPolicyOrPolicySet (Some newObj) \<and> \<not> IsForPolicyOrPolicySet (Some oldObj) then []
      else
        let oldRepPolicies = GetRepPoliciesInPlacementBinding c oldObj;
            newRepPolicies = GetRepPoliciesInPlacementBinding c newObj
        in if bo_RemediationAction (pb_BindingOverrides newObj) \<noteq>
                bo_RemediationAction (pb_BindingOverrides oldObj) \<or>
              pb_SubFilter newObj \<noteq> pb_SubFilter oldObj
           then newRepPolicies @ oldRepPolicies
           else GetAffectedObjs oldRepPolicies newRepPolicies)"

definition getAllReplicatedPoliciesForBinding ::
  "client_reader \<Rightarrow> PlacementBinding \<Rightarrow> Request list" where
  "getAllReplicatedPoliciesForBinding c pBinding =
     (let rootPolicyRequest = GetPoliciesInPlacementBinding c pBinding in
      case List_ManagedClusters c of
        Inl _ \<Rightarrow> GetRepPoliciesInPlacementBinding c pBinding
      | Inr clusterList \<Rightarrow>
          concat (map (\<lambda>rp. map (\<lambda>cluster. nn (mc_Name cluster) (nn_Namespace rp @ ''.'' @ nn_Name rp))
                         clusterList) rootPolicyRequest))"

definition handlerForBinding_Delete :: "client_reader \<Rightarrow> PlacementBinding \<Rightarrow> Request list" where
  "handlerForBinding_Delete c pBinding =
     (if \<not> IsForPolicyOrPolicySet (Some pBinding) then []
      else getAllReplicatedPoliciesForBinding c pBinding)"

section \<open>Placement decisions and placement rules\<close>

definition decision_getMappedReplicatedPolicy ::
  "client_reader \<Rightarrow> PlacementDecisionObj \<Rightarrow> Request list" where
  "decision_getMappedReplicatedPolicy c pDecision =
     (if pd_Decisions pDecision = [] then []
      else
        let placementName = map_index (pd_Labels pDecision) PlacementLabel in
        if placementName = [] then []
        else case GetRootPolicyRequests c (pd_Namespace pDecision) placementName Placement_kind of
               Inl _ \<Rightarrow> []
             | Inr rootPolicyResults \<Rightarrow>
                 concat (map (\<lambda>pr. map (\<lambda>decision.
                     nn (cd_ClusterName decision) (nn_Namespace pr @ ''.'' @ nn_Name pr))
                   (pd_Decisions pDecision)) rootPolicyResults))"

definition handlerForDecision_Create :: "client_reader \<Rightarrow> PlacementDecisionObj \<Rightarrow> Request list" where
  "handlerForDecision_Create c pd = decision_getMappedReplicatedPolicy c pd"

definition handlerForDecision_Delete :: "client_reader \<Rightarrow> PlacementDecisionObj \<Rightarrow> Request list" where
  "handlerForDecision_Delete c pd = decision_getMappedReplicatedPolicy c pd"

definition handlerForDecision_Update ::
  "client_reader \<Rightarrow> PlacementDecisionObj \<Rightarrow> PlacementDecisionObj \<Rightarrow> Request list" where
  "handlerForDecision_Update c oldObj newObj =
     (let placementName = map_index (pd_Labels newObj) PlacementLabel in
      if placementName = [] then []
      else
        let affectedDecisions = GetAffectedObjs (pd_Decisions newObj) (pd_Decisions oldObj) in
        if affectedDecisions = [] then []
        else case GetRootPolicyRequests c (pd_Namespace newObj) placementName Placement_kind of
               Inl _ \<Rightarrow> []
             | Inr rootPolicyResults \<Rightarrow>
                 concat (map (\<lambda>pr. map (\<lambda>decision.
                     nn (cd_ClusterName decision) (nn_Namespace pr @ ''.'' @ nn_Name pr))
                   affectedDecisions) rootPolicyResults))"

definition rule_getMappedReplicatedPolicy ::
  "client_reader \<Rightarrow> PlacementRuleObj \<Rightarrow> Request list" where
  "rule_getMappedReplicatedPolicy c pRule =
     (if plr_Decisions pRule = [] then []
      else case GetRootPolicyRequests c (plr_Namespace pRule) (plr_Name pRule) PlacementRule_kind of
             Inl _ \<Rightarrow> []
           | Inr rootPolicyResults \<Rightarrow>
               concat (map (\<lambda>pr. map (\<lambda>decision.
                   nn (rd_ClusterNamespace decision) (nn_Namespace pr @ ''.'' @ nn_Name pr))
                 (plr_Decisions pRule)) rootPolicyResults))"

definition handlerForRule_Create :: "client_reader \<Rightarrow> PlacementRuleObj \<Rightarrow> Request list" where
  "handlerForRule_Create c plr = rule_getMappedReplicatedPolicy c plr"

definition handlerForRule_Delete :: "client_reader \<Rightarrow> PlacementRuleObj \<Rightarrow> Request list" where
  "handlerForRule_Delete c plr = rule_getMappedReplicatedPolicy c plr"

definition handlerForRule_Update ::
  "client_reader \<Rightarrow> PlacementRuleObj \<Rightarrow> PlacementRuleObj \<Rightarrow> Request list" where
  "handlerForRule_Update c oldObj newObj =
     (let affectedDecisions = GetAffectedObjs (plr_Decisions newObj) (plr_Decisions oldObj) in
      if affectedDecisions = [] then []
      else case GetRootPolicyRequests c (plr_Namespace newObj) (plr_Name newObj) PlacementRule_kind of
             Inl _ \<Rightarrow> []
           | Inr rootPolicyResults \<Rightarrow>
               concat (map (\<lambda>pr. map (\<lambda>decision.
                   nn (rd_ClusterNamespace decision) (nn_Namespace pr @ ''.'' @ nn_Name pr))
                 affectedDecisions) rootPolicyResults))"

section \<open>Root policy status controller\<close>

definition mapBindingToPolicies :: "client_reader \<Rightarrow> PlacementBinding \<Rightarrow> Request list" where
  "mapBindingToPolicies c pb = GetPoliciesInPlacementBinding c pb"

definition mapRuleToPolicies :: "client_reader \<Rightarrow> PlacementRuleObj \<Rightarrow> Request list" where
  "mapRuleToPolicies c pr =
     (case GetRootPolicyRequests c (plr_Namespace pr) (plr_Name pr) PlacementRule_kind of
        Inl _ \<Rightarrow> [] | Inr result \<Rightarrow> result)"

definition mapDecisionToPolicies :: "client_reader \<Rightarrow> PlacementDecisionObj \<Rightarrow> Request list" where
  "mapDecisionToPolicies c pd =
     (case GetRootPolicyRequests c (pd_Namespace pd) (map_index (pd_Labels pd) PlacementLabel)
             Placement_kind of
        Inl _ \<Rightarrow> [] | Inr result \<Rightarrow> result)"

section \<open>Policy set controller\<close>

text \<open>The requests for the policy sets among the subjects of a binding.\<close>

definition policyset_subjects :: "string \<Rightarrow> PlacementBinding \<Rightarrow> Request list" where
  "policyset_subjects namespace pb =
     map (\<lambda>subject. nn namespace (sub_Name subject))
       (filter (\<lambda>subject. sub_APIGroup subject = SchemeGroup \<and> sub_Kind subject = PolicySetKind)
         (pb_Subjects pb))"

definition placementBindingMapper :: "PlacementBinding \<Rightarrow> Request list" where
  "placementBindingMapper object = policyset_subjects (pb_Namespace object) object"

definition placementDecisionMapper :: "client_reader \<Rightarrow> PlacementDecisionObj \<Rightarrow> Request list" where
  "placementDecisionMapper c object =
     (let placementName = map_index (pd_Labels object) PlacementLabel in
      if placementName = [] then []
      else case List_PlacementBindings c
                  [InNamespace (pd_Namespace object), MatchingFields ''placementRef.name'' placementName] of
             Inl _ \<Rightarrow> []
           | Inr pbs \<Rightarrow>
               concat (map (policyset_subjects (pd_Namespace object))
                 (filter (\<lambda>pb. \<not> (ref_APIGroup (pb_PlacementRef pb) \<noteq> ClusterGroup \<or>
                                 ref_Kind (pb_PlacementRef pb) \<noteq> Placement_kind \<or>
                                 ref_Name (pb_PlacementRef pb) \<noteq> placementName)) pbs)))"

definition placementRuleMapper :: "client_reader \<Rightarrow> PlacementRuleObj \<Rightarrow> Request list" where
  "placementRuleMapper c object =
     (case List_PlacementBindings c [InNamespace (plr_Namespace object)] of
        Inl _ \<Rightarrow> []
      | Inr pbs \<Rightarrow>
          concat (map (policyset_subjects (plr_Namespace object))
            (filter (\<lambda>pb. ref_APIGroup (pb_PlacementRef pb) = AppsGroup \<and>
                          ref_Kind (pb_PlacementRef pb) = PlacementRule_kind \<and>
                          ref_Name (pb_PlacementRef pb) = plr_Name object) pbs)))"

definition policyMapper :: "Policy \<Rightarrow> Request list" where
  "policyMapper object =
     map (\<lambda>plcmt. nn (p_Namespace object) (pl_PolicySet plcmt))
       (filter (\<lambda>plcmt. pl_PolicySet plcmt \<noteq> []) (items (st_Placement (p_Status object))))"

definition pbPredicate_UpdateFunc :: "PlacementBinding \<Rightarrow> PlacementBinding \<Rightarrow> bool" where
  "pbPredicate_UpdateFunc pbObjOld pbObjNew =
     (IsPbForPolicySet (Some pbObjNew) \<or> IsPbForPolicySet (Some pbObjOld))"

definition pbPredicate_CreateFunc :: "PlacementBinding \<Rightarrow> bool" where
  "pbPredicate_CreateFunc pbObj = IsPbForPolicySet (Some pbObj)"

definition policySetPredicate_UpdateFunc :: "PolicySet \<Rightarrow> PolicySet \<Rightarrow> bool" where
  "policySetPredicate_UpdateFunc policySetObjOld policySetObjNew =
     (pss_Policies (set_Spec policySetObjNew) \<noteq> pss_Policies (set_Spec policySetObjOld) \<or>
      pss_Exclusions (set_Spec policySetObjNew) \<noteq> pss_Exclusions (set_Spec policySetObjOld))"

text \<open>\<^verbatim>\<open>policyPredicateFuncs\<close> of the policy set controller; a nil slice and an empty one are equal there.\<close>

definition policySet_policy_UpdateFunc :: "Policy \<Rightarrow> Policy \<Rightarrow> bool" where
  "policySet_policy_UpdateFunc policyObjOld policyObjNew \<longleftrightarrow>
     \<not> (items (st_Placement (p_Status policyObjNew)) = items (st_Placement (p_Status policyObjOld)) \<and>
        items (st_Status (p_Status policyObjNew)) = items (st_Status (p_Status policyObjOld)) \<and>
        st_ComplianceState (p_Status policyObjNew) = st_ComplianceState (p_Status policyObjOld) \<and>
        st_Details (p_Status policyObjNew) = st_Details (p_Status policyObjOld))"

section \<open>The generic handler\<close>

text \<open>
  \<^verbatim>\<open>EnqueueRequestsFromMapFunc\<close> of \<^verbatim>\<open>controllers/common/handler.go\<close>: the requests of the mapper are added to the
  queue one by one; of an update only the new object is mapped. The queue and its \<^verbatim>\<open>Add\<close> are parameters.
\<close>

definition mapAndEnqueue :: "('o \<Rightarrow> Request list) \<Rightarrow> (Request \<Rightarrow> 'q \<Rightarrow> 'q) \<Rightarrow> 'o \<Rightarrow> 'q \<Rightarrow> 'q" where
  "mapAndEnqueue toRequests add object q = fold add (toRequests object) q"

datatype 'o event = CreateEvent 'o | UpdateEvent 'o 'o | DeleteEvent 'o | GenericEvent 'o

definition EnqueueRequestsFromMapFunc :: "('o \<Rightarrow> Request list) \<Rightarrow> (Request \<Rightarrow> 'q \<Rightarrow> 'q) \<Rightarrow> 'o event \<Rightarrow> 'q \<Rightarrow> 'q" where
  "EnqueueRequestsFromMapFunc toRequests add evt q =
     (case evt of
        CreateEvent object \<Rightarrow> mapAndEnqueue toRequests add object q
      | UpdateEvent objectOld objectNew \<Rightarrow> mapAndEnqueue toRequests add objectNew q
      | DeleteEvent object \<Rightarrow> mapAndEnqueue toRequests add object q
      | GenericEvent object \<Rightarrow> mapAndEnqueue toRequests add object q)"

definition NeverEnqueue :: "'o \<Rightarrow> bool" where
  "NeverEnqueue _ = False"

section \<open>Policy set differences\<close>

lemma set_fold_cond_add_key:
  "set (fold (\<lambda>x. if P x then add_key (f x) else id) xs ks) = set ks \<union> f ` {x \<in> set xs. P x}"
  by (induction xs arbitrary: ks) auto

lemma find_snoc:
  "find P (xs @ [x]) = (case find P xs of None \<Rightarrow> if P x then Some x else None | Some y \<Rightarrow> Some y)"
  by (induction xs) auto

lemma map_of_fold_update:
  "map_of (fold (\<lambda>x. AList.update (f x) x) xs m) k =
     (case find (\<lambda>x. f x = k) (rev xs) of None \<Rightarrow> map_of m k | Some x \<Rightarrow> Some x)"
proof (induction xs arbitrary: m)
  case Nil
  then show ?case by simp
next
  case (Cons x xs)
  then show ?case by (auto simp: find_snoc update_conv' split: option.splits)
qed

lemma distinct_exclusion_map: "distinct (map fst (exclusion_map s))"
proof -
  have "distinct (map fst m) \<Longrightarrow> distinct (map fst (fold (\<lambda>ex. AList.update (ex_PolicyName ex) ex) xs m))"
    for xs :: "PolicySetExclusion list" and m
    by (induction xs arbitrary: m) (auto simp: distinct_update)
  then show ?thesis by (simp add: exclusion_map_def)
qed

text \<open>The exclusion that \<^verbatim>\<open>getPolicySetDiffs\<close> compares: the last one with the policy's name.\<close>

lemma map_of_exclusion_map:
  "map_of (exclusion_map s) p =
     find (\<lambda>ex. ex_PolicyName ex = p) (rev (pss_Exclusions (set_Spec s)))"
  by (simp add: exclusion_map_def map_of_fold_update option.case_eq_if split: option.splits)

lemma set_getPolicySetDiffs:
  "set (getPolicySetDiffs old new) =
     {p. (p \<in> set (pss_Policies (set_Spec old))) \<noteq> (p \<in> set (pss_Policies (set_Spec new))) \<or>
         map_of (exclusion_map old) p \<noteq> map_of (exclusion_map new) p}"
proof -
  have new: "(\<lambda>(policyName, newExclusion).
        case map_of (exclusion_map old) policyName of
          None \<Rightarrow> add_key policyName
        | Some oldExclusion \<Rightarrow> if newExclusion \<noteq> oldExclusion then add_key policyName else id) =
      (\<lambda>x. if map_of (exclusion_map old) (fst x) \<noteq> Some (snd x) then add_key (fst x) else id)"
    by (auto split: option.splits)
  have rem: "(\<lambda>(policyName, _ :: PolicySetExclusion).
        if map_of (exclusion_map new) policyName = None then add_key policyName else id) =
      (\<lambda>x. if map_of (exclusion_map new) (fst x) = None then add_key (fst x) else id)"
    by auto
  have keys: "(p, ex) \<in> set (exclusion_map s) \<longleftrightarrow> map_of (exclusion_map s) p = Some ex" for p ex s
    using distinct_exclusion_map [of s] by (simp add: map_of_eq_Some_iff)
  have plain: "set (fold (\<lambda>x. if P x then add_key x else id) xs ks) = set ks \<union> {x \<in> set xs. P x}"
    for P and xs ks :: "string list"
    using set_fold_cond_add_key [of P "\<lambda>x. x" xs ks] by simp
  have "set (getPolicySetDiffs old new) =
      {p \<in> set (pss_Policies (set_Spec old)). p \<notin> set (pss_Policies (set_Spec new))} \<union>
      {p \<in> set (pss_Policies (set_Spec new)). p \<notin> set (pss_Policies (set_Spec old))} \<union>
      fst ` {x \<in> set (exclusion_map new). map_of (exclusion_map old) (fst x) \<noteq> Some (snd x)} \<union>
      fst ` {x \<in> set (exclusion_map old). map_of (exclusion_map new) (fst x) = None}"
    by (simp only: getPolicySetDiffs_def Let_def new rem set_fold_cond_add_key plain) simp
  also have "fst ` {x \<in> set (exclusion_map new). map_of (exclusion_map old) (fst x) \<noteq> Some (snd x)} =
      {p. \<exists>ex. map_of (exclusion_map new) p = Some ex \<and> map_of (exclusion_map old) p \<noteq> Some ex}"
    by (auto simp: keys image_iff)
  also have "fst ` {x \<in> set (exclusion_map old). map_of (exclusion_map new) (fst x) = None} =
      {p. (\<exists>ex. map_of (exclusion_map old) p = Some ex) \<and> map_of (exclusion_map new) p = None}"
    by (auto simp: keys image_iff)
  finally show ?thesis by (auto; metis option.exhaust)
qed

section \<open>The placement handlers\<close>

text \<open>
  A handler of placement objects: an update adds the requests of every root policy bound to the
  object for the clusters that are in exactly one of the two decision lists, any other event the
  requests for all of the object's clusters.
\<close>

definition rep_request :: "Request \<Rightarrow> string \<Rightarrow> Request" where
  "rep_request pr cl = nn cl (nn_Namespace pr @ ''.'' @ nn_Name pr)"

locale placement_handler = affected_diff affected
  for affected :: "'d list \<Rightarrow> 'd list \<Rightarrow> 'd list" +
  fixes decisions :: "'o \<Rightarrow> 'd list"
    and cluster :: "'d \<Rightarrow> string"
    and roots :: "'o \<Rightarrow> Request list"
    and on_update :: "'o \<Rightarrow> 'o \<Rightarrow> Request list"
    and on_event :: "'o \<Rightarrow> Request list"
  assumes on_update: "on_update old new =
      concat (map (\<lambda>pr. map (\<lambda>d. rep_request pr (cluster d)) (affected (decisions new) (decisions old)))
        (roots new))"
    and on_event: "on_event x =
      concat (map (\<lambda>pr. map (\<lambda>d. rep_request pr (cluster d)) (decisions x)) (roots x))"
begin

lemma on_update_set:
  assumes "distinct (decisions old)"
  shows "set (on_update old new) =
    {rep_request pr (cluster d) | pr d. pr \<in> set (roots new) \<and>
       (d \<in> set (decisions new)) \<noteq> (d \<in> set (decisions old))}"
  using affected_requests [OF assms] by (simp add: on_update)

lemma on_event_set:
  "set (on_event x) =
    {rep_request pr (cluster d) | pr d. pr \<in> set (roots x) \<and> d \<in> set (decisions x)}"
  by (auto simp: on_event)

lemma on_update_unchanged:
  "distinct (decisions old) \<Longrightarrow> set (decisions new) = set (decisions old) \<Longrightarrow> on_update old new = []"
  using affected_empty_iff by (simp add: on_update)

lemma on_update_within_events:
  "distinct (decisions old) \<Longrightarrow> roots old = roots new \<Longrightarrow>
     set (on_update old new) \<subseteq> set (on_event old) \<union> set (on_event new)"
  by (auto simp: on_update_set on_event_set)

end

definition decision_roots :: "client_reader \<Rightarrow> PlacementDecisionObj \<Rightarrow> Request list" where
  "decision_roots c pd =
     (if map_index (pd_Labels pd) PlacementLabel = [] then []
      else mapDecisionToPolicies c pd)"

interpretation dh: placement_handler GetAffectedObjs pd_Decisions cd_ClusterName "decision_roots c"
  "handlerForDecision_Update c" "decision_getMappedReplicatedPolicy c" for c
  by unfold_locales
     (auto simp: handlerForDecision_Update_def decision_getMappedReplicatedPolicy_def
       decision_roots_def mapDecisionToPolicies_def rep_request_def Let_def split: sum.splits)

interpretation rh: placement_handler GetAffectedObjs plr_Decisions rd_ClusterNamespace
  "mapRuleToPolicies c" "handlerForRule_Update c" "rule_getMappedReplicatedPolicy c" for c
  by unfold_locales
     (auto simp: handlerForRule_Update_def rule_getMappedReplicatedPolicy_def
       mapRuleToPolicies_def rep_request_def Let_def split: sum.splits)

section \<open>Bindings\<close>

lemma set_GetRepPolicies:
  "GetDecisions c pb = Inr ds \<Longrightarrow>
   set (GetRepPoliciesInPlacementBinding c pb) =
     {rep_request rp cl | rp cl. rp \<in> set (GetPoliciesInPlacementBinding c pb) \<and> cl \<in> set ds}"
  by (auto simp: GetRepPoliciesInPlacementBinding_def rep_request_def)

lemma distinct_concat_product:
  assumes "distinct xs" "distinct ys" "\<And>x y x' y'. x \<in> set xs \<Longrightarrow> x' \<in> set xs \<Longrightarrow> g x y = g x' y' \<Longrightarrow> x = x' \<and> y = y'"
  shows "distinct (concat (map (\<lambda>x. map (g x) ys) xs))"
  using assms(1,3)
proof (induction xs)
  case Nil
  then show ?case by simp
next
  case (Cons x xs)
  have "distinct (map (g x) ys)"
    using assms(2) Cons.prems(2) [of x x] by (auto simp: distinct_map inj_on_def)
  moreover have "g x y \<notin> (\<Union>x' \<in> set xs. g x' ` set ys)" for y
    using Cons.prems by fastforce
  moreover have "distinct (concat (map (\<lambda>x. map (g x) ys) xs))"
    using Cons.prems by (intro Cons.IH) auto
  ultimately show ?case by auto
qed

text \<open>The requests of a binding are distinct when its decisions are.\<close>

lemma distinct_GetRepPolicies:
  assumes "GetDecisions c pb = Inr ds" and "distinct ds"
  shows "distinct (GetRepPoliciesInPlacementBinding c pb)"
proof -
  have "distinct (concat (map (\<lambda>rp. map (rep_request rp) ds) (GetPoliciesInPlacementBinding c pb)))"
    by (rule distinct_concat_product [OF distinct_GetPoliciesInPlacementBinding assms(2)])
       (auto simp: rep_request_def set_GetPoliciesInPlacementBinding)
  with assms(1) show ?thesis
    by (simp add: GetRepPoliciesInPlacementBinding_def rep_request_def [abs_def])
qed

lemma set_getAllReplicatedPoliciesForBinding:
  "List_ManagedClusters c = Inr mcs \<Longrightarrow>
   set (getAllReplicatedPoliciesForBinding c pb) =
     {rep_request rp (mc_Name mc) | rp mc. rp \<in> set (GetPoliciesInPlacementBinding c pb) \<and> mc \<in> set mcs}"
  by (auto simp: getAllReplicatedPoliciesForBinding_def rep_request_def)

section \<open>Properties\<close>

text \<open>An update of a PlacementDecision enqueues the replicated policies of every root policy bound
  to its Placement for exactly the clusters that were added or removed, and an update that changes no
  cluster enqueues nothing.\<close>

theorem decision_update_requests:
  assumes "distinct (pd_Decisions old)"
  shows "set (handlerForDecision_Update c old new) =
      {rep_request pr (cd_ClusterName d) | pr d. pr \<in> set (decision_roots c new) \<and>
         (d \<in> set (pd_Decisions new)) \<noteq> (d \<in> set (pd_Decisions old))} \<and>
    (set (pd_Decisions new) = set (pd_Decisions old) \<longrightarrow> handlerForDecision_Update c old new = [])"
  using dh.on_update_set [OF assms, of c new] dh.on_update_unchanged [OF assms, of new c] by simp

theorem decision_update_requests_witness:
  "set (handlerForDecision_Update ex_reader (ex_pd\<lparr>pd_Decisions := []\<rparr>) ex_pd) =
     {rep_request pr (cd_ClusterName d) | pr d. pr \<in> set (decision_roots ex_reader ex_pd) \<and> d \<in> set ex_decisions}"
  using decision_update_requests [of "ex_pd\<lparr>pd_Decisions := []\<rparr>" ex_reader ex_pd]
  by (simp add: ex_pd_def)

text \<open>The same for a PlacementRule: the requests of an update are those for the decisions in exactly
  one of the two statuses.\<close>

theorem rule_update_requests:
  assumes "distinct (plr_Decisions old)"
  shows "set (handlerForRule_Update c old new) =
      {rep_request pr (rd_ClusterNamespace d) | pr d. pr \<in> set (mapRuleToPolicies c new) \<and>
         (d \<in> set (plr_Decisions new)) \<noteq> (d \<in> set (plr_Decisions old))} \<and>
    (set (plr_Decisions new) = set (plr_Decisions old) \<longrightarrow> handlerForRule_Update c old new = [])"
  using rh.on_update_set [OF assms, of c new] rh.on_update_unchanged [OF assms, of new c] by simp

theorem rule_update_requests_witness:
  "handlerForRule_Update ex_reader
     \<lparr>plr_Name = ''r'', plr_Namespace = ''ns'', plr_Decisions = [\<lparr>rd_ClusterName = ''c1'', rd_ClusterNamespace = ''c1''\<rparr>]\<rparr>
     \<lparr>plr_Name = ''r'', plr_Namespace = ''ns'', plr_Decisions = [\<lparr>rd_ClusterName = ''c1'', rd_ClusterNamespace = ''c1''\<rparr>]\<rparr> = []"
  using rule_update_requests [of "\<lparr>plr_Name = ''r'', plr_Namespace = ''ns'',
      plr_Decisions = [\<lparr>rd_ClusterName = ''c1'', rd_ClusterNamespace = ''c1''\<rparr>]\<rparr>" ex_reader
      "\<lparr>plr_Name = ''r'', plr_Namespace = ''ns'',
      plr_Decisions = [\<lparr>rd_ClusterName = ''c1'', rd_ClusterNamespace = ''c1''\<rparr>]\<rparr>"]
  by simp

text \<open>Deleting a PlacementBinding enqueues, for every policy the binding names, the replicated
  policy on every managed cluster, whatever has become of its placement; in particular it covers every
  request the binding's creation enqueued for a managed cluster.\<close>

theorem binding_delete_requests:
  assumes "IsForPolicyOrPolicySet (Some pb)" and "List_ManagedClusters c = Inr mcs"
  shows "set (handlerForBinding_Delete c pb) =
      {rep_request rp (mc_Name mc) | rp mc. rp \<in> set (GetPoliciesInPlacementBinding c pb) \<and> mc \<in> set mcs} \<and>
    {r \<in> set (handlerForBinding_Create c pb). nn_Namespace r \<in> mc_Name ` set mcs}
      \<subseteq> set (handlerForBinding_Delete c pb)"
proof -
  have del: "set (handlerForBinding_Delete c pb) =
      {rep_request rp (mc_Name mc) | rp mc. rp \<in> set (GetPoliciesInPlacementBinding c pb) \<and> mc \<in> set mcs}"
    using assms by (simp add: handlerForBinding_Delete_def set_getAllReplicatedPoliciesForBinding)
  moreover have "r \<in> set (handlerForBinding_Delete c pb)"
    if "r \<in> set (handlerForBinding_Create c pb)" "nn_Namespace r \<in> mc_Name ` set mcs" for r
  proof (cases "GetDecisions c pb")
    case (Inl e)
    with that(1) assms(1) show ?thesis
      by (simp add: handlerForBinding_Create_def binding_getMappedReplicatedPolicy_def
          GetRepPoliciesInPlacementBinding_def)
  next
    case (Inr ds)
    with that(1) assms(1) obtain rp cl where
      r: "rp \<in> set (GetPoliciesInPlacementBinding c pb)" "r = rep_request rp cl"
      by (auto simp: handlerForBinding_Create_def binding_getMappedReplicatedPolicy_def set_GetRepPolicies)
    with that(2) show ?thesis unfolding del by (auto simp: rep_request_def)
  qed
  ultimately show ?thesis by blast
qed

theorem binding_delete_requests_witness:
  "nn ''c2'' ''ns.p'' \<in> set (handlerForBinding_Delete ex_reader ex_pb)"
proof -
  have p: "nn ''ns'' ''p'' \<in> set (GetPoliciesInPlacementBinding ex_reader ex_pb)"
    by (simp add: GetPoliciesInPlacementBinding_def add_subject_policies_def add_key_def ex_objects)
  have "IsForPolicyOrPolicySet (Some ex_pb)" "List_ManagedClusters ex_reader =
      Inr [\<lparr>mc_Name = ''c1'', mc_UID = ''u''\<rparr>, \<lparr>mc_Name = ''c2'', mc_UID = ''u''\<rparr>]"
    by (simp_all add: IsForPolicyOrPolicySet_def ex_objects ex_reader_def)
  note del = conjunct1 [OF binding_delete_requests [OF this]]
  have "rep_request (nn ''ns'' ''p'') (mc_Name \<lparr>mc_Name = ''c2'', mc_UID = ''u''\<rparr>) \<in>
      set (handlerForBinding_Delete ex_reader ex_pb)"
    unfolding del by (intro CollectI exI conjI, rule refl, rule p) simp
  then show ?thesis by (simp add: rep_request_def)
qed

end
