(* ===== verification/Replication.thy ===== *)
theory Replication
  imports Cluster_Decision Event_Handlers
begin

text \<open>
  \<^verbatim>\<open>controllers/propagator/replication.go\<close>: comparing replicated policies, building the
  policy that a cluster should have, and putting dependencies into their canonical form.
\<close>

definition argoCDCompareOptionsAnnotation :: string where
  "argoCDCompareOptionsAnnotation = ''argocd.argoproj.io/compare-options''"

definition ManagedClusterUIDAnnotation :: string where
  "ManagedClusterUIDAnnotation = SchemeGroup @ ''/managed-cluster-uid''"

text \<open>Semantic equality: nil and empty maps or slices are equal.\<close>

definition equivalentReplicatedPolicies :: "Policy \<Rightarrow> Policy \<Rightarrow> bool" where
  "equivalentReplicatedPolicies plc1 plc2 =
     (if \<not> map_sem_eq (p_Annotations plc1) (p_Annotations plc2) then False
      else if \<not> map_sem_eq (p_Labels plc1) (p_Labels plc2) then False
      else p_Spec plc1 = p_Spec plc2)"

section \<open>Dependencies\<close>

definition depIsPolicySet :: "PolicyDependency \<Rightarrow> bool" where
  "depIsPolicySet dep \<longleftrightarrow>
     tm_Kind (dep_TypeMeta dep) = PolicySetKind \<and>
     tm_APIVersion (dep_TypeMeta dep) = PolicySetGroupVersion"

definition depIsPolicy :: "PolicyDependency \<Rightarrow> bool" where
  "depIsPolicy dep \<longleftrightarrow>
     tm_Kind (dep_TypeMeta dep) = PolicyKind \<and>
     tm_APIVersion (dep_TypeMeta dep) = PolicyGroupVersion"

text \<open>The dependencies one turn of the loop appends.\<close>

definition canonicalizeDependency ::
  "client_reader \<Rightarrow> string \<Rightarrow> PolicyDependency \<Rightarrow> PolicyDependency list \<Rightarrow> goerr + PolicyDependency list" where
  "canonicalizeDependency c defaultNamespace dep deps =
     (if depIsPolicySet dep then
        let dep = (if dep_Namespace dep = [] then dep\<lparr>dep_Namespace := defaultNamespace\<rparr> else dep) in
        (case Get_PolicySet c (nn (dep_Namespace dep) (dep_Name dep)) of
           Inl e \<Rightarrow> if IsNotFound e then Inr (deps @ [dep]) else Inl e
         | Inr plcset \<Rightarrow>
             Inr (deps @ map (\<lambda>plc.
                    \<lparr>dep_TypeMeta = \<lparr>tm_Kind = PolicyKind, tm_APIVersion = PolicyGroupVersion\<rparr>,
                     dep_Name = dep_Namespace dep @ ''.'' @ plc, dep_Namespace = [],
                     dep_Compliance = dep_Compliance dep\<rparr>) (pss_Policies (set_Spec plcset))))
      else if depIsPolicy dep then
        (if dep_Namespace dep = [] \<and> 2 \<le> length (Split (dep_Name dep) (CHR ''.'')) then Inr (deps @ [dep])
         else
           let dep = (if dep_Namespace dep = [] then dep\<lparr>dep_Namespace := defaultNamespace\<rparr> else dep);
               dep = dep\<lparr>dep_Name := dep_Namespace dep @ ''.'' @ dep_Name dep, dep_Namespace := []\<rparr>
           in Inr (deps @ [dep]))
      else Inr (deps @ [dep]))"

definition canonicalizeDependencies ::
  "client_reader \<Rightarrow> PolicyDependency list \<Rightarrow> string \<Rightarrow> goerr + PolicyDependency list" where
  "canonicalizeDependencies c rawDeps defaultNamespace =
     foldE (canonicalizeDependency c defaultNamespace) rawDeps []"

text \<open>The loop over the templates that canonicalizes their extra dependencies.\<close>

fun canonicalizeTemplates ::
  "client_reader \<Rightarrow> string \<Rightarrow> PolicyTemplate list \<Rightarrow> goerr + PolicyTemplate list" where
  "canonicalizeTemplates c ns [] = Inr []"
| "canonicalizeTemplates c ns (t # ts) =
     (case canonicalizeDependencies c (pt_ExtraDependencies t) ns of
        Inl e \<Rightarrow> Inl e
      | Inr deps \<Rightarrow>
          (case canonicalizeTemplates c ns ts of
             Inl e \<Rightarrow> Inl e
           | Inr ts' \<Rightarrow> Inr (t\<lparr>pt_ExtraDependencies := deps\<rparr> # ts')))"

definition policyset_id :: "Policy \<Rightarrow> PolicyDependency \<Rightarrow> ObjectIdentifier" where
  "policyset_id root dep =
     \<lparr>oid_Group = APIGroup, oid_Version = ''v1beta1'', oid_Kind = PolicySetKind,
      oid_Namespace = (if dep_Namespace dep = [] then p_Namespace root else dep_Namespace dep),
      oid_Name = dep_Name dep\<rparr>"

definition getPolicySetDependencies :: "Policy \<Rightarrow> ObjectIdentifier list" where
  "getPolicySetDependencies root =
     (let watch = (\<lambda>dep ids. if depIsPolicySet dep then add_key (policyset_id root dep) ids else ids);
          ids = fold watch (ps_Dependencies (p_Spec root)) []
      in fold (\<lambda>tmpl. fold watch (pt_ExtraDependencies tmpl)) (ps_PolicyTemplates (p_Spec root)) ids)"

section \<open>The replicated policy\<close>

text \<open>
  The loop that deletes the keys outside the policy group when \<^verbatim>\<open>copyPolicyMetadata\<close> is
  false; the keys it runs over are a copy of the map's own.
\<close>

definition keep_metadata :: "Policy \<Rightarrow> strmap \<Rightarrow> (string, string) fmap" where
  "keep_metadata root m =
     (if ps_CopyPolicyMetadata (p_Spec root) = Some False
      then fmfilter (\<lambda>key. HasPrefix key (SchemeGroup @ ''/'')) (raw_map m)
      else raw_map m)"

text \<open>
  The result and the root policy after the call: the label map taken from the root is not copied,
  so the labels written for the replica are written into a root whose label map is not nil.
\<close>

definition buildReplicatedPolicy ::
  "client_reader \<Rightarrow> Policy \<Rightarrow> clusterDecision \<Rightarrow> (goerr + Policy) \<times> Policy" where
  "buildReplicatedPolicy c root clusterDec =
     (let clusterName = dec_Cluster clusterDec in
      case Get_ManagedCluster c clusterName of
        Inl e \<Rightarrow> (Inl (Wrapped (''failed to get target ManagedCluster '' @ clusterName) e), root)
      | Inr managedCluster \<Rightarrow>
          if mc_UID managedCluster = []
          then (Inl (Msg (''target ManagedCluster '' @ clusterName @ '' has an empty UID'')), root)
          else
            let replicatedName = FullNameForPolicy root;
                labels = fmupd RootPolicyLabel replicatedName
                          (fmupd ClusterNamespaceLabel clusterName
                            (fmupd ClusterNameLabel clusterName (keep_metadata root (p_Labels root))));
                annotations = fmupd ManagedClusterUIDAnnotation (mc_UID managedCluster)
                               (fmupd argoCDCompareOptionsAnnotation ''IgnoreExtraneous''
                                 (keep_metadata root (p_Annotations root)));
                meta = (p_ObjectMeta root)\<lparr>om_Name := replicatedName, om_Namespace := clusterName,
                          om_ResourceVersion := [], om_Finalizers := [], om_OwnerReferences := [],
                          om_Labels := Some labels, om_Annotations := Some annotations\<rparr>;
                override = bo_RemediationAction (dec_PolicyOverrides clusterDec);
                spec = p_Spec root;
                spec = (if \<not> EqualFold (ps_RemediationAction spec) Enforce \<and> override \<noteq> []
                        then spec\<lparr>ps_RemediationAction := override\<rparr> else spec);
                root' = (if p_Labels root = None then root
                         else root\<lparr>p_ObjectMeta := (p_ObjectMeta root)\<lparr>om_Labels := Some labels\<rparr>\<rparr>)
            in case canonicalizeDependencies c (ps_Dependencies spec) (p_Namespace root) of
                 Inl e \<Rightarrow> (Inl e, root')
               | Inr deps \<Rightarrow>
                   (case canonicalizeTemplates c (p_Namespace root) (ps_PolicyTemplates spec) of
                      Inl e \<Rightarrow> (Inl e, root')
                    | Inr templates \<Rightarrow>
                        (Inr \<lparr>p_TypeMeta = p_TypeMeta root, p_ObjectMeta = meta,
                          p_Spec = spec\<lparr>ps_Dependencies := deps, ps_PolicyTemplates := templates\<rparr>,
                          p_Status = PolicyStatus_zero\<rparr>, root')))"

section \<open>Comparing policies\<close>

lemma equivalentReplicatedPolicies_refl [simp]: "equivalentReplicatedPolicies p p"
  by (simp add: equivalentReplicatedPolicies_def)

lemma equivalentReplicatedPolicies_sym:
  "equivalentReplicatedPolicies p q \<Longrightarrow> equivalentReplicatedPolicies q p"
  by (auto simp: equivalentReplicatedPolicies_def map_sem_eq_sym split: if_splits)

lemma equivalentReplicatedPolicies_trans:
  "equivalentReplicatedPolicies p q \<Longrightarrow> equivalentReplicatedPolicies q r \<Longrightarrow>
     equivalentReplicatedPolicies p r"
  by (auto simp: equivalentReplicatedPolicies_def intro: map_sem_eq_trans split: if_splits)

section \<open>Canonical dependencies\<close>

text \<open>
  A canonical dependency: a policy is named \<^verbatim>\<open><namespace>.<name>\<close> without a namespace, and
  a policy set is one that does not exist (under the namespace it is looked up in).
\<close>

definition canonical_dep :: "client_reader \<Rightarrow> string \<Rightarrow> PolicyDependency \<Rightarrow> bool" where
  "canonical_dep c ns d \<longleftrightarrow>
     (depIsPolicy d \<longrightarrow> dep_Namespace d = [] \<and> CHR ''.'' \<in> set (dep_Name d)) \<and>
     (depIsPolicySet d \<longrightarrow>
        (dep_Namespace d = [] \<longrightarrow> ns = []) \<and>
        (\<exists>e. Get_PolicySet c (nn (dep_Namespace d) (dep_Name d)) = Inl e \<and> IsNotFound e))"

lemma depIsPolicy_not_set: "depIsPolicy d \<Longrightarrow> \<not> depIsPolicySet d"
  by (simp add: depIsPolicy_def depIsPolicySet_def)

lemma canonicalizeDependency_canonical:
  assumes "canonicalizeDependency c ns d deps = Inr deps'" and "\<forall>x \<in> set deps. canonical_dep c ns x"
  shows "\<forall>x \<in> set deps'. canonical_dep c ns x"
  using assms
  by (auto simp: canonicalizeDependency_def canonical_dep_def Split_ge2 depIsPolicy_def depIsPolicySet_def
      Let_def split: if_splits sum.splits)

lemma canonicalizeDependencies_canonical:
  assumes "canonicalizeDependencies c raw ns = Inr deps" and "d \<in> set deps"
  shows "canonical_dep c ns d"
proof -
  have "\<forall>x \<in> set deps. canonical_dep c ns x"
    by (rule foldE_invariant [OF assms(1) [unfolded canonicalizeDependencies_def]])
       (auto dest!: canonicalizeDependency_canonical)
  with assms(2) show ?thesis by blast
qed

lemma canonicalizeDependency_canonical_dep:
  "canonical_dep c ns d \<Longrightarrow> canonicalizeDependency c ns d deps = Inr (deps @ [d])"
  by (auto simp: canonical_dep_def canonicalizeDependency_def Split_ge2 Let_def)

lemma foldE_canonicalizeDependency:
  "\<forall>d \<in> set ds. canonical_dep c ns d \<Longrightarrow>
     foldE (canonicalizeDependency c ns) ds acc = Inr (acc @ ds)"
  by (induction ds arbitrary: acc) (auto simp: canonicalizeDependency_canonical_dep)

lemma canonicalizeDependencies_id:
  "\<forall>d \<in> set ds. canonical_dep c ns d \<Longrightarrow> canonicalizeDependencies c ds ns = Inr ds"
  by (simp add: canonicalizeDependencies_def foldE_canonicalizeDependency)

text \<open>Only the lookup of a policy set can fail.\<close>

lemma canonicalizeDependencies_total:
  assumes "\<And>d ns'. d \<in> set raw \<Longrightarrow> depIsPolicySet d \<Longrightarrow>
      (case Get_PolicySet c (nn ns' (dep_Name d)) of Inl e \<Rightarrow> IsNotFound e | Inr _ \<Rightarrow> True)"
  shows "\<exists>deps. canonicalizeDependencies c raw ns = Inr deps"
proof -
  have "\<exists>s'. canonicalizeDependency c ns d s = Inr s'" if "d \<in> set raw" for d s
    using assms [OF that, of ns] assms [OF that, of "dep_Namespace d"]
    by (auto simp: canonicalizeDependency_def Let_def split: sum.splits)
  then have "\<exists>s'. foldE (canonicalizeDependency c ns) raw s = Inr s'" for s
  proof (induction raw arbitrary: s)
    case (Cons d raw)
    then obtain s1 where "canonicalizeDependency c ns d s = Inr s1" by (meson list.set_intros(1))
    with Cons show ?case by (auto split: sum.splits)
  qed simp
  then show ?thesis by (simp add: canonicalizeDependencies_def)
qed

lemma canonicalizeTemplates_templates:
  "canonicalizeTemplates c ns ts = Inr ts' \<Longrightarrow>
     map pt_ObjectDefinition ts' = map pt_ObjectDefinition ts \<and>
     (\<forall>t \<in> set ts'. \<forall>d \<in> set (pt_ExtraDependencies t). canonical_dep c ns d)"
  by (induction ts arbitrary: ts')
     (auto split: sum.splits, erule (1) canonicalizeDependencies_canonical)

lemma set_getPolicySetDependencies:
  "set (getPolicySetDependencies root) =
     policyset_id root ` {d. depIsPolicySet d \<and>
        (d \<in> set (ps_Dependencies (p_Spec root)) \<or>
         (\<exists>t \<in> set (ps_PolicyTemplates (p_Spec root)). d \<in> set (pt_ExtraDependencies t)))}"
proof -
  let ?watch = "\<lambda>dep ids. if depIsPolicySet dep then add_key (policyset_id root dep) ids else ids"
  have one: "set (fold ?watch ds ids) = set ids \<union> policyset_id root ` {d \<in> set ds. depIsPolicySet d}" for ds ids
    by (induction ds arbitrary: ids) auto
  have all: "set (fold (\<lambda>t. fold ?watch (pt_ExtraDependencies t)) ts ids) =
      set ids \<union> policyset_id root ` {d. depIsPolicySet d \<and> (\<exists>t \<in> set ts. d \<in> set (pt_ExtraDependencies t))}" for ts ids
    by (induction ts arbitrary: ids) (auto simp: one)
  show ?thesis by (auto simp: getPolicySetDependencies_def Let_def one all)
qed

section \<open>What a replicated policy looks like\<close>

lemma fmlookup_keep_metadata:
  "fmlookup (keep_metadata root m) key =
     (if ps_CopyPolicyMetadata (p_Spec root) = Some False \<and> \<not> HasPrefix key (SchemeGroup @ ''/'')
      then None else fmlookup (raw_map m) key)"
  by (simp add: keep_metadata_def)

lemma framework_labels_prefix [simp]:
  "HasPrefix ClusterNameLabel (SchemeGroup @ ''/'')"
  "HasPrefix ClusterNamespaceLabel (SchemeGroup @ ''/'')"
  "HasPrefix RootPolicyLabel (SchemeGroup @ ''/'')"
  by (simp_all add: HasPrefix_def ClusterNameLabel_def ClusterNamespaceLabel_def RootPolicyLabel_def
      APIGroup_def SchemeGroup_def)

lemma annotation_distinct [simp]:
  "argoCDCompareOptionsAnnotation \<noteq> ManagedClusterUIDAnnotation"
  "ManagedClusterUIDAnnotation \<noteq> argoCDCompareOptionsAnnotation"
  by (simp_all add: argoCDCompareOptionsAnnotation_def ManagedClusterUIDAnnotation_def SchemeGroup_def)

text \<open>The successful branch, taken apart once.\<close>

lemma buildReplicatedPolicy_Inr:
  assumes "fst (buildReplicatedPolicy c root dec) = Inr rep"
  obtains mc deps ts where
    "Get_ManagedCluster c (dec_Cluster dec) = Inr mc" "mc_UID mc \<noteq> []"
    "canonicalizeDependencies c (ps_Dependencies (p_Spec root)) (p_Namespace root) = Inr deps"
    "canonicalizeTemplates c (p_Namespace root) (ps_PolicyTemplates (p_Spec root)) = Inr ts"
    "p_Name rep = FullNameForPolicy root" "p_Namespace rep = dec_Cluster dec"
    "p_Status rep = PolicyStatus_zero"
    "ps_Dependencies (p_Spec rep) = deps" "ps_PolicyTemplates (p_Spec rep) = ts"
    "ps_Disabled (p_Spec rep) = ps_Disabled (p_Spec root)"
    "ps_RemediationAction (p_Spec rep) =
       (if \<not> EqualFold (ps_RemediationAction (p_Spec root)) Enforce \<and>
           bo_RemediationAction (dec_PolicyOverrides dec) \<noteq> []
        then bo_RemediationAction (dec_PolicyOverrides dec) else ps_RemediationAction (p_Spec root))"
    "p_Labels rep = Some (fmupd RootPolicyLabel (FullNameForPolicy root)
                          (fmupd ClusterNamespaceLabel (dec_Cluster dec)
                            (fmupd ClusterNameLabel (dec_Cluster dec) (keep_metadata root (p_Labels root)))))"
    "p_Annotations rep = Some (fmupd ManagedClusterUIDAnnotation (mc_UID mc)
                               (fmupd argoCDCompareOptionsAnnotation ''IgnoreExtraneous''
                                 (keep_metadata root (p_Annotations root))))"
    "p_ResourceVersion rep = []" "om_Finalizers (p_ObjectMeta rep) = []"
    "om_OwnerReferences (p_ObjectMeta rep) = []"
  using assms that
  by (auto simp: buildReplicatedPolicy_def Let_def split: sum.splits if_splits)

lemma buildReplicatedPolicy_root_spec:
  "p_Spec (snd (buildReplicatedPolicy c root dec)) = p_Spec root"
  "p_Name (snd (buildReplicatedPolicy c root dec)) = p_Name root"
  "p_Namespace (snd (buildReplicatedPolicy c root dec)) = p_Namespace root"
  "p_Annotations (snd (buildReplicatedPolicy c root dec)) = p_Annotations root"
  by (auto simp: buildReplicatedPolicy_def Let_def split: sum.splits)

lemma buildReplicatedPolicy_root_labels:
  "fst (buildReplicatedPolicy c root dec) = Inr rep \<Longrightarrow>
     p_Labels (snd (buildReplicatedPolicy c root dec)) =
       (if p_Labels root = None then None else p_Labels rep)"
  by (auto simp: buildReplicatedPolicy_def Let_def split: sum.splits if_splits)

text \<open>A replicated policy maps back to its root.\<close>

lemma buildReplicatedPolicy_MapToRootPolicy:
  assumes "fst (buildReplicatedPolicy c root dec) = Inr rep" and "CHR ''.'' \<notin> set (p_Namespace root)"
  shows "MapToRootPolicy c (p_ObjectMeta rep) = [nn (p_Namespace root) (p_Name root)]"
    and "IsReplicatedPolicy c (p_ObjectMeta rep) = Inr True"
proof -
  obtain mc where mc: "Get_ManagedCluster c (p_Namespace rep) = Inr mc"
    and l: "map_index (p_Labels rep) RootPolicyLabel = p_Namespace root @ ''.'' @ p_Name root"
    using assms(1) by (rule buildReplicatedPolicy_Inr) (auto simp: FullNameForPolicy_def)
  show rep: "IsReplicatedPolicy c (p_ObjectMeta rep) = Inr True"
    using l mc ParseRootPolicyLabel_append [OF assms(2)]
    by (simp add: IsReplicatedPolicy_def IsInClusterNamespace_def)
  show "MapToRootPolicy c (p_ObjectMeta rep) = [nn (p_Namespace root) (p_Name root)]"
    using l rep ParseRootPolicyLabel_append [OF assms(2)] by (simp add: MapToRootPolicy_def)
qed

section \<open>Properties\<close>



text \<open>C12. A replicated policy is recognised as one and maps back to the root policy it was built from,
  so a status change on a managed cluster reaches the right root policy.\<close>

theorem replica_maps_to_root:
  assumes "fst (buildReplicatedPolicy c root dec) = Inr rep" and "CHR ''.'' \<notin> set (p_Namespace root)"
  shows "MapToRootPolicy c (p_ObjectMeta rep) = [nn (p_Namespace root) (p_Name root)] \<and>
    IsReplicatedPolicy c (p_ObjectMeta rep) = Inr True \<and>
    \<not> rootPolicy_CreateFunc (p_ObjectMeta rep)"
  using buildReplicatedPolicy_MapToRootPolicy [OF assms] assms(1)
  by (auto simp: rootPolicy_CreateFunc_def elim!: buildReplicatedPolicy_Inr)

theorem replica_maps_to_root_witness:
  "\<exists>rep. fst (buildReplicatedPolicy ex_reader ex_root
       \<lparr>dec_Cluster = ''c1'', dec_PolicyOverrides = \<lparr>bo_RemediationAction = []\<rparr>\<rparr>) = Inr rep \<and>
     MapToRootPolicy ex_reader (p_ObjectMeta rep) = [nn ''ns'' ''p'']"
proof -
  let ?dec = "\<lparr>dec_Cluster = ''c1'', dec_PolicyOverrides = \<lparr>bo_RemediationAction = []\<rparr>\<rparr>"
  obtain rep where r: "fst (buildReplicatedPolicy ex_reader ex_root ?dec) = Inr rep"
    by (simp add: buildReplicatedPolicy_def canonicalizeDependencies_def ex_reader_def ex_objects Let_def)
  have "CHR ''.'' \<notin> set (p_Namespace ex_root)" by (simp add: ex_objects)
  from replica_maps_to_root [OF r this] r show ?thesis by (simp add: ex_objects)
qed

text \<open>The canonical form of dependencies: a dependency on a policy is named
  \<^verbatim>\<open><namespace>.<name>\<close> without a namespace, a dependency on a policy set is left only when the set does
  not exist, and putting the result into canonical form again changes nothing.\<close>

theorem dependencies_canonical:
  assumes "canonicalizeDependencies c raw ns = Inr deps"
  shows "(\<forall>d \<in> set deps. depIsPolicy d \<longrightarrow> dep_Namespace d = [] \<and> CHR ''.'' \<in> set (dep_Name d)) \<and>
    (\<forall>d \<in> set deps. depIsPolicySet d \<longrightarrow>
       (\<exists>e. Get_PolicySet c (nn (dep_Namespace d) (dep_Name d)) = Inl e \<and> IsNotFound e)) \<and>
    canonicalizeDependencies c deps ns = Inr deps"
proof -
  have ok: "\<forall>d \<in> set deps. canonical_dep c ns d"
    using canonicalizeDependencies_canonical [OF assms] by blast
  with canonicalizeDependencies_id [OF ok] show ?thesis by (auto simp: canonical_dep_def)
qed

theorem dependencies_canonical_witness:
  "canonicalizeDependencies ex_reader
     [\<lparr>dep_TypeMeta = \<lparr>tm_Kind = PolicyKind, tm_APIVersion = PolicyGroupVersion\<rparr>, dep_Name = ''ns.p'',
       dep_Namespace = [], dep_Compliance = Compliant\<rparr>] ''ns'' =
   Inr [\<lparr>dep_TypeMeta = \<lparr>tm_Kind = PolicyKind, tm_APIVersion = PolicyGroupVersion\<rparr>, dep_Name = ''ns.p'',
       dep_Namespace = [], dep_Compliance = Compliant\<rparr>]"
proof -
  have "canonicalizeDependencies ex_reader
     [\<lparr>dep_TypeMeta = \<lparr>tm_Kind = PolicySetKind, tm_APIVersion = PolicySetGroupVersion\<rparr>, dep_Name = ''s'',
       dep_Namespace = [], dep_Compliance = Compliant\<rparr>] ''ns'' =
     Inr [\<lparr>dep_TypeMeta = \<lparr>tm_Kind = PolicyKind, tm_APIVersion = PolicyGroupVersion\<rparr>, dep_Name = ''ns.p'',
       dep_Namespace = [], dep_Compliance = Compliant\<rparr>]"
    by (simp add: canonicalizeDependencies_def canonicalizeDependency_def depIsPolicySet_def ex_reader_def
        ex_set_def Let_def)
  from dependencies_canonical [OF this] show ?thesis by simp
qed

end
