(* ===== verification/Resource_Versions.thy ===== *)
theory Resource_Versions
  imports Kube_Client
begin

text \<open>
  The \<^verbatim>\<open>ResourceVersions\<close> cache of \<^verbatim>\<open>replicatedpolicy_setup.go\<close> and
  \<^verbatim>\<open>replicatedpolicy_controller.go\<close>: for each replicated policy the resource version the
  reconciler wrote last, or a tombstone \<^verbatim>\<open>deleted-<version>\<close>. The cache is a map from
  \<^verbatim>\<open><namespace>/<name>\<close> to the version; every entry is read and written under its own lock
  and one key is reconciled by one worker at a time, so operations on a key happen one after the
  other; \<open>Version_Locks\<close> shows it. \<open>version_cache\<close> is the contract the reconciler relies on.
\<close>

section \<open>The cache\<close>

type_synonym versions = "(string, string) fmap"

definition rsrcVersKey :: "string \<Rightarrow> string \<Rightarrow> string" where
  "rsrcVersKey namespace name = namespace @ ''/'' @ name"

text \<open>The version, whether the key was present, and the cache, which gets an empty entry on a miss.\<close>

definition safeReadLoad :: "versions \<Rightarrow> string \<Rightarrow> (string \<times> bool) \<times> versions" where
  "safeReadLoad resourceVersions key =
     (case fmlookup resourceVersions key of
        Some version \<Rightarrow> ((version, True), resourceVersions)
      | None \<Rightarrow> (([], False), fmupd key [] resourceVersions))"

definition safeWriteLoad :: "versions \<Rightarrow> string \<Rightarrow> string \<times> versions" where
  "safeWriteLoad resourceVersions key =
     (case fmlookup resourceVersions key of
        Some version \<Rightarrow> (version, resourceVersions)
      | None \<Rightarrow> ([], fmupd key [] resourceVersions))"

text \<open>\<^verbatim>\<open>version.resourceVersion = v\<close> on the entry that was loaded for writing.\<close>

definition set_version :: "versions \<Rightarrow> string \<Rightarrow> string \<Rightarrow> versions" where
  "set_version resourceVersions key v = fmupd key v (snd (safeWriteLoad resourceVersions key))"

definition deletedMarker :: "string \<Rightarrow> string" where
  "deletedMarker resourceVersion = ''deleted-'' @ resourceVersion"

definition cachedReplicatedPolicyIsStale :: "versions \<Rightarrow> string \<Rightarrow> string \<Rightarrow> bool \<times> versions" where
  "cachedReplicatedPolicyIsStale resourceVersions key cachedResourceVersion =
     (case safeReadLoad resourceVersions key of
        ((version, loaded), resourceVersions') \<Rightarrow>
          (loaded \<and> version = deletedMarker cachedResourceVersion, resourceVersions'))"

text \<open>A duration in nanoseconds, and what a reconcile returns.\<close>

type_synonym Duration = int

definition Second :: Duration where
  "Second = 1000000000"

definition requeueTombstone :: Duration where
  "requeueTombstone = Second * 5"

record ReconcileResult =
  rr_RequeueAfter :: Duration

definition Result_zero :: ReconcileResult where
  "Result_zero = \<lparr>rr_RequeueAfter = 0\<rparr>"

definition recordDeleted :: "versions \<Rightarrow> string \<Rightarrow> bool \<Rightarrow> ReconcileResult \<times> versions" where
  "recordDeleted resourceVersions key staleCache =
     (if staleCache then (\<lparr>rr_RequeueAfter = requeueTombstone\<rparr>, resourceVersions)
      else (Result_zero, fmdrop key resourceVersions))"

section \<open>The event predicates\<close>

definition replicated_CreateFunc :: "versions \<Rightarrow> ObjectMeta \<Rightarrow> bool \<times> versions" where
  "replicated_CreateFunc resourceVersions object =
     (if \<not> map_has (om_Labels object) RootPolicyLabel then (False, resourceVersions)
      else
        case safeReadLoad resourceVersions (rsrcVersKey (om_Namespace object) (om_Name object)) of
          ((version, loaded), resourceVersions') \<Rightarrow>
            (\<not> loaded \<or> version \<noteq> om_ResourceVersion object, resourceVersions'))"

definition replicated_DeleteFunc :: "versions \<Rightarrow> ObjectMeta \<Rightarrow> bool \<times> versions" where
  "replicated_DeleteFunc resourceVersions object =
     (if \<not> map_has (om_Labels object) RootPolicyLabel then (False, resourceVersions)
      else
        case safeReadLoad resourceVersions (rsrcVersKey (om_Namespace object) (om_Name object)) of
          ((version, loaded), resourceVersions') \<Rightarrow>
            (\<not> loaded \<or> \<not> HasPrefix version ''deleted'', resourceVersions'))"

definition replicated_UpdateFunc ::
  "versions \<Rightarrow> ObjectMeta \<Rightarrow> ObjectMeta \<Rightarrow> bool \<times> versions" where
  "replicated_UpdateFunc resourceVersions objectOld objectNew =
     (if \<not> map_has (om_Labels objectOld) RootPolicyLabel \<and> \<not> map_has (om_Labels objectNew) RootPolicyLabel
      then (False, resourceVersions)
      else
        case safeReadLoad resourceVersions (rsrcVersKey (om_Namespace objectNew) (om_Name objectNew)) of
          ((version, loaded), resourceVersions') \<Rightarrow>
            if loaded \<and> version = om_ResourceVersion objectNew then (False, resourceVersions')
            else
              (om_Generation objectOld \<noteq> om_Generation objectNew \<or>
               \<not> map_sem_eq (om_Labels objectOld) (om_Labels objectNew) \<or>
               \<not> map_sem_eq (om_Annotations objectOld) (om_Annotations objectNew), resourceVersions'))"

definition managedCluster_UpdateFunc :: "ManagedCluster \<Rightarrow> ManagedCluster \<Rightarrow> bool" where
  "managedCluster_UpdateFunc objectOld objectNew = (mc_UID objectOld \<noteq> mc_UID objectNew)"

section \<open>Lookup lemmas\<close>

lemma snd_safeReadLoad: "snd (safeReadLoad vs key) = snd (safeWriteLoad vs key)"
  by (simp add: safeReadLoad_def safeWriteLoad_def split: option.splits)

lemma fmlookup_set_version [simp]:
  "fmlookup (set_version vs key v) k = (if k = key then Some v else fmlookup vs k)"
  by (simp add: set_version_def safeWriteLoad_def split: option.splits)

lemma fmlookup_safeReadLoad:
  "fmlookup (snd (safeReadLoad vs key)) k =
     (if k = key \<and> fmlookup vs k = None then Some [] else fmlookup vs k)"
  by (auto simp: safeReadLoad_def split: option.splits)

lemma stale_iff:
  "fst (cachedReplicatedPolicyIsStale vs key rv) \<longleftrightarrow> fmlookup vs key = Some (deletedMarker rv)"
  by (simp add: cachedReplicatedPolicyIsStale_def safeReadLoad_def split: option.splits)

lemma deletedMarker_inj [simp]: "deletedMarker a = deletedMarker b \<longleftrightarrow> a = b"
  by (simp add: deletedMarker_def)

lemma deletedMarker_prefix [simp]: "HasPrefix (deletedMarker rv) ''deleted''"
  by (simp add: deletedMarker_def HasPrefix_def)

lemma deletedMarker_not_Nil [simp]: "deletedMarker rv \<noteq> []" "[] \<noteq> deletedMarker rv"
  by (simp_all add: deletedMarker_def)

lemma snd_stale:
  "snd (cachedReplicatedPolicyIsStale vs key rv) = snd (safeReadLoad vs key)"
  by (simp add: cachedReplicatedPolicyIsStale_def split: prod.splits)

lemma recordDeleted_stale [simp]: "snd (recordDeleted vs key True) = vs"
  by (simp add: recordDeleted_def)

lemma recordDeleted_fresh [simp]: "snd (recordDeleted vs key False) = fmdrop key vs"
  by (simp add: recordDeleted_def)

section \<open>The contract\<close>

text \<open>
  A cache of versions: a tombstone makes exactly the deleted version stale, recording a live
  version or clearing the key makes nothing stale, and reading changes no answer.
\<close>

locale version_cache =
  fixes stale :: "'s \<Rightarrow> string \<Rightarrow> string \<Rightarrow> bool"
    and read :: "'s \<Rightarrow> string \<Rightarrow> 's"
    and mark :: "'s \<Rightarrow> string \<Rightarrow> string \<Rightarrow> 's"
    and live :: "'s \<Rightarrow> string \<Rightarrow> string \<Rightarrow> 's"
    and clear :: "'s \<Rightarrow> string \<Rightarrow> 's"
  assumes stale_read: "stale (read s k) k' rv \<longleftrightarrow> stale s k' rv"
    and stale_mark: "stale (mark s k rv) k' rv' \<longleftrightarrow> (if k' = k then rv' = rv else stale s k' rv')"
    and stale_live: "\<not> HasPrefix rv ''deleted'' \<Longrightarrow>
          stale (live s k rv) k' rv' \<longleftrightarrow> k' \<noteq> k \<and> stale s k' rv'"
    and stale_clear: "stale (clear s k) k' rv' \<longleftrightarrow> k' \<noteq> k \<and> stale s k' rv'"
begin

lemma reads_keep_stale: "stale (fold (\<lambda>k s. read s k) ks s) k' rv \<longleftrightarrow> stale s k' rv"
  by (induction ks arbitrary: s) (simp_all add: stale_read)

text \<open>The tombstone stays until the key is written or cleared, and catches only its version.\<close>

lemma tombstone_survives_reads:
  "stale (fold (\<lambda>k s. read s k) ks (mark s k rv)) k rv' \<longleftrightarrow> rv' = rv"
  by (simp add: reads_keep_stale stale_mark)

lemma recreated_not_stale:
  "\<not> HasPrefix rv' ''deleted'' \<Longrightarrow> \<not> stale (live (mark s k rv) k rv') k rv''"
  by (simp add: stale_live)

lemma cleared_not_stale: "\<not> stale (clear (mark s k rv) k) k rv'"
  by (simp add: stale_clear)

lemma other_keys: "k' \<noteq> k \<Longrightarrow> stale (mark s k rv) k' rv' \<longleftrightarrow> stale s k' rv'"
  by (simp add: stale_mark)

end

interpretation rsrc: version_cache
  "\<lambda>vs key rv. fst (cachedReplicatedPolicyIsStale vs key rv)"
  "\<lambda>vs key. snd (safeReadLoad vs key)"
  "\<lambda>vs key rv. set_version vs key (deletedMarker rv)"
  set_version
  "\<lambda>vs key. snd (recordDeleted vs key False)"
proof unfold_locales
  fix s :: versions and k k' rv rv' :: string
  show "fst (cachedReplicatedPolicyIsStale (snd (safeReadLoad s k)) k' rv) \<longleftrightarrow>
      fst (cachedReplicatedPolicyIsStale s k' rv)"
    by (auto simp: stale_iff fmlookup_safeReadLoad)
  show "fst (cachedReplicatedPolicyIsStale (set_version s k (deletedMarker rv)) k' rv') \<longleftrightarrow>
      (if k' = k then rv' = rv else fst (cachedReplicatedPolicyIsStale s k' rv'))"
    by (auto simp: stale_iff)
  show "fst (cachedReplicatedPolicyIsStale (snd (recordDeleted s k False)) k' rv') \<longleftrightarrow>
      k' \<noteq> k \<and> fst (cachedReplicatedPolicyIsStale s k' rv')"
    by (auto simp: stale_iff)
  show "fst (cachedReplicatedPolicyIsStale (set_version s k rv) k' rv') \<longleftrightarrow>
      k' \<noteq> k \<and> fst (cachedReplicatedPolicyIsStale s k' rv')" if "\<not> HasPrefix rv ''deleted''"
    using that deletedMarker_prefix [of rv'] by (auto simp: stale_iff)
qed

section \<open>Which events reach the reconciler\<close>

lemma CreateFunc_iff:
  "fst (replicated_CreateFunc vs obj) \<longleftrightarrow>
     map_has (om_Labels obj) RootPolicyLabel \<and>
     fmlookup vs (rsrcVersKey (om_Namespace obj) (om_Name obj)) \<noteq> Some (om_ResourceVersion obj)"
  by (auto simp: replicated_CreateFunc_def safeReadLoad_def split: option.splits)

lemma DeleteFunc_iff:
  "fst (replicated_DeleteFunc vs obj) \<longleftrightarrow>
     map_has (om_Labels obj) RootPolicyLabel \<and>
     \<not> (\<exists>v. fmlookup vs (rsrcVersKey (om_Namespace obj) (om_Name obj)) = Some v \<and> HasPrefix v ''deleted'')"
  by (auto simp: replicated_DeleteFunc_def safeReadLoad_def split: option.splits)

lemma UpdateFunc_iff:
  "fst (replicated_UpdateFunc vs old new) \<longleftrightarrow>
     (map_has (om_Labels old) RootPolicyLabel \<or> map_has (om_Labels new) RootPolicyLabel) \<and>
     fmlookup vs (rsrcVersKey (om_Namespace new) (om_Name new)) \<noteq> Some (om_ResourceVersion new) \<and>
     (om_Generation old \<noteq> om_Generation new \<or> \<not> map_sem_eq (om_Labels old) (om_Labels new) \<or>
      \<not> map_sem_eq (om_Annotations old) (om_Annotations new))"
  by (auto simp: replicated_UpdateFunc_def safeReadLoad_def split: option.splits)

end
