(* ===== verification/Root_Reconcile.thy ===== *)
theory Root_Reconcile
  imports Root_Status Resource_Versions
begin

text \<open>
  The root policy reconciler (\<^verbatim>\<open>rootpolicy_controller.go\<close>, the first part of
  \<^verbatim>\<open>propagation.go\<close>), the root status reconciler
  (\<^verbatim>\<open>root_policy_status_controller.go\<close>) and the reconciler of managed clusters
  (\<^verbatim>\<open>replicatedpolicy_setup.go\<close>). They steer the replicated policy reconciler through the
  channel \<^verbatim>\<open>ReplicatedPolicyUpdates\<close>. A reconcile holds the root policy's lock from its first
  to its last statement, so it is one function over the state.
\<close>

section \<open>The state of the hub\<close>

datatype GenericEvent =
    GuttedEvent GuttedObject
  | PolicyEvent Policy

text \<open>
  The outside world, the events sent to the channel in order, the events recorded on objects and
  the labels with which \<^verbatim>\<open>propagationFailureMetric\<close> was incremented.
\<close>

record 'k hub =
  hub_world :: 'k
  hub_updates :: "GenericEvent list"
  hub_events :: "string list"
  hub_failures :: "(string \<times> string) list"

definition send :: "GenericEvent list \<Rightarrow> 'k hub \<Rightarrow> 'k hub" where
  "send es h = h\<lparr>hub_updates := hub_updates h @ es\<rparr>"

definition gutted :: "TypeMeta \<Rightarrow> string \<Rightarrow> string \<Rightarrow> GenericEvent" where
  "gutted tm name namespace =
     GuttedEvent \<lparr>go_TypeMeta = tm,
       go_ObjectMeta = ObjectMeta_zero\<lparr>om_Name := name, om_Namespace := namespace\<rparr>\<rparr>"

definition policy_type :: TypeMeta where
  "policy_type = \<lparr>tm_Kind = PolicyKind, tm_APIVersion = PolicyGroupVersion\<rparr>"

text \<open>The request the channel's source enqueues for an event.\<close>

fun event_request :: "GenericEvent \<Rightarrow> Request" where
  "event_request (GuttedEvent g) = nn (om_Namespace (go_ObjectMeta g)) (om_Name (go_ObjectMeta g))"
| "event_request (PolicyEvent p) = nn (p_Namespace p) (p_Name p)"

section \<open>Root policies\<close>

definition updateExistingReplicas ::
  "'k api \<Rightarrow> string \<Rightarrow> 'k hub \<Rightarrow> (goerr + nat) \<times> 'k hub" where
  "updateExistingReplicas a rootPolicyFullName h =
     (case List_Policies (api_read a (hub_world h)) [MatchingLabels RootPolicyLabel rootPolicyFullName] of
        Inl e \<Rightarrow> if \<not> IsNotFound e then (Inl e, h) else (Inr 0, h)
      | Inr policies \<Rightarrow>
          (Inr (length policies),
           send (map (\<lambda>replicated.
                   gutted (p_TypeMeta replicated) (p_Name replicated) (p_Namespace replicated)) policies) h))"

definition cleanUpOrphanedRplPolicies ::
  "Policy \<Rightarrow> CompliancePerClusterStatus list \<Rightarrow> DecisionSet \<Rightarrow> 'k hub \<Rightarrow> 'k hub" where
  "cleanUpOrphanedRplPolicies inst originalCPCS allDecisions h =
     fold (\<lambda>cluster h.
             if 0 < length (bindings_of allDecisions (cs_ClusterName cluster)) then h
             else send [gutted policy_type (FullNameForPolicy inst) (cs_ClusterName cluster)] h)
       originalCPCS h"

definition handleRootPolicy :: "'k api \<Rightarrow> Policy \<Rightarrow> 'k hub \<Rightarrow> goerr option \<times> 'k hub" where
  "handleRootPolicy a inst h =
     (let (cleanup, h) =
            (if ps_Disabled (p_Spec inst) then
               (case updateExistingReplicas a (p_Namespace inst @ ''.'' @ p_Name inst) h of
                  (Inl e, h) \<Rightarrow> (Some e, h)
                | (Inr updateCount, h) \<Rightarrow>
                    (None,
                     if 0 < updateCount
                     then h\<lparr>hub_events := hub_events h @
                            [''Policy '' @ p_Namespace inst @ ''/'' @ p_Name inst @ '' was disabled'']\<rparr>
                     else h))
             else (None, h))
      in case cleanup of
           Some e \<Rightarrow> (Some e, h)
         | None \<Rightarrow>
             let originalCPCS = items (st_Status (p_Status inst)) in
             (case RootStatusUpdate a inst (hub_world h) of
                (Inl e, _, k) \<Rightarrow> (Some e, h\<lparr>hub_world := k\<rparr>)
              | (Inr decisions, inst', k) \<Rightarrow>
                  let h = send (map (\<lambda>(decision, _).
                            gutted policy_type (FullNameForPolicy inst') decision) decisions)
                          (h\<lparr>hub_world := k\<rparr>)
                  in (None, cleanUpOrphanedRplPolicies inst' originalCPCS decisions h)))"

definition RootPolicy_Reconcile ::
  "'k api \<Rightarrow> Request \<Rightarrow> 'k hub \<Rightarrow> (ReconcileResult \<times> goerr option) \<times> 'k hub" where
  "RootPolicy_Reconcile a request h =
     (let c = api_read a (hub_world h) in
      case Get_Policy c request of
        Inl e \<Rightarrow>
          if IsNotFound e then
            (case updateExistingReplicas a (nn_Namespace request @ ''.'' @ nn_Name request) h of
               (Inl e, h) \<Rightarrow> ((Result_zero, Some e), h)
             | (Inr _, h) \<Rightarrow> ((Result_zero, None), h))
          else ((Result_zero, Some e), h)
      | Inr inst \<Rightarrow>
          (case IsInClusterNamespace c (p_Namespace inst) of
             Inl e \<Rightarrow> ((Result_zero, Some e), h)
           | Inr inClusterNs \<Rightarrow>
               if \<not> inClusterNs then
                 (case handleRootPolicy a inst h of
                    (Some e, h) \<Rightarrow>
                      ((Result_zero, Some e),
                       h\<lparr>hub_failures := hub_failures h @ [(p_Name inst, p_Namespace inst)]\<rparr>)
                  | (None, h) \<Rightarrow> ((Result_zero, None), h))
               else
                 (case Delete_Policy a inst (hub_world h) of
                    (Some e, k) \<Rightarrow>
                      ((Result_zero, if \<not> IsNotFound e then Some e else None), h\<lparr>hub_world := k\<rparr>)
                  | (None, k) \<Rightarrow> ((Result_zero, None), h\<lparr>hub_world := k\<rparr>))))"

section \<open>Root policy status\<close>

definition RootPolicyStatus_Reconcile ::
  "'k api \<Rightarrow> Request \<Rightarrow> 'k hub \<Rightarrow> (ReconcileResult \<times> goerr option) \<times> 'k hub" where
  "RootPolicyStatus_Reconcile a request h =
     (case Get_Policy (api_read a (hub_world h)) request of
        Inl e \<Rightarrow> ((Result_zero, if IsNotFound e then None else Some e), h)
      | Inr rootPolicy \<Rightarrow>
          if map_has (p_Labels rootPolicy) RootPolicyLabel then ((Result_zero, None), h)
          else
            (case RootStatusUpdate a rootPolicy (hub_world h) of
               (Inl e, _, k) \<Rightarrow> ((Result_zero, Some e), h\<lparr>hub_world := k\<rparr>)
             | (Inr _, _, k) \<Rightarrow> ((Result_zero, None), h\<lparr>hub_world := k\<rparr>)))"

section \<open>Managed clusters\<close>

definition ManagedClusterPolicy_Reconcile ::
  "'k api \<Rightarrow> string \<Rightarrow> 'k hub \<Rightarrow> (ReconcileResult \<times> goerr option) \<times> 'k hub" where
  "ManagedClusterPolicy_Reconcile a requestName h =
     (case List_Policies (api_read a (hub_world h)) [InNamespace requestName] of
        Inl e \<Rightarrow> ((Result_zero, Some e), h)
      | Inr policies \<Rightarrow>
          ((Result_zero, None),
           send (map (\<lambda>policy. gutted policy_type (p_Name policy) (p_Namespace policy))
                   (filter (\<lambda>policy. map_has (p_Labels policy) RootPolicyLabel) policies)) h))"

section \<open>Lemmas\<close>

lemma event_request_gutted [simp]: "event_request (gutted tm name ns) = nn ns name"
  by (simp add: gutted_def)

lemma hub_updates_send [simp]: "hub_updates (send es h) = hub_updates h @ es"
  by (simp add: send_def)

lemma hub_send_other [simp]:
  "hub_world (send es h) = hub_world h" "hub_events (send es h) = hub_events h"
  "hub_failures (send es h) = hub_failures h"
  by (simp_all add: send_def)

lemma cleanUpOrphaned_updates:
  "hub_updates (cleanUpOrphanedRplPolicies inst cpcs d h) = hub_updates h @
     map (\<lambda>s. gutted policy_type (FullNameForPolicy inst) (cs_ClusterName s))
       (filter (\<lambda>s. bindings_of d (cs_ClusterName s) = []) cpcs)"
  "hub_world (cleanUpOrphanedRplPolicies inst cpcs d h) = hub_world h"
proof -
  have "hub_updates (cleanUpOrphanedRplPolicies inst cpcs d h) = hub_updates h @
     map (\<lambda>s. gutted policy_type (FullNameForPolicy inst) (cs_ClusterName s))
       (filter (\<lambda>s. bindings_of d (cs_ClusterName s) = []) cpcs) \<and>
     hub_world (cleanUpOrphanedRplPolicies inst cpcs d h) = hub_world h"
    unfolding cleanUpOrphanedRplPolicies_def by (induction cpcs arbitrary: h) auto
  then show "hub_updates (cleanUpOrphanedRplPolicies inst cpcs d h) = hub_updates h @
     map (\<lambda>s. gutted policy_type (FullNameForPolicy inst) (cs_ClusterName s))
       (filter (\<lambda>s. bindings_of d (cs_ClusterName s) = []) cpcs)"
    "hub_world (cleanUpOrphanedRplPolicies inst cpcs d h) = hub_world h" by blast+
qed

text \<open>The policy behind the pointer keeps its name when the client answers with that name.\<close>

definition gets_policies_by_name :: "client_reader \<Rightarrow> bool" where
  "gets_policies_by_name c \<longleftrightarrow>
     (\<forall>k p. Get_Policy c k = Inr p \<longrightarrow> p_Name p = nn_Name k \<and> p_Namespace p = nn_Namespace k)"

lemma RootStatusUpdate_key:
  assumes "RootStatusUpdate a p k = (r, p', k')" and "gets_policies_by_name (api_read a k)"
  shows "p_Name p' = p_Name p" and "p_Namespace p' = p_Namespace p"
  using assms
  by (auto simp: RootStatusUpdate_def gets_policies_by_name_def Let_def
      split: sum.splits prod.splits if_splits option.splits)

lemma RootStatusUpdate_name:
  assumes "RootStatusUpdate a p k = (r, p', k')" and "gets_policies_by_name (api_read a k)"
  shows "FullNameForPolicy p' = FullNameForPolicy p"
  using RootStatusUpdate_key [OF assms] by (simp add: FullNameForPolicy_def)

lemma RootStatusUpdate_decisions:
  assumes "RootStatusUpdate a p k = (Inr d, p', k')"
  shows "\<exists>pls. GetClusterDecisions (api_read a k) p = Inr (pls, d)"
  using assms
  by (auto simp: RootStatusUpdate_def Let_def split: sum.splits prod.splits if_splits option.splits)

text \<open>
  The requests that handling an enabled root policy sends: one for every cluster that a binding
  decides, and one for every cluster of the old status that no binding decides any more.
\<close>

lemma handleRootPolicy_enabled:
  assumes "handleRootPolicy a inst h = (None, h')" and "\<not> ps_Disabled (p_Spec inst)"
    and "gets_policies_by_name (api_read a (hub_world h))"
  obtains pls d where "GetClusterDecisions (api_read a (hub_world h)) inst = Inr (pls, d)"
    "map event_request (hub_updates h') = map event_request (hub_updates h) @
       map (\<lambda>cl. nn cl (FullNameForPolicy inst)) (map fst d) @
       map (\<lambda>cl. nn cl (FullNameForPolicy inst))
         (filter (\<lambda>cl. bindings_of d cl = []) (map cs_ClusterName (items (st_Status (p_Status inst)))))"
proof -
  from assms(1,2) obtain d p' k' where
    u: "RootStatusUpdate a inst (hub_world h) = (Inr d, p', k')" and
    h': "h' = cleanUpOrphanedRplPolicies p' (items (st_Status (p_Status inst))) d
          (send (map (\<lambda>(cl, _). gutted policy_type (FullNameForPolicy p') cl) d) (h\<lparr>hub_world := k'\<rparr>))"
    by (auto simp: handleRootPolicy_def Let_def split: prod.splits sum.splits)
  obtain pls where g: "GetClusterDecisions (api_read a (hub_world h)) inst = Inr (pls, d)"
    using RootStatusUpdate_decisions [OF u] by blast
  have "map event_request (hub_updates h') = map event_request (hub_updates h) @
       map (\<lambda>cl. nn cl (FullNameForPolicy inst)) (map fst d) @
       map (\<lambda>cl. nn cl (FullNameForPolicy inst))
         (filter (\<lambda>cl. bindings_of d cl = []) (map cs_ClusterName (items (st_Status (p_Status inst)))))"
    by (simp add: h' cleanUpOrphaned_updates RootStatusUpdate_name [OF u assms(3)] comp_def split_def filter_map)
  with g that show ?thesis by blast
qed

lemma handled_requests:
  assumes "handleRootPolicy a inst h = (None, h')" and "\<not> ps_Disabled (p_Spec inst)"
    and "gets_policies_by_name (api_read a (hub_world h))" and "hub_updates h = []"
    and "List_PlacementBindings (api_read a (hub_world h)) [InNamespace (p_Namespace inst)] = Inr pbs"
  obtains pls d where "GetClusterDecisions (api_read a (hub_world h)) inst = Inr (pls, d)"
    and "event_request ` set (hub_updates h') = (\<lambda>cl. nn cl (FullNameForPolicy inst)) `
      (decided d \<union> cs_ClusterName ` set (items (st_Status (p_Status inst))))"
  using assms(1-3)
proof (rule handleRootPolicy_enabled)
  fix pls d
  assume g: "GetClusterDecisions (api_read a (hub_world h)) inst = Inr (pls, d)"
    and u: "map event_request (hub_updates h') = map event_request (hub_updates h) @
       map (\<lambda>cl. nn cl (FullNameForPolicy inst)) (map fst d) @
       map (\<lambda>cl. nn cl (FullNameForPolicy inst))
         (filter (\<lambda>cl. bindings_of d cl = []) (map cs_ClusterName (items (st_Status (p_Status inst)))))"
  have "bindings_of d cl = [] \<longleftrightarrow> cl \<notin> decided d" for cl
    using wf_bindings_of [OF GetClusterDecisions_result(1) [OF g assms(5)], of cl] by blast
  then have "set (map event_request (hub_updates h')) = (\<lambda>cl. nn cl (FullNameForPolicy inst)) `
        (decided d \<union> cs_ClusterName ` set (items (st_Status (p_Status inst))))"
    unfolding u using assms(4) by (auto simp: decided_def)
  then show thesis using that [OF g] by simp
qed

section \<open>Properties\<close>

text \<open>C7. Handling an enabled root policy sends a request to the replicated policy reconciler for exactly
  the clusters that some binding decides and the clusters that the policy's status listed before, so
  a replica is revisited both where it should appear and where it should disappear.\<close>

theorem root_requests_complete:
  assumes "handleRootPolicy a inst h = (None, h')" and "\<not> ps_Disabled (p_Spec inst)"
    and "gets_policies_by_name (api_read a (hub_world h))" and "hub_updates h = []"
    and "List_PlacementBindings (api_read a (hub_world h)) [InNamespace (p_Namespace inst)] = Inr pbs"
  shows "event_request ` set (hub_updates h') =
    (\<lambda>cl. nn cl (FullNameForPolicy inst)) `
      ({cl. \<exists>pb \<in> set pbs. cl \<in> set (policy_decisions (api_read a (hub_world h)) inst pb)} \<union>
       cs_ClusterName ` set (items (st_Status (p_Status inst))))"
proof -
  obtain pls d where g: "GetClusterDecisions (api_read a (hub_world h)) inst = Inr (pls, d)"
    and u: "event_request ` set (hub_updates h') = (\<lambda>cl. nn cl (FullNameForPolicy inst)) `
      (decided d \<union> cs_ClusterName ` set (items (st_Status (p_Status inst))))"
    by (rule handled_requests [OF assms])
  have "decided d = {cl. \<exists>pb \<in> set pbs. cl \<in> set (policy_decisions (api_read a (hub_world h)) inst pb)}"
    using GetClusterDecisions_result(3) [OF g assms(5)] by blast
  with u show ?thesis by simp
qed

theorem root_requests_complete_witness:
  "\<exists>h'. handleRootPolicy (ex_api (ex_reader\<lparr>List_PlacementBindings := \<lambda>_. Inr []\<rparr>))
       (ex_root\<lparr>p_Status := PolicyStatus_zero\<lparr>st_Status := Some [\<lparr>cs_ComplianceState = [], cs_ClusterName = ''c1'',
          cs_ClusterNamespace = ''c1'', cs_RemainingBindings = []\<rparr>]\<rparr>\<rparr>)
       \<lparr>hub_world = [], hub_updates = [], hub_events = [], hub_failures = []\<rparr> = (None, h') \<and>
     event_request ` set (hub_updates h') = {nn ''c1'' ''ns.p''}"
proof -
  let ?c = "ex_reader\<lparr>List_PlacementBindings := \<lambda>_. Inr []\<rparr>"
  let ?root = "ex_root\<lparr>p_Status := PolicyStatus_zero\<lparr>st_Status := Some [\<lparr>cs_ComplianceState = [],
      cs_ClusterName = ''c1'', cs_ClusterNamespace = ''c1'', cs_RemainingBindings = []\<rparr>]\<rparr>\<rparr>"
  let ?h = "\<lparr>hub_world = [], hub_updates = [], hub_events = [], hub_failures = []\<rparr> :: ex_write list hub"
  obtain h' where h': "handleRootPolicy (ex_api ?c) ?root ?h = (None, h')"
    by (simp add: handleRootPolicy_def RootStatusUpdate_def GetClusterDecisions_def sortDecisionSet_def
        CalculatePerClusterStatus_def CalculateRootCompliance_def ex_reader_def ex_api_def ex_objects Let_def)
  have n: "gets_policies_by_name (api_read (ex_api ?c) (hub_world ?h))"
    by (simp add: gets_policies_by_name_def ex_reader_def ex_api_def ex_objects)
  have "\<not> ps_Disabled (p_Spec ?root)" by (simp add: ex_objects)
  from root_requests_complete [OF h' this n] h' show ?thesis
    by (simp add: ex_api_def FullNameForPolicy_def ex_objects)
qed

end
