(* ===== verification/Template_Resolvers.thy ===== *)
theory Template_Resolvers
  imports Root_Reconcile "HOL-Library.Word"
begin

text \<open>
  \<^verbatim>\<open>controllers/propagator/template_utils.go\<close>: the template resolvers, one per service
  account, shared by the replicated policies that name the account and counted by an atomic 32 bit
  reference count. The objects and the counters live in stores (a restarted resolver takes over the
  counter of the stopped one, which is why the counter is a pointer in the source). The token
  request, the file operations, the watcher and the resolver library are parameters.

  Each operation runs under the global lock, so the interleavings are sequences of whole
  operations: calls from the reconcilers, the cleanup goroutine of a removal that saw the count
  reach zero, the watcher goroutine that stops, and the handler of a background error.
\<close>

unbundle bit_operations_syntax

section \<open>Service account tokens\<close>

record token_env =
  te_CreateToken :: "NamespacedName \<Rightarrow> int \<Rightarrow> goerr + string \<times> int"
  te_CreateTemp :: "string \<Rightarrow> goerr + string"
  te_Abs :: "string \<Rightarrow> goerr + string"
  te_WriteString :: "string \<Rightarrow> string \<Rightarrow> goerr option"
  te_Close :: "string \<Rightarrow> goerr option"

text \<open>What a call leaves behind: the files it removed and the refresh loop it started, if any.\<close>

record token_effects =
  tk_removed :: "string list"
  tk_refresh :: "(string \<times> int) option"

definition no_effects :: token_effects where
  "no_effects = \<lparr>tk_removed = [], tk_refresh = None\<rparr>"

text \<open>
  The two results of the source, the path and the error. When closing the file fails the error
  variable that is returned is the one of \<^verbatim>\<open>filepath.Abs\<close>, which is nil there.
\<close>

definition GetToken ::
  "token_env \<Rightarrow> NamespacedName \<Rightarrow> int \<Rightarrow> (string \<times> goerr option) \<times> token_effects" where
  "GetToken te serviceAccount expirationSeconds =
     (case te_CreateToken te serviceAccount expirationSeconds of
        Inl e \<Rightarrow> (([], Some e), no_effects)
      | Inr (token, expiration) \<Rightarrow>
          (case te_CreateTemp te (''token-'' @ nn_Namespace serviceAccount @ ''.'' @ nn_Name serviceAccount @ ''-*'') of
             Inl e \<Rightarrow> (([], Some e), no_effects)
           | Inr tokenFile \<Rightarrow>
               (case te_Abs te tokenFile of
                  Inl e \<Rightarrow> (([], Some e), no_effects)
                | Inr tokenFilePath \<Rightarrow>
                    (case te_WriteString te tokenFilePath token of
                       Some writeErr \<Rightarrow> (([], Some writeErr), no_effects\<lparr>tk_removed := [tokenFilePath]\<rparr>)
                     | None \<Rightarrow>
                         (case te_Close te tokenFilePath of
                            Some writeErr \<Rightarrow>
                              (([], None), no_effects\<lparr>tk_removed := [tokenFilePath, tokenFilePath]\<rparr>)
                          | None \<Rightarrow>
                              ((tokenFilePath, None), no_effects\<lparr>tk_refresh := Some (tokenFilePath, expiration)\<rparr>))))))"

section \<open>State\<close>

record 'r wrapped =
  wr_canceled :: bool
  wr_referenceCount :: nat
  wr_resolver :: "'r option"

text \<open>
  \<open>tr_objs\<close> and \<open>tr_counts\<close> are the stores, \<open>tr_next\<close> the next free address.
  \<open>tr_pending\<close> are the cleanup goroutines that wait for the write lock, each with the resolver
  object and the service account it captured.
\<close>

record 'r resolvers =
  tr_objs :: "nat \<Rightarrow> 'r wrapped"
  tr_counts :: "nat \<Rightarrow> 32 word"
  tr_next :: nat
  tr_TemplateResolvers :: "NamespacedName \<rightharpoonup> nat"
  tr_policyToServiceAccount :: "(ObjectIdentifier, NamespacedName) fmap"
  tr_pending :: "(nat \<times> NamespacedName) list"

record 'r resolver_env =
  re_token :: token_env
  re_NewWatcher :: "NamespacedName \<Rightarrow> string \<Rightarrow> goerr option"
  re_NewResolver :: "NamespacedName \<Rightarrow> goerr + 'r"
  re_UncacheWatcher :: "'r \<Rightarrow> ObjectIdentifier \<Rightarrow> goerr option"
  re_default :: 'r

definition NewTemplateResolvers :: "'r resolvers" where
  "NewTemplateResolvers =
     \<lparr>tr_objs = (\<lambda>_. \<lparr>wr_canceled = True, wr_referenceCount = 0, wr_resolver = None\<rparr>),
      tr_counts = (\<lambda>_. 0), tr_next = 0, tr_TemplateResolvers = Map.empty,
      tr_policyToServiceAccount = fmempty, tr_pending = []\<rparr>"

definition defaultSANamespacedName :: NamespacedName where
  "defaultSANamespacedName = nn [] ''<default>''"

definition initResolver :: "'r resolver_env \<Rightarrow> NamespacedName \<Rightarrow> goerr + 'r" where
  "initResolver env serviceAccount =
     (case fst (GetToken (re_token env) serviceAccount 7200) of
        (_, Some e) \<Rightarrow> Inl (if IsNotFound e then Joined ErrSAMissing e else e)
      | (tokenFile, None) \<Rightarrow>
          (case re_NewWatcher env serviceAccount tokenFile of
             Some e \<Rightarrow> Inl (Wrapped ''failed to instantiate the template resolver'' e)
           | None \<Rightarrow> re_NewResolver env serviceAccount))"

section \<open>Operations\<close>

text \<open>The deferred delete of the policy's entry, after everything else of a removal.\<close>

definition forget :: "ObjectIdentifier \<Rightarrow> 'r resolvers \<Rightarrow> 'r resolvers" where
  "forget replicatedPolicy t =
     t\<lparr>tr_policyToServiceAccount := fmdrop replicatedPolicy (tr_policyToServiceAccount t)\<rparr>"

text \<open>A call on a nil resolver is a panic, the value \<open>nil_resolver\<close>.\<close>

definition nil_resolver :: goerr where
  "nil_resolver = Msg ''nil pointer dereference''"

definition RemoveReplicatedPolicy ::
  "'r resolver_env \<Rightarrow> ObjectIdentifier \<Rightarrow> 'r resolvers \<Rightarrow> goerr option \<times> 'r resolvers" where
  "RemoveReplicatedPolicy env replicatedPolicy t =
     (case fmlookup (tr_policyToServiceAccount t) replicatedPolicy of
        None \<Rightarrow> (None, t)
      | Some serviceAccount \<Rightarrow>
          if serviceAccount = defaultSANamespacedName
          then (re_UncacheWatcher env (re_default env) replicatedPolicy, forget replicatedPolicy t)
          else
            (case tr_TemplateResolvers t serviceAccount of
               None \<Rightarrow> (None, forget replicatedPolicy t)
             | Some w \<Rightarrow>
                 let wrappedResolver = tr_objs t w;
                     rc = wr_referenceCount wrappedResolver;
                     t = t\<lparr>tr_counts := (tr_counts t)(rc := tr_counts t rc + NOT 0)\<rparr>
                 in if wr_canceled wrappedResolver then (None, forget replicatedPolicy t)
                    else
                      let uncacheErr = (case wr_resolver wrappedResolver of
                                          None \<Rightarrow> Some nil_resolver
                                        | Some r \<Rightarrow> re_UncacheWatcher env r replicatedPolicy)
                      in if tr_counts t rc \<noteq> 0 then (uncacheErr, forget replicatedPolicy t)
                         else (uncacheErr,
                               forget replicatedPolicy (t\<lparr>tr_pending := tr_pending t @ [(w, serviceAccount)]\<rparr>))))"

text \<open>The goroutine of a removal, once it has the write lock.\<close>

definition cleanup_goroutine :: "nat \<times> NamespacedName \<Rightarrow> 'r resolvers \<Rightarrow> 'r resolvers" where
  "cleanup_goroutine job t =
     (case job of (w, serviceAccount) \<Rightarrow>
      let wrappedResolver = tr_objs t w in
      if tr_counts t (wr_referenceCount wrappedResolver) \<noteq> 0 then t
      else if wr_canceled wrappedResolver then t
      else t\<lparr>tr_objs := (tr_objs t)(w := wrappedResolver\<lparr>wr_canceled := True\<rparr>),
             tr_TemplateResolvers := (tr_TemplateResolvers t)(serviceAccount := None)\<rparr>)"

text \<open>
  The part of \<^verbatim>\<open>GetResolver\<close> under the lock that finds or creates the resolver object.
\<close>

definition ensure_resolver ::
  "'r resolver_env \<Rightarrow> NamespacedName \<Rightarrow> 'r resolvers \<Rightarrow> goerr + nat \<times> 'r resolvers" where
  "ensure_resolver env serviceAccount t =
     (let found = tr_TemplateResolvers t serviceAccount;
          usable = (case found of None \<Rightarrow> False | Some w \<Rightarrow> \<not> wr_canceled (tr_objs t w))
      in if usable then (case found of None \<Rightarrow> Inl nil_resolver | Some w \<Rightarrow> Inr (w, t))
         else
           (case initResolver env serviceAccount of
              Inl e \<Rightarrow> Inl e
            | Inr r \<Rightarrow>
                let w' = tr_next t;
                    rc = (case found of None \<Rightarrow> w' | Some w \<Rightarrow> wr_referenceCount (tr_objs t w));
                    counts = (case found of None \<Rightarrow> (tr_counts t)(w' := 0) | Some _ \<Rightarrow> tr_counts t)
                in Inr (w', t\<lparr>tr_next := w' + 1, tr_counts := counts,
                       tr_objs := (tr_objs t)(w' := \<lparr>wr_canceled = False, wr_referenceCount = rc,
                                                     wr_resolver = Some r\<rparr>),
                       tr_TemplateResolvers := (tr_TemplateResolvers t)(serviceAccount \<mapsto> w')\<rparr>)))"

definition GetResolver ::
  "'r resolver_env \<Rightarrow> ObjectIdentifier \<Rightarrow> NamespacedName \<Rightarrow> 'r resolvers \<Rightarrow>
   (goerr + 'r) \<times> 'r resolvers" where
  "GetResolver env replicatedPolicy serviceAccount t =
     (let (addReference, t) =
            (case fmlookup (tr_policyToServiceAccount t) replicatedPolicy of
               Some prevSA \<Rightarrow>
                 if prevSA \<noteq> serviceAccount
                 then (True, snd (RemoveReplicatedPolicy env replicatedPolicy t)) else (False, t)
             | None \<Rightarrow> (True, t))
      in if serviceAccount = defaultSANamespacedName
         then (Inr (re_default env),
               t\<lparr>tr_policyToServiceAccount :=
                   fmupd replicatedPolicy defaultSANamespacedName (tr_policyToServiceAccount t)\<rparr>)
         else
           (case ensure_resolver env serviceAccount t of
              Inl e \<Rightarrow> (Inl e, t)
            | Inr (w, t) \<Rightarrow>
                let rc = wr_referenceCount (tr_objs t w);
                    t = (if addReference
                         then t\<lparr>tr_counts := (tr_counts t)(rc := tr_counts t rc + 1),
                               tr_policyToServiceAccount :=
                                 fmupd replicatedPolicy serviceAccount (tr_policyToServiceAccount t)\<rparr>
                         else t)
                in (case wr_resolver (tr_objs t w) of None \<Rightarrow> Inl nil_resolver | Some r \<Rightarrow> Inr r, t)))"

text \<open>The watcher goroutine ends: \<^verbatim>\<open>rv.canceled.Store(true)\<close>.\<close>

definition watcher_stopped :: "nat \<Rightarrow> 'r resolvers \<Rightarrow> 'r resolvers" where
  "watcher_stopped w t = t\<lparr>tr_objs := (tr_objs t)(w := (tr_objs t w)\<lparr>wr_canceled := True\<rparr>)\<rparr>"

text \<open>\<^verbatim>\<open>onBackgroundError\<close>: the resolver is canceled, then every policy that uses the account is
  sent to the update channel.\<close>

definition onBackgroundError_cancel :: "NamespacedName \<Rightarrow> 'r resolvers \<Rightarrow> 'r resolvers" where
  "onBackgroundError_cancel serviceAccount t =
     (case tr_TemplateResolvers t serviceAccount of
        None \<Rightarrow> t
      | Some w \<Rightarrow>
          t\<lparr>tr_objs := (tr_objs t)(w := (tr_objs t w)\<lparr>wr_canceled := True, wr_resolver := None\<rparr>)\<rparr>)"

definition uses_account :: "NamespacedName \<Rightarrow> Policy \<Rightarrow> bool" where
  "uses_account serviceAccount replicatedPolicy =
     (case ps_HubTemplateOptions (p_Spec replicatedPolicy) of
        None \<Rightarrow> False
      | Some saName \<Rightarrow>
          saName = nn_Name serviceAccount \<and>
          (case ParseRootPolicyLabel (p_Name replicatedPolicy) of
             Inl _ \<Rightarrow> False
           | Inr (_, rootNS) \<Rightarrow> rootNS = nn_Namespace serviceAccount))"

definition onBackgroundError ::
  "'k api \<Rightarrow> NamespacedName \<Rightarrow> 'r resolvers \<Rightarrow> 'k hub \<Rightarrow> goerr option \<times> 'r resolvers \<times> 'k hub" where
  "onBackgroundError a serviceAccount t h =
     (let t = onBackgroundError_cancel serviceAccount t in
      case List_Policies (api_read a (hub_world h)) [LabelExists RootPolicyLabel] of
        Inl e \<Rightarrow> (Some e, t, h)
      | Inr policies \<Rightarrow> (None, t, send (map PolicyEvent (filter (uses_account serviceAccount) policies)) h))"

section \<open>Interleavings\<close>

definition users :: "'r resolvers \<Rightarrow> NamespacedName \<Rightarrow> ObjectIdentifier set" where
  "users t sa = {p. fmlookup (tr_policyToServiceAccount t) p = Some sa}"

text \<open>
  The steps of the shared state. A call of \<^verbatim>\<open>GetResolver\<close> is possible as long as the number
  of replicated policies stays below the range of the counter.
\<close>

inductive resolvers_step :: "'r resolvers \<Rightarrow> 'r resolvers \<Rightarrow> bool" where
  get: "card (fset (fmdom (tr_policyToServiceAccount t))) < 2 ^ 32 - 1 \<Longrightarrow>
        GetResolver env p sa t = (r, t') \<Longrightarrow> resolvers_step t t'"
| remove: "RemoveReplicatedPolicy env p t = (e, t') \<Longrightarrow> resolvers_step t t'"
| cleanup: "tr_pending t = js @ job # js' \<Longrightarrow>
        resolvers_step t (cleanup_goroutine job (t\<lparr>tr_pending := js @ js'\<rparr>))"
| stopped: "resolvers_step t (watcher_stopped w t)"
| background: "resolvers_step t (onBackgroundError_cancel sa t)"

inductive resolvers_reachable :: "'r resolvers \<Rightarrow> bool" where
  init: "resolvers_reachable NewTemplateResolvers"
| step: "resolvers_reachable t \<Longrightarrow> resolvers_step t t' \<Longrightarrow> resolvers_reachable t'"

inductive_cases resolvers_stepE: "resolvers_step t t'"

section \<open>The invariant\<close>

text \<open>The count behind an account's resolver object.\<close>

definition ref_count :: "'r resolvers \<Rightarrow> NamespacedName \<Rightarrow> 32 word" where
  "ref_count t sa =
     (case tr_TemplateResolvers t sa of
        None \<Rightarrow> 0 | Some w \<Rightarrow> tr_counts t (wr_referenceCount (tr_objs t w)))"

text \<open>The shape of the stores: addresses are allocated and not shared between accounts, a resolver
  that is not canceled is set, and a pending cleanup whose object is not canceled holds the current
  one.\<close>

definition resolvers_shape :: "'r resolvers \<Rightarrow> bool" where
  "resolvers_shape t \<longleftrightarrow>
     tr_TemplateResolvers t defaultSANamespacedName = None \<and>
     (\<forall>sa w. tr_TemplateResolvers t sa = Some w \<longrightarrow>
        w < tr_next t \<and> wr_referenceCount (tr_objs t w) < tr_next t \<and>
        (\<not> wr_canceled (tr_objs t w) \<longrightarrow> wr_resolver (tr_objs t w) \<noteq> None)) \<and>
     (\<forall>sa sa' w w'. tr_TemplateResolvers t sa = Some w \<longrightarrow> tr_TemplateResolvers t sa' = Some w' \<longrightarrow>
        sa \<noteq> sa' \<longrightarrow> w \<noteq> w' \<and> wr_referenceCount (tr_objs t w) \<noteq> wr_referenceCount (tr_objs t w')) \<and>
     (\<forall>(w, sa) \<in> set (tr_pending t). w < tr_next t \<and>
        (\<not> wr_canceled (tr_objs t w) \<longrightarrow> tr_TemplateResolvers t sa = Some w))"

text \<open>Every account's count is the number of policies that use it, and is below the counter's range.\<close>

definition resolvers_counted :: "'r resolvers \<Rightarrow> bool" where
  "resolvers_counted t \<longleftrightarrow>
     (\<forall>sa. sa \<noteq> defaultSANamespacedName \<longrightarrow>
        ref_count t sa = of_nat (card (users t sa)) \<and> card (users t sa) < 2 ^ 32 \<and>
        (tr_TemplateResolvers t sa = None \<longrightarrow> users t sa = {}))"

definition resolvers_inv :: "'r resolvers \<Rightarrow> bool" where
  "resolvers_inv t \<longleftrightarrow> resolvers_shape t \<and> resolvers_counted t"

lemma finite_users [simp]: "finite (users t sa)"
proof (rule finite_subset)
  show "users t sa \<subseteq> fset (fmdom (tr_policyToServiceAccount t))"
    by (auto simp: users_def intro: fmdomI)
qed simp

lemma card_users_le: "card (users t sa) \<le> card (fset (fmdom (tr_policyToServiceAccount t)))"
  by (rule card_mono) (auto simp: users_def intro: fmdomI)

lemma of_nat_word32_eq_0: "n < 2 ^ 32 \<Longrightarrow> (of_nat n :: 32 word) = 0 \<longleftrightarrow> n = 0"
  using nat_dvd_not_less [of n] by (auto simp: word_of_nat_eq_0_iff)

lemma users_forget: "users (forget p t) sa = users t sa - {p}"
  by (auto simp: users_def forget_def)

lemma users_other: "p \<in> users t sa \<Longrightarrow> sa' \<noteq> sa \<Longrightarrow> users t sa' - {p} = users t sa'"
  by (auto simp: users_def)

text \<open>A counter changes for one account only.\<close>

lemma ref_count_upd:
  assumes "resolvers_shape t" and "tr_TemplateResolvers t sa = Some w"
  shows "ref_count (t\<lparr>tr_counts := (tr_counts t)(wr_referenceCount (tr_objs t w) := v)\<rparr>) sa' =
    (if sa' = sa then v else ref_count t sa')"
proof (cases "sa' = sa")
  case True
  with assms(2) show ?thesis by (simp add: ref_count_def)
next
  case False
  from assms(1) have "tr_TemplateResolvers t sa' = Some w' \<Longrightarrow>
      wr_referenceCount (tr_objs t w') \<noteq> wr_referenceCount (tr_objs t w)" for w'
    using assms(2) False unfolding resolvers_shape_def by metis
  with False show ?thesis by (auto simp: ref_count_def split: option.splits)
qed

section \<open>Removals\<close>

lemma remove_cases:
  obtains (absent) "fmlookup (tr_policyToServiceAccount t) p = None"
      "snd (RemoveReplicatedPolicy env p t) = t"
  | (no_resolver) sa where "p \<in> users t sa"
      "sa = defaultSANamespacedName \<or> tr_TemplateResolvers t sa = None"
      "snd (RemoveReplicatedPolicy env p t) = forget p t"
  | (counted) sa w js where "p \<in> users t sa" "sa \<noteq> defaultSANamespacedName"
      "tr_TemplateResolvers t sa = Some w" "js = [] \<or> js = [(w, sa)]"
      "snd (RemoveReplicatedPolicy env p t) =
         forget p (t\<lparr>tr_counts := (tr_counts t)(wr_referenceCount (tr_objs t w) :=
             tr_counts t (wr_referenceCount (tr_objs t w)) - 1), tr_pending := tr_pending t @ js\<rparr>)"
proof (cases "fmlookup (tr_policyToServiceAccount t) p")
  case None
  then show ?thesis by (intro absent) (simp_all add: RemoveReplicatedPolicy_def)
next
  case (Some sa)
  then have p: "p \<in> users t sa" by (simp add: users_def)
  show ?thesis
  proof (cases "sa = defaultSANamespacedName \<or> tr_TemplateResolvers t sa = None")
    case True
    with p Some show ?thesis
      by (intro no_resolver [of sa]) (auto simp: RemoveReplicatedPolicy_def)
  next
    case False
    then obtain w where w: "tr_TemplateResolvers t sa = Some w" by blast
    define js where "js = (if wr_canceled (tr_objs t w) \<or>
        tr_counts t (wr_referenceCount (tr_objs t w)) - 1 \<noteq> 0 then [] else [(w, sa)])"
    from p False w Some show ?thesis
      by (intro counted [of sa w js]) (auto simp: RemoveReplicatedPolicy_def Let_def js_def)
  qed
qed

lemma shape_forget [simp]: "resolvers_shape (forget p t) = resolvers_shape t"
  by (simp add: resolvers_shape_def forget_def)

lemma shape_counts [simp]: "resolvers_shape (t\<lparr>tr_counts := cs\<rparr>) = resolvers_shape t"
  by (simp add: resolvers_shape_def)

lemma shape_pending:
  "resolvers_shape t \<Longrightarrow> tr_TemplateResolvers t sa = Some w \<Longrightarrow> js = [] \<or> js = [(w, sa)] \<Longrightarrow>
     resolvers_shape (t\<lparr>tr_pending := tr_pending t @ js\<rparr>)"
  unfolding resolvers_shape_def by (elim disjE) simp_all

lemma remove_shape:
  assumes "resolvers_shape t"
  shows "resolvers_shape (snd (RemoveReplicatedPolicy env p t))"
proof (cases rule: remove_cases [of t p env])
  case (counted sa w js)
  let ?t = "t\<lparr>tr_counts := (tr_counts t)(wr_referenceCount (tr_objs t w) :=
      tr_counts t (wr_referenceCount (tr_objs t w)) - 1)\<rparr>"
  have "resolvers_shape (?t\<lparr>tr_pending := tr_pending ?t @ js\<rparr>)"
    by (rule shape_pending [OF _ _ counted(4)]) (use assms counted(3) in simp_all)
  then show ?thesis by (simp add: counted(5))
qed (use assms in auto)

lemma ref_count_forget [simp]: "ref_count (forget p t) sa = ref_count t sa"
  by (simp add: ref_count_def forget_def split: option.splits)

lemma resolvers_forget [simp]: "tr_TemplateResolvers (forget p t) = tr_TemplateResolvers t"
  by (simp add: forget_def)

lemma ref_count_pending [simp]: "ref_count (t\<lparr>tr_pending := js\<rparr>) = ref_count t"
  by (rule ext) (simp add: ref_count_def split: option.splits)

lemma remove_counted:
  assumes "resolvers_inv t"
  shows "resolvers_counted (snd (RemoveReplicatedPolicy env p t))"
proof (cases rule: remove_cases [of t p env])
  case absent
  with assms show ?thesis by (simp add: resolvers_inv_def)
next
  case (no_resolver sa)
  from assms no_resolver(1,2) have "sa = defaultSANamespacedName"
    by (auto simp: resolvers_inv_def resolvers_counted_def)
  with assms no_resolver users_other [OF no_resolver(1)] show ?thesis
    by (simp add: resolvers_inv_def resolvers_counted_def users_forget)
next
  case (counted sa w js)
  let ?rc = "wr_referenceCount (tr_objs t w)"
  let ?t = "t\<lparr>tr_counts := (tr_counts t)(?rc := tr_counts t ?rc - 1)\<rparr>"
  have eq: "snd (RemoveReplicatedPolicy env p t) = forget p (?t\<lparr>tr_pending := tr_pending t @ js\<rparr>)"
    by (simp add: counted(5))
  have u: "users (snd (RemoveReplicatedPolicy env p t)) sa' = users t sa' - {p}" for sa'
    unfolding eq users_forget by (simp add: users_def)
  have r: "ref_count (snd (RemoveReplicatedPolicy env p t)) sa' =
      (if sa' = sa then tr_counts t ?rc - 1 else ref_count t sa')" for sa'
    unfolding eq ref_count_forget ref_count_pending
    using assms counted(3) by (intro ref_count_upd) (simp_all add: resolvers_inv_def)
  have m: "tr_TemplateResolvers (snd (RemoveReplicatedPolicy env p t)) = tr_TemplateResolvers t"
    unfolding eq by simp
  have c: "tr_counts t ?rc = of_nat (card (users t sa))" "card (users t sa) < 2 ^ 32"
    using assms counted(2,3) by (auto simp: resolvers_inv_def resolvers_counted_def ref_count_def)
  obtain n where n: "card (users t sa) = Suc n" "card (users t sa - {p}) = n"
    using counted(1) by (metis card_Suc_Diff1 finite_users)
  then have "tr_counts t ?rc - 1 = of_nat n" using c(1) by simp
  with assms counted users_other [OF counted(1)] c(2) n show ?thesis
    unfolding resolvers_counted_def u r m
    by (auto simp: resolvers_inv_def resolvers_counted_def)
qed

lemma remove_inv: "resolvers_inv t \<Longrightarrow> resolvers_inv (snd (RemoveReplicatedPolicy env p t))"
  by (simp add: remove_counted remove_shape resolvers_inv_def)

section \<open>Goroutines\<close>

text \<open>Canceling an object keeps the invariant: its counter stays where it is.\<close>

lemma cancel_inv:
  assumes "resolvers_inv t" and "wr_canceled wr" "wr_referenceCount wr = wr_referenceCount (tr_objs t w)"
  shows "resolvers_inv (t\<lparr>tr_objs := (tr_objs t)(w := wr)\<rparr>)"
proof -
  let ?t = "t\<lparr>tr_objs := (tr_objs t)(w := wr)\<rparr>"
  have rc: "wr_referenceCount (tr_objs ?t w') = wr_referenceCount (tr_objs t w')"
    and cc: "\<not> wr_canceled (tr_objs ?t w') \<Longrightarrow> w' \<noteq> w \<and> tr_objs ?t w' = tr_objs t w'" for w'
    using assms(2,3) by auto
  have "ref_count ?t sa = ref_count t sa" for sa
    using assms(3) by (simp add: ref_count_def split: option.splits)
  moreover have "users ?t sa = users t sa" for sa by (simp add: users_def)
  ultimately have "resolvers_counted ?t"
    using assms(1) by (simp add: resolvers_inv_def resolvers_counted_def)
  moreover have "resolvers_shape ?t"
    using assms(1) cc unfolding resolvers_inv_def resolvers_shape_def rc by force
  ultimately show ?thesis by (simp add: resolvers_inv_def)
qed

lemma stopped_inv: "resolvers_inv t \<Longrightarrow> resolvers_inv (watcher_stopped w t)"
  unfolding watcher_stopped_def by (rule cancel_inv) simp_all

lemma background_inv: "resolvers_inv t \<Longrightarrow> resolvers_inv (onBackgroundError_cancel sa t)"
  unfolding onBackgroundError_cancel_def by (auto split: option.splits intro: cancel_inv)

lemma pending_inv:
  "resolvers_inv t \<Longrightarrow> set js \<subseteq> set (tr_pending t) \<Longrightarrow> resolvers_inv (t\<lparr>tr_pending := js\<rparr>)"
  by (force simp: resolvers_inv_def resolvers_shape_def resolvers_counted_def users_def)

text \<open>Dropping an account that nobody uses and whose object is canceled.\<close>

lemma drop_account_inv:
  assumes "resolvers_inv t" and "users t sa = {}" and "tr_TemplateResolvers t sa = Some w"
    and "wr_canceled (tr_objs t w)"
  shows "resolvers_inv (t\<lparr>tr_TemplateResolvers := (tr_TemplateResolvers t)(sa := None)\<rparr>)"
proof -
  let ?t = "t\<lparr>tr_TemplateResolvers := (tr_TemplateResolvers t)(sa := None)\<rparr>"
  have "ref_count ?t sa' = (if sa' = sa then 0 else ref_count t sa')" for sa'
    by (simp add: ref_count_def split: option.splits)
  moreover have "users ?t sa' = users t sa'" for sa' by (simp add: users_def)
  ultimately have "resolvers_counted ?t"
    using assms(1,2) by (simp add: resolvers_inv_def resolvers_counted_def)
  moreover have "resolvers_shape ?t"
    using assms(1,3,4) unfolding resolvers_inv_def resolvers_shape_def by force
  ultimately show ?thesis by (simp add: resolvers_inv_def)
qed

lemma cleanup_inv:
  assumes "resolvers_inv t" and "tr_pending t = js @ job # js'"
  shows "resolvers_inv (cleanup_goroutine job (t\<lparr>tr_pending := js @ js'\<rparr>))"
proof -
  obtain w sa where job: "job = (w, sa)" by fastforce
  let ?t = "t\<lparr>tr_pending := js @ js'\<rparr>"
  let ?t1 = "?t\<lparr>tr_objs := (tr_objs ?t)(w := (tr_objs ?t w)\<lparr>wr_canceled := True\<rparr>)\<rparr>"
  have inv: "resolvers_inv ?t" using assms by (intro pending_inv) auto
  show ?thesis
  proof (cases "tr_counts t (wr_referenceCount (tr_objs t w)) \<noteq> 0 \<or> wr_canceled (tr_objs t w)")
    case True
    then have "cleanup_goroutine job ?t = ?t"
      by (auto simp: cleanup_goroutine_def job Let_def)
    with inv show ?thesis by simp
  next
    case False
    from assms have "(w, sa) \<in> set (tr_pending t)" by (simp add: job)
    with assms(1) False have m: "tr_TemplateResolvers t sa = Some w"
      by (auto simp: resolvers_inv_def resolvers_shape_def)
    with assms(1) have "sa \<noteq> defaultSANamespacedName"
      by (auto simp: resolvers_inv_def resolvers_shape_def)
    with assms(1) have "ref_count t sa = of_nat (card (users t sa))" "card (users t sa) < 2 ^ 32"
      by (auto simp: resolvers_inv_def resolvers_counted_def)
    with False m have "card (users t sa) = 0"
      using of_nat_word32_eq_0 [of "card (users t sa)"] by (simp add: ref_count_def)
    then have "users t sa = {}" by simp
    then have u: "users ?t1 sa = {}" by (simp add: users_def)
    have "resolvers_inv ?t1" using inv by (intro cancel_inv) simp_all
    from drop_account_inv [OF this u, of w] m False show ?thesis
      by (simp add: cleanup_goroutine_def job Let_def)
  qed
qed

section \<open>Lookups\<close>

lemma ensure_resolver_cases:
  assumes "ensure_resolver env sa t = Inr (w, t')"
  obtains (usable) "t' = t" "tr_TemplateResolvers t sa = Some w" "\<not> wr_canceled (tr_objs t w)"
  | (fresh) r where "tr_TemplateResolvers t sa = None" "w = tr_next t"
      "t' = t\<lparr>tr_next := w + 1, tr_counts := (tr_counts t)(w := 0),
        tr_objs := (tr_objs t)(w := \<lparr>wr_canceled = False, wr_referenceCount = w, wr_resolver = Some r\<rparr>),
        tr_TemplateResolvers := (tr_TemplateResolvers t)(sa \<mapsto> w)\<rparr>"
  | (restarted) r w0 where "tr_TemplateResolvers t sa = Some w0" "wr_canceled (tr_objs t w0)" "w = tr_next t"
      "t' = t\<lparr>tr_next := w + 1,
        tr_objs := (tr_objs t)(w := \<lparr>wr_canceled = False,
          wr_referenceCount = wr_referenceCount (tr_objs t w0), wr_resolver = Some r\<rparr>),
        tr_TemplateResolvers := (tr_TemplateResolvers t)(sa \<mapsto> w)\<rparr>"
proof (cases "tr_TemplateResolvers t sa")
  case None
  with assms obtain r where "initResolver env sa = Inr r"
    by (auto simp: ensure_resolver_def Let_def split: sum.splits)
  with None assms show ?thesis by (intro fresh [of r]) (auto simp: ensure_resolver_def Let_def)
next
  case (Some w0)
  show ?thesis
  proof (cases "wr_canceled (tr_objs t w0)")
    case True
    with Some assms obtain r where "initResolver env sa = Inr r"
      by (auto simp: ensure_resolver_def Let_def split: sum.splits)
    with Some True assms show ?thesis
      by (intro restarted [of w0 r]) (auto simp: ensure_resolver_def Let_def)
  next
    case False
    with Some assms show ?thesis by (intro usable) (auto simp: ensure_resolver_def Let_def)
  qed
qed

lemma ensure_resolver_users:
  "ensure_resolver env sa t = Inr (w, t') \<Longrightarrow>
     tr_policyToServiceAccount t' = tr_policyToServiceAccount t \<and> tr_TemplateResolvers t' sa = Some w"
  by (erule ensure_resolver_cases) simp_all

lemma ensure_resolver_counted:
  assumes "ensure_resolver env sa t = Inr (w, t')" and "resolvers_inv t"
  shows "ref_count t' sa' = ref_count t sa'"
  using assms(1)
proof (cases rule: ensure_resolver_cases)
  case usable
  then show ?thesis by simp
next
  case (fresh r)
  from assms(2) fresh(2) have "tr_TemplateResolvers t x = Some v \<Longrightarrow>
      v < w \<and> wr_referenceCount (tr_objs t v) < w" for x v
    by (auto simp: resolvers_inv_def resolvers_shape_def)
  with fresh show ?thesis by (fastforce simp: ref_count_def split: option.splits)
next
  case (restarted r w0)
  from assms(2) restarted(3) have "tr_TemplateResolvers t x = Some v \<Longrightarrow> v < w" for x v
    by (auto simp: resolvers_inv_def resolvers_shape_def)
  with restarted show ?thesis by (fastforce simp: ref_count_def split: option.splits)
qed

lemma shapeD:
  assumes "resolvers_shape t"
  shows "tr_TemplateResolvers t sa = Some w \<Longrightarrow> w < tr_next t"
    and "tr_TemplateResolvers t sa = Some w \<Longrightarrow> wr_referenceCount (tr_objs t w) < tr_next t"
    and "tr_TemplateResolvers t sa = Some w \<Longrightarrow> tr_TemplateResolvers t sa' = Some w' \<Longrightarrow> sa \<noteq> sa' \<Longrightarrow>
           wr_referenceCount (tr_objs t w) \<noteq> wr_referenceCount (tr_objs t w')"
    and "(w, sa) \<in> set (tr_pending t) \<Longrightarrow> w < tr_next t"
    and "(w, sa) \<in> set (tr_pending t) \<Longrightarrow> \<not> wr_canceled (tr_objs t w) \<Longrightarrow> tr_TemplateResolvers t sa = Some w"
    and "tr_TemplateResolvers t sa = Some w \<Longrightarrow> \<not> wr_canceled (tr_objs t w) \<Longrightarrow>
           \<exists>r. wr_resolver (tr_objs t w) = Some r"
    and "tr_TemplateResolvers t defaultSANamespacedName = None"
  using assms unfolding resolvers_shape_def by (blast | fastforce)+

lemma resolvers_shapeI:
  assumes "tr_TemplateResolvers t defaultSANamespacedName = None"
    and "\<And>sa w. tr_TemplateResolvers t sa = Some w \<Longrightarrow>
      w < tr_next t \<and> wr_referenceCount (tr_objs t w) < tr_next t \<and>
      (\<not> wr_canceled (tr_objs t w) \<longrightarrow> wr_resolver (tr_objs t w) \<noteq> None)"
    and "\<And>sa sa' w w'. tr_TemplateResolvers t sa = Some w \<Longrightarrow> tr_TemplateResolvers t sa' = Some w' \<Longrightarrow>
      sa \<noteq> sa' \<Longrightarrow> w \<noteq> w' \<and> wr_referenceCount (tr_objs t w) \<noteq> wr_referenceCount (tr_objs t w')"
    and "\<And>w sa. (w, sa) \<in> set (tr_pending t) \<Longrightarrow> w < tr_next t \<and>
      (\<not> wr_canceled (tr_objs t w) \<longrightarrow> tr_TemplateResolvers t sa = Some w)"
  shows "resolvers_shape t"
  using assms unfolding resolvers_shape_def by blast

text \<open>A new object for an account whose old object, if any, is canceled.\<close>

lemma install_shape:
  assumes sh: "resolvers_shape t" and "sa \<noteq> defaultSANamespacedName" and rc: "rc \<le> tr_next t"
    and other: "\<And>x v. x \<noteq> sa \<Longrightarrow> tr_TemplateResolvers t x = Some v \<Longrightarrow> wr_referenceCount (tr_objs t v) \<noteq> rc"
    and old: "\<And>v. tr_TemplateResolvers t sa = Some v \<Longrightarrow> wr_canceled (tr_objs t v)"
  shows "resolvers_shape (t\<lparr>tr_next := tr_next t + 1,
      tr_objs := (tr_objs t)(tr_next t := \<lparr>wr_canceled = False, wr_referenceCount = rc, wr_resolver = Some r\<rparr>),
      tr_TemplateResolvers := (tr_TemplateResolvers t)(sa \<mapsto> tr_next t)\<rparr>)"
    (is "resolvers_shape ?t")
proof -
  note D = shapeD [OF sh]
  have obj: "v < tr_next t \<Longrightarrow> tr_objs ?t v = tr_objs t v" for v by simp
  have low: "v < tr_next ?t \<and> wr_referenceCount (tr_objs ?t v) < tr_next ?t \<and>
      (\<not> wr_canceled (tr_objs ?t v) \<longrightarrow> wr_resolver (tr_objs ?t v) \<noteq> None)"
    if "tr_TemplateResolvers ?t x = Some v" for x v
    using that D(1,2,6) [of x v] rc by (cases "x = sa") auto
  have inj: "v \<noteq> v' \<and> wr_referenceCount (tr_objs ?t v) \<noteq> wr_referenceCount (tr_objs ?t v')"
    if "tr_TemplateResolvers ?t x = Some v" "tr_TemplateResolvers ?t x' = Some v'" "x \<noteq> x'" for x x' v v'
    using that D(1) [of x v] D(1) [of x' v'] D(3) [of x v x' v'] other [of x v] other [of x' v']
    by (cases "x = sa"; cases "x' = sa") auto
  have pend: "v < tr_next ?t \<and> (\<not> wr_canceled (tr_objs ?t v) \<longrightarrow> tr_TemplateResolvers ?t x = Some v)"
    if "(v, x) \<in> set (tr_pending ?t)" for v x
    using that D(4,5) [of v x] old [of v] by auto
  have "tr_TemplateResolvers ?t defaultSANamespacedName = None" using D(7) assms(2) by simp
  from this low inj pend show ?thesis by (rule resolvers_shapeI)
qed

lemma ensure_resolver_shape:
  assumes "ensure_resolver env sa t = Inr (w, t')" and "resolvers_shape t" and "sa \<noteq> defaultSANamespacedName"
  shows "resolvers_shape t'"
  using assms(1)
proof (cases rule: ensure_resolver_cases)
  case usable
  with assms(2) show ?thesis by simp
next
  case (fresh r)
  have "resolvers_shape (t\<lparr>tr_next := tr_next t + 1,
      tr_objs := (tr_objs t)(tr_next t := \<lparr>wr_canceled = False, wr_referenceCount = tr_next t, wr_resolver = Some r\<rparr>),
      tr_TemplateResolvers := (tr_TemplateResolvers t)(sa \<mapsto> tr_next t)\<rparr>\<lparr>tr_counts := (tr_counts t)(w := 0)\<rparr>)"
    unfolding shape_counts
  proof (rule install_shape [OF assms(2,3)])
    show "wr_referenceCount (tr_objs t v) \<noteq> tr_next t" if "tr_TemplateResolvers t x = Some v" for x v
      using shapeD(2) [OF assms(2) that] by simp
  qed (simp_all add: fresh(1))
  moreover have "t' = t\<lparr>tr_next := tr_next t + 1,
      tr_objs := (tr_objs t)(tr_next t := \<lparr>wr_canceled = False, wr_referenceCount = tr_next t, wr_resolver = Some r\<rparr>),
      tr_TemplateResolvers := (tr_TemplateResolvers t)(sa \<mapsto> tr_next t)\<rparr>\<lparr>tr_counts := (tr_counts t)(w := 0)\<rparr>"
    by (rule resolvers.equality) (simp_all add: fresh)
  ultimately show ?thesis by (simp only:)
next
  case (restarted r w0)
  have "resolvers_shape (t\<lparr>tr_next := tr_next t + 1,
      tr_objs := (tr_objs t)(tr_next t := \<lparr>wr_canceled = False,
        wr_referenceCount = wr_referenceCount (tr_objs t w0), wr_resolver = Some r\<rparr>),
      tr_TemplateResolvers := (tr_TemplateResolvers t)(sa \<mapsto> tr_next t)\<rparr>)"
  proof (rule install_shape [OF assms(2,3)])
    show "wr_referenceCount (tr_objs t v) \<noteq> wr_referenceCount (tr_objs t w0)"
      if "x \<noteq> sa" "tr_TemplateResolvers t x = Some v" for x v
      using shapeD(3) [OF assms(2) that(2) restarted(1) that(1)] .
  qed (use shapeD(2) [OF assms(2) restarted(1)] restarted(1,2) in simp_all)
  then show ?thesis by (simp add: restarted)
qed

lemma ensure_resolver_inv:
  assumes "ensure_resolver env sa t = Inr (w, t')" and "resolvers_inv t" and "sa \<noteq> defaultSANamespacedName"
  shows "resolvers_inv t'"
proof -
  have u: "users t' x = users t x" for x
    using ensure_resolver_users [OF assms(1)] by (simp add: users_def)
  have "tr_TemplateResolvers t' x = None \<Longrightarrow> tr_TemplateResolvers t x = None" for x
    using assms(1) by (cases rule: ensure_resolver_cases) (auto split: if_splits)
  with assms(2) have "resolvers_counted t'"
    by (simp add: resolvers_inv_def resolvers_counted_def u ensure_resolver_counted [OF assms(1,2)])
  with assms show ?thesis
    by (simp add: resolvers_inv_def ensure_resolver_shape [OF assms(1)])
qed

text \<open>A new user of an account: the count goes up with the set of users.\<close>

lemma add_user_inv:
  assumes "resolvers_inv t" and "tr_TemplateResolvers t sa = Some w"
    and "fmlookup (tr_policyToServiceAccount t) p = None"
    and "card (fset (fmdom (tr_policyToServiceAccount t))) < 2 ^ 32 - 1"
  shows "resolvers_inv (t\<lparr>tr_counts := (tr_counts t)(wr_referenceCount (tr_objs t w) :=
      tr_counts t (wr_referenceCount (tr_objs t w)) + 1),
      tr_policyToServiceAccount := fmupd p sa (tr_policyToServiceAccount t)\<rparr>)"
    (is "resolvers_inv ?t")
proof -
  let ?u = "t\<lparr>tr_counts := (tr_counts t)(wr_referenceCount (tr_objs t w) :=
      tr_counts t (wr_referenceCount (tr_objs t w)) + 1)\<rparr>"
  have u: "users ?t x = (if x = sa then insert p (users t x) else users t x)" for x
    using assms(3) by (auto simp: users_def)
  have "p \<notin> users t sa" using assms(3) by (simp add: users_def)
  then have c: "card (users ?t sa) = Suc (card (users t sa))" unfolding u by simp
  have "ref_count ?t x = ref_count ?u x" for x by (simp add: ref_count_def split: option.splits)
  moreover have "ref_count ?u x = (if x = sa then ref_count t x + 1 else ref_count t x)" for x
    using ref_count_upd [OF _ assms(2), of "tr_counts t (wr_referenceCount (tr_objs t w)) + 1" x] assms(1,2)
    by (simp add: resolvers_inv_def ref_count_def)
  moreover have "card (users t sa) < 2 ^ 32 - 1"
    using card_users_le [of t sa] assms(4) by simp
  ultimately have "resolvers_counted ?t"
    using assms(1,2) c u by (auto simp: resolvers_inv_def resolvers_counted_def)
  moreover have "resolvers_shape (?u\<lparr>tr_policyToServiceAccount := m\<rparr>) = resolvers_shape t" for m
    by (simp add: resolvers_shape_def)
  ultimately show ?thesis using assms(1) by (simp add: resolvers_inv_def)
qed

lemma fmdom_remove:
  "fmdom (tr_policyToServiceAccount (snd (RemoveReplicatedPolicy env p t))) |\<subseteq>|
     fmdom (tr_policyToServiceAccount t)"
  by (cases rule: remove_cases [of t p env]) (auto simp: forget_def)

lemma remove_absent:
  "fmlookup (tr_policyToServiceAccount (snd (RemoveReplicatedPolicy env p t))) p = None"
  by (cases rule: remove_cases [of t p env]) (auto simp: forget_def)

lemma default_user_inv:
  assumes "resolvers_inv t" and "fmlookup (tr_policyToServiceAccount t) p \<in> {None, Some defaultSANamespacedName}"
  shows "resolvers_inv (t\<lparr>tr_policyToServiceAccount :=
      fmupd p defaultSANamespacedName (tr_policyToServiceAccount t)\<rparr>)" (is "resolvers_inv ?t")
proof -
  have "users ?t x = users t x" if "x \<noteq> defaultSANamespacedName" for x
    using that assms(2) by (auto simp: users_def)
  moreover have "ref_count ?t x = ref_count t x" for x
    by (simp add: ref_count_def split: option.splits)
  moreover have "resolvers_shape ?t = resolvers_shape t" by (simp add: resolvers_shape_def)
  ultimately show ?thesis using assms(1) by (simp add: resolvers_inv_def resolvers_counted_def)
qed

text \<open>The state in which \<^verbatim>\<open>GetResolver\<close> looks for the resolver: the policy uses no account, or
  already the requested one.\<close>

lemma GetResolver_cases:
  obtains (first) t1 where "resolvers_inv t \<Longrightarrow> resolvers_inv t1"
      "fmlookup (tr_policyToServiceAccount t1) p = None"
      "fmdom (tr_policyToServiceAccount t1) |\<subseteq>| fmdom (tr_policyToServiceAccount t)"
      "GetResolver env p sa t =
         (if sa = defaultSANamespacedName
          then (Inr (re_default env), t1\<lparr>tr_policyToServiceAccount :=
                   fmupd p defaultSANamespacedName (tr_policyToServiceAccount t1)\<rparr>)
          else case ensure_resolver env sa t1 of
                 Inl e \<Rightarrow> (Inl e, t1)
               | Inr (w, t) \<Rightarrow>
                   (case wr_resolver (tr_objs t w) of None \<Rightarrow> Inl nil_resolver | Some r \<Rightarrow> Inr r,
                    t\<lparr>tr_counts := (tr_counts t)(wr_referenceCount (tr_objs t w) :=
                        tr_counts t (wr_referenceCount (tr_objs t w)) + 1),
                      tr_policyToServiceAccount := fmupd p sa (tr_policyToServiceAccount t)\<rparr>))"
  | (again) "fmlookup (tr_policyToServiceAccount t) p = Some sa"
      "GetResolver env p sa t =
         (if sa = defaultSANamespacedName
          then (Inr (re_default env), t\<lparr>tr_policyToServiceAccount :=
                   fmupd p defaultSANamespacedName (tr_policyToServiceAccount t)\<rparr>)
          else case ensure_resolver env sa t of
                 Inl e \<Rightarrow> (Inl e, t)
               | Inr (w, t) \<Rightarrow>
                   (case wr_resolver (tr_objs t w) of None \<Rightarrow> Inl nil_resolver | Some r \<Rightarrow> Inr r, t))"
proof (cases "fmlookup (tr_policyToServiceAccount t) p = Some sa")
  case True
  then show ?thesis
    by (intro again) (auto simp: GetResolver_def Let_def split: sum.splits)
next
  case False
  let ?s = "if fmlookup (tr_policyToServiceAccount t) p = None then t
    else snd (RemoveReplicatedPolicy env p t)"
  show ?thesis
  proof (rule first [of ?s])
    show "fmlookup (tr_policyToServiceAccount ?s) p = None" by (simp add: remove_absent)
    show "fmdom (tr_policyToServiceAccount ?s) |\<subseteq>| fmdom (tr_policyToServiceAccount t)"
      by (simp add: fmdom_remove)
    show "resolvers_inv t \<Longrightarrow> resolvers_inv ?s" by (simp add: remove_inv)
  qed (use False in \<open>auto simp: GetResolver_def Let_def split: option.splits sum.splits\<close>)
qed

lemma ensure_resolver_set:
  assumes "ensure_resolver env sa t = Inr (w, t')" and "resolvers_shape t"
  shows "\<exists>r. wr_resolver (tr_objs t' w) = Some r"
  using assms(1)
proof (cases rule: ensure_resolver_cases)
  case usable
  with shapeD(6) [OF assms(2), of sa w] show ?thesis by simp
qed simp_all

lemma ensure_resolver_Inl:
  "ensure_resolver env sa t = Inl e \<Longrightarrow> initResolver env sa = Inl e"
  by (auto simp: ensure_resolver_def Let_def split: if_splits option.splits sum.splits)

lemma GetResolver_inv:
  assumes "resolvers_inv t" and "card (fset (fmdom (tr_policyToServiceAccount t))) < 2 ^ 32 - 1"
  shows "resolvers_inv (snd (GetResolver env p sa t))"
proof (cases rule: GetResolver_cases [of t p env sa])
  case (first t1)
  have "card (fset (fmdom (tr_policyToServiceAccount t1))) \<le> card (fset (fmdom (tr_policyToServiceAccount t)))"
    by (rule card_mono) (use first(3) in \<open>auto simp: less_eq_fset.rep_eq\<close>)
  with assms(2) have c: "card (fset (fmdom (tr_policyToServiceAccount t1))) < 2 ^ 32 - 1" by simp
  have inv: "resolvers_inv t1" by (rule first(1) [OF assms(1)])
  have add: "resolvers_inv (t'\<lparr>tr_counts := (tr_counts t')(wr_referenceCount (tr_objs t' w) :=
      tr_counts t' (wr_referenceCount (tr_objs t' w)) + 1),
      tr_policyToServiceAccount := fmupd p sa (tr_policyToServiceAccount t')\<rparr>)"
    if "ensure_resolver env sa t1 = Inr (w, t')" "sa \<noteq> defaultSANamespacedName" for w t'
    using ensure_resolver_inv [OF that(1) inv that(2)] ensure_resolver_users [OF that(1)] first(2) c
    by (intro add_user_inv) simp_all
  from inv default_user_inv [OF inv, of p] first(2) add show ?thesis
    unfolding first(4) by (auto split: sum.splits)
next
  case again
  from assms(1) default_user_inv [OF assms(1), of p] again(1) show ?thesis
    unfolding again(2) by (auto split: sum.splits dest: ensure_resolver_inv)
qed

text \<open>A lookup never meets a nil resolver: it fails only when creating the resolver does.\<close>

lemma GetResolver_result:
  assumes "resolvers_inv t"
  shows "(\<exists>r. fst (GetResolver env p sa t) = Inr r) \<or>
         (\<exists>e. fst (GetResolver env p sa t) = Inl e \<and> initResolver env sa = Inl e)"
proof (cases rule: GetResolver_cases [of t p env sa])
  case (first t1)
  from first(1) [OF assms] have "resolvers_shape t1" by (simp add: resolvers_inv_def)
  then show ?thesis unfolding first(4)
    by (auto split: sum.splits dest: ensure_resolver_Inl dest!: ensure_resolver_set)
next
  case again
  from assms have "resolvers_shape t" by (simp add: resolvers_inv_def)
  then show ?thesis unfolding again(2)
    by (auto split: sum.splits dest: ensure_resolver_Inl dest!: ensure_resolver_set)
qed

section \<open>Reachable states\<close>

lemma init_inv: "resolvers_inv NewTemplateResolvers"
  by (auto simp: resolvers_inv_def resolvers_shape_def resolvers_counted_def NewTemplateResolvers_def
      ref_count_def users_def)

lemma step_inv: "resolvers_step t t' \<Longrightarrow> resolvers_inv t \<Longrightarrow> resolvers_inv t'"
proof (erule resolvers_stepE, goal_cases)
  case (1 env p sa r)
  then show ?case using GetResolver_inv [of t env p sa] by simp
next
  case (2 env p e)
  then show ?case using remove_inv [of t env p] by simp
qed (simp_all add: cleanup_inv stopped_inv background_inv)

lemma reachable_inv: "resolvers_reachable t \<Longrightarrow> resolvers_inv t"
  by (induction rule: resolvers_reachable.induct) (auto intro: init_inv step_inv)

text \<open>A waiting cleanup goroutine takes no resolver from an account that is in use.\<close>

lemma cleanup_keeps_used:
  assumes "resolvers_inv t" and "job \<in> set (tr_pending t)" and "users t sa \<noteq> {}"
  shows "tr_TemplateResolvers (cleanup_goroutine job t) sa = tr_TemplateResolvers t sa"
proof -
  obtain w sa0 where job: "job = (w, sa0)" by fastforce
  have sh: "resolvers_shape t" using assms(1) by (simp add: resolvers_inv_def)
  have "sa \<noteq> sa0" if free: "tr_counts t (wr_referenceCount (tr_objs t w)) = 0" "\<not> wr_canceled (tr_objs t w)"
  proof -
    from shapeD(5) [OF sh] assms(2) free(2) have m: "tr_TemplateResolvers t sa0 = Some w"
      by (simp add: job)
    then have "sa0 \<noteq> defaultSANamespacedName" using shapeD(7) [OF sh] by auto
    with assms(1) have "ref_count t sa0 = of_nat (card (users t sa0))" "card (users t sa0) < 2 ^ 32"
      by (auto simp: resolvers_inv_def resolvers_counted_def)
    with m free(1) of_nat_word32_eq_0 [of "card (users t sa0)"] have "users t sa0 = {}"
      by (simp add: ref_count_def)
    with assms(3) show ?thesis by blast
  qed
  then show ?thesis by (auto simp: cleanup_goroutine_def job Let_def)
qed

section \<open>Properties\<close>

text \<open>A service account whose token can be requested, on resolvers that are numbers.\<close>

definition ex_token :: token_env where
  "ex_token = \<lparr>te_CreateToken = (\<lambda>_ n. Inr (''jwt'', n)), te_CreateTemp = (\<lambda>n. Inr n),
     te_Abs = (\<lambda>n. Inr (''/tmp/'' @ n)), te_WriteString = (\<lambda>_ _. None), te_Close = (\<lambda>_. None)\<rparr>"

definition ex_resolvers :: "nat resolver_env" where
  "ex_resolvers = \<lparr>re_token = ex_token, re_NewWatcher = (\<lambda>_ _. None), re_NewResolver = (\<lambda>_. Inr 1),
     re_UncacheWatcher = (\<lambda>_ _. None), re_default = 0\<rparr>"

definition ex_id :: ObjectIdentifier where
  "ex_id = \<lparr>oid_Group = SchemeGroup, oid_Version = ''v1'', oid_Kind = PolicyKind, oid_Namespace = ''c1'',
     oid_Name = ''ns.p''\<rparr>"

definition ex_used :: "nat resolvers" where
  "ex_used = snd (GetResolver ex_resolvers ex_id (nn ''ns'' ''sa'') NewTemplateResolvers)"

lemma ex_used_reachable: "resolvers_reachable ex_used"
proof (rule resolvers_reachable.step [OF resolvers_reachable.init])
  have "GetResolver ex_resolvers ex_id (nn ''ns'' ''sa'') NewTemplateResolvers =
      (fst (GetResolver ex_resolvers ex_id (nn ''ns'' ''sa'') NewTemplateResolvers), ex_used)"
    by (simp add: ex_used_def)
  then show "resolvers_step NewTemplateResolvers ex_used"
    by (rule resolvers_step.get [rotated]) (simp add: NewTemplateResolvers_def)
qed

lemma users_ex_used: "users ex_used (nn ''ns'' ''sa'') = {ex_id}"
  by (auto simp: users_def ex_used_def GetResolver_def ensure_resolver_def initResolver_def GetToken_def
      NewTemplateResolvers_def defaultSANamespacedName_def ex_resolvers_def ex_token_def Let_def split: if_splits)



text \<open>In every reachable state a lookup returns a resolver, never a nil one, unless a new resolver
  has to be created and creating it fails; then that error is returned.\<close>

theorem resolver_never_nil:
  assumes "resolvers_reachable t"
  shows "(\<exists>r. fst (GetResolver env p sa t) = Inr r) \<or>
    (\<exists>e. fst (GetResolver env p sa t) = Inl e \<and> initResolver env sa = Inl e)"
  by (rule GetResolver_result [OF reachable_inv [OF assms]])

theorem resolver_never_nil_witness:
  "\<exists>r. fst (GetResolver ex_resolvers ex_id (nn ''ns'' ''sa'') ex_used) = Inr r"
  using resolver_never_nil [OF ex_used_reachable, of ex_resolvers ex_id "nn ''ns'' ''sa''"]
  by (auto simp: initResolver_def GetToken_def ex_resolvers_def ex_token_def)

text \<open>When the file with a token cannot be closed, the error is lost: \<open>GetToken\<close> removes the file
  and returns an empty path with a nil error, so a resolver is created on a client without a token
  file.\<close>

theorem token_close_error_lost:
  assumes "te_CreateToken (re_token env) sa 7200 = Inr (token, expiration)"
    and "te_CreateTemp (re_token env) (''token-'' @ nn_Namespace sa @ ''.'' @ nn_Name sa @ ''-*'') = Inr f"
    and "te_Abs (re_token env) f = Inr path" and "te_WriteString (re_token env) path token = None"
    and "te_Close (re_token env) path = Some e" and "re_NewWatcher env sa [] = None"
  shows "GetToken (re_token env) sa 7200 = (([], None), \<lparr>tk_removed = [path, path], tk_refresh = None\<rparr>) \<and>
    initResolver env sa = re_NewResolver env sa"
  using assms by (simp add: GetToken_def initResolver_def no_effects_def)

theorem token_close_error_lost_witness:
  "initResolver (ex_resolvers\<lparr>re_token := ex_token\<lparr>te_Close := \<lambda>_. Some (Msg ''disk'')\<rparr>\<rparr>) (nn ''ns'' ''sa'') = Inr 1"
  using token_close_error_lost [of "ex_resolvers\<lparr>re_token := ex_token\<lparr>te_Close := \<lambda>_. Some (Msg ''disk'')\<rparr>\<rparr>"
      "nn ''ns'' ''sa''" "''jwt''" 7200 "''token-ns.sa-*''" "''/tmp/token-ns.sa-*''" "Msg ''disk''"]
  by (simp add: ex_resolvers_def ex_token_def)

end
