(* ===== verification/Encryption.thy ===== *)
theory Encryption
  imports Resource_Versions Common_Lookup
begin

text \<open>
  \<^verbatim>\<open>controllers/propagator/encryption.go\<close> and
  \<^verbatim>\<open>controllers/encryptionkeys/encryptionkeys_controller.go\<close>: the encryption key of a managed
  cluster, the initialization vector of a replicated policy, and the rotation of the keys. The
  RFC 3339 codec, base64 and the length of an initialization vector are parameters
  (\<open>crypto_env\<close>); durations are 64 bit with Go's wrap-around and saturation written out.
\<close>

section \<open>Constants and parameters\<close>

definition EncryptionKeySecret :: string where
  "EncryptionKeySecret = ''policy-encryption-key''"

definition IVAnnotation :: string where
  "IVAnnotation = SchemeGroup @ ''/encryption-iv''"

definition LastRotatedAnnotation :: string where
  "LastRotatedAnnotation = SchemeGroup @ ''/last-rotated''"

definition TriggerUpdateAnnotation :: string where
  "TriggerUpdateAnnotation = SchemeGroup @ ''/trigger-update''"

definition DisableRotationAnnotation :: string where
  "DisableRotationAnnotation = SchemeGroup @ ''/disable-rotation''"

record crypto_env =
  cr_FormatUTC :: "int \<Rightarrow> string"
  cr_FormatLocal :: "int \<Rightarrow> string"
  cr_Parse :: "string \<Rightarrow> goerr + int"
  cr_EncodeToString :: "string \<Rightarrow> string"
  cr_DecodeString :: "string \<Rightarrow> goerr + string"
  cr_IVSize :: nat

definition base64 :: "crypto_env \<Rightarrow> bool" where
  "base64 cr \<longleftrightarrow> (\<forall>bs. cr_DecodeString cr (cr_EncodeToString cr bs) = Inr bs)"

text \<open>The random source fills the whole buffer.\<close>

definition fills_buffer :: "'k api \<Rightarrow> bool" where
  "fills_buffer a \<longleftrightarrow> (\<forall>n k bs k'. RandRead a n k = (Inr bs, k') \<longrightarrow> length bs = n)"

text \<open>\<^verbatim>\<open>aes.NewCipher\<close> accepts keys of 16, 24 and 32 bytes.\<close>

definition aes_key :: "string \<Rightarrow> bool" where
  "aes_key key \<longleftrightarrow> length key = 16 \<or> length key = 24 \<or> length key = 32"

section \<open>Keys and initialization vectors of the propagator\<close>

definition GenerateEncryptionKey :: "'k api \<Rightarrow> 'k \<Rightarrow> (goerr + string) \<times> 'k" where
  "GenerateEncryptionKey a k =
     (case RandRead a (256 div 8) k of
        (Inl e, k') \<Rightarrow> (Inl (Wrapped ''failed to generate an AES-256 key'' e), k')
      | (Inr key, k') \<Rightarrow> (Inr key, k'))"

definition secret_key :: "Secret \<Rightarrow> string" where
  "secret_key s = map_index (sec_Data s) ''key''"

definition getEncryptionKey ::
  "'k api \<Rightarrow> crypto_env \<Rightarrow> string \<Rightarrow> 'k \<Rightarrow> (goerr + string) \<times> 'k" where
  "getEncryptionKey a cr clusterName k =
     (let objectKey = nn clusterName EncryptionKeySecret in
      case Get_Secret (api_read a k) objectKey of
        Inr encryptionSecret \<Rightarrow> (Inr (secret_key encryptionSecret), k)
      | Inl e \<Rightarrow>
          if IsNotFound e then
            (case GenerateEncryptionKey a k of
               (Inl e, k) \<Rightarrow> (Inl e, k)
             | (Inr key, k) \<Rightarrow>
                 let encryptionSecret =
                       \<lparr>sec_ObjectMeta = ObjectMeta_zero\<lparr>om_Name := EncryptionKeySecret,
                          om_Namespace := clusterName,
                          om_Labels := Some (fmupd ''cluster.open-cluster-management.io/backup'' ''policy'' fmempty),
                          om_Annotations := Some (fmupd LastRotatedAnnotation (cr_FormatLocal cr (Now a k)) fmempty)\<rparr>,
                        sec_Data = Some (fmupd ''key'' key fmempty)\<rparr>
                 in (case Create_Secret a encryptionSecret k of
                       (Inr created, k) \<Rightarrow> (Inr (secret_key created), k)
                     | (Inl e, k) \<Rightarrow>
                         if IsAlreadyExists e then
                           (case Get_Secret (api_read a k) objectKey of
                              Inl e \<Rightarrow> (Inl (Wrapped ''failed to get the Secret'' e), k)
                            | Inr found \<Rightarrow> (Inr (secret_key found), k))
                         else (Inl (Wrapped ''failed to create the Secret'' e), k)))
          else (Inl (Wrapped ''failed to get the Secret'' e), k))"

text \<open>The vector, the annotations (the caller's map, which is not nil) and the next state.\<close>

definition getInitializationVector ::
  "'k api \<Rightarrow> crypto_env \<Rightarrow> (string, string) fmap \<Rightarrow> 'k \<Rightarrow>
   (goerr + string) \<times> (string, string) fmap \<times> 'k" where
  "getInitializationVector a cr annotations k =
     (let found = (case fmlookup annotations IVAnnotation of
                     None \<Rightarrow> None
                   | Some initializationVector \<Rightarrow>
                       (case cr_DecodeString cr initializationVector of
                          Inl _ \<Rightarrow> None
                        | Inr decodedVector \<Rightarrow>
                            if length decodedVector = cr_IVSize cr then Some decodedVector else None))
      in case found of
           Some decodedVector \<Rightarrow> (Inr decodedVector, annotations, k)
         | None \<Rightarrow>
             (case RandRead a (cr_IVSize cr) k of
                (Inl e, k) \<Rightarrow> (Inl (Wrapped ''failed to generate the initialization vector'' e), annotations, k)
              | (Inr initializationVector, k) \<Rightarrow>
                  (Inr initializationVector,
                   fmupd IVAnnotation (cr_EncodeToString cr initializationVector) annotations, k)))"

section \<open>Key rotation\<close>

text \<open>Arithmetic of \<^verbatim>\<open>time.Duration\<close>: a product wraps, \<^verbatim>\<open>time.Until\<close> saturates.\<close>

definition wrap64 :: "int \<Rightarrow> int" where
  "wrap64 x = (x + 2 ^ 63) mod 2 ^ 64 - 2 ^ 63"

definition sat64 :: "int \<Rightarrow> int" where
  "sat64 x = max (- (2 ^ 63)) (min (2 ^ 63 - 1) x)"

definition Hour :: Duration where
  "Hour = 3600 * Second"

definition getNextRotationFromNow ::
  "crypto_env \<Rightarrow> nat \<Rightarrow> int \<Rightarrow> Secret \<Rightarrow> goerr + Duration" where
  "getNextRotationFromNow cr keyRotationDays now secret =
     (let lastRotatedTS = map_index (om_Annotations (sec_ObjectMeta secret)) LastRotatedAnnotation in
      case cr_Parse cr lastRotatedTS of
        Inl e \<Rightarrow> Inl (Wrapped ''failed to parse the last-rotated annotation'' e)
      | Inr lastRotated \<Rightarrow>
          Inr (sat64 (lastRotated + wrap64 (Hour * 24 * int keyRotationDays) - now)))"

text \<open>A write to a nil map is a panic.\<close>

definition nil_map :: goerr where
  "nil_map = Msg ''assignment to entry in nil map''"

definition set_data :: "string \<Rightarrow> string \<Rightarrow> Secret \<Rightarrow> goerr + Secret" where
  "set_data field bytes secret =
     (case sec_Data secret of
        None \<Rightarrow> Inl nil_map
      | Some m \<Rightarrow> Inr (secret\<lparr>sec_Data := Some (fmupd field bytes m)\<rparr>))"

definition rotateKey :: "'k api \<Rightarrow> crypto_env \<Rightarrow> Secret \<Rightarrow> 'k \<Rightarrow> (goerr + Secret) \<times> 'k" where
  "rotateKey a cr secret k =
     (case GenerateEncryptionKey a k of
        (Inl e, k) \<Rightarrow> (Inl e, k)
      | (Inr newKey, k) \<Rightarrow>
          (case set_data ''previousKey'' (secret_key secret) secret of
             Inl e \<Rightarrow> (Inl e, k)
           | Inr secret \<Rightarrow>
               (case set_data ''key'' newKey secret of
                  Inl e \<Rightarrow> (Inl e, k)
                | Inr secret \<Rightarrow>
                    let annotations = fmupd LastRotatedAnnotation (cr_FormatUTC cr (Now a k))
                                        (raw_map (om_Annotations (sec_ObjectMeta secret)));
                        secret = secret\<lparr>sec_ObjectMeta := (sec_ObjectMeta secret)\<lparr>om_Annotations := Some annotations\<rparr>\<rparr>
                    in Update_Secret a secret k)))"

definition quoted :: "string \<Rightarrow> string" where
  "quoted s = [CHR 0x22] @ s @ [CHR 0x22]"

definition trigger_patch :: "string \<Rightarrow> Secret \<Rightarrow> string" where
  "trigger_patch clusterName secret =
     (let value = ''rotate-key-'' @ clusterName @ ''-'' @
            map_index (om_Annotations (sec_ObjectMeta secret)) LastRotatedAnnotation
      in ''{'' @ quoted ''metadata'' @ '':{'' @ quoted ''annotations'' @ '':{'' @
         quoted TriggerUpdateAnnotation @ '':'' @ quoted value @ ''}}}'')"

text \<open>The root policy one turn of the loop patches, if any.\<close>

definition trigger_root :: "Policy \<Rightarrow> NamespacedName option" where
  "trigger_root policy =
     (if \<not> map_has (p_Annotations policy) IVAnnotation then None
      else
        let rootPlcName = map_index (p_Labels policy) RootPolicyLabel in
        if rootPlcName = [] then None
        else case ParseRootPolicyLabel rootPlcName of
               Inl _ \<Rightarrow> None
             | Inr (name, namespace) \<Rightarrow> Some (nn namespace name))"

definition triggerTemplateUpdate :: "'k api \<Rightarrow> string \<Rightarrow> Secret \<Rightarrow> 'k \<Rightarrow> 'k" where
  "triggerTemplateUpdate a clusterName secret k =
     (let policies = (case List_Policies (api_read a k) [InNamespace clusterName] of Inl _ \<Rightarrow> [] | Inr ps \<Rightarrow> ps);
          patch = trigger_patch clusterName secret
      in fold (\<lambda>policy k. case trigger_root policy of
                 None \<Rightarrow> k
               | Some rootPolicy \<Rightarrow> snd (Patch_Policy a rootPolicy patch k)) policies k)"

definition EncryptionKeys_Reconcile ::
  "'k api \<Rightarrow> crypto_env \<Rightarrow> nat \<Rightarrow> Request \<Rightarrow> 'k \<Rightarrow> (ReconcileResult \<times> goerr option) \<times> 'k" where
  "EncryptionKeys_Reconcile a cr keyRotationDays request k =
     (let clusterName = nn_Namespace request; c = api_read a k in
      if nn_Name request \<noteq> EncryptionKeySecret then ((Result_zero, None), k)
      else case IsInClusterNamespace c (nn_Namespace request) of
        Inl e \<Rightarrow> ((Result_zero, Some e), k)
      | Inr inClusterNamespace \<Rightarrow>
        if \<not> inClusterNamespace then ((Result_zero, None), k)
        else case Get_Secret c request of
          Inl e \<Rightarrow> ((Result_zero, if IsNotFound e then None else Some e), k)
        | Inr secret \<Rightarrow>
          let annotations = om_Annotations (sec_ObjectMeta secret) in
          if EqualFold (map_index annotations DisableRotationAnnotation) ''true''
          then ((Result_zero, None), triggerTemplateUpdate a clusterName secret k)
          else
            let lastRotatedTS = map_index annotations LastRotatedAnnotation;
                nextRotation = (if lastRotatedTS = [] then 0
                                else case getNextRotationFromNow cr keyRotationDays (Now a k) secret of
                                       Inl _ \<Rightarrow> 0 | Inr d \<Rightarrow> d);
                bad_key = (\<not> aes_key (secret_key secret));
                nextRotation = (if bad_key then 0 else nextRotation)
            in case (if bad_key then set_data ''key'' [] secret else Inr secret) of
                 Inl e \<Rightarrow> ((Result_zero, Some e), k)
               | Inr secret \<Rightarrow>
                 if 0 < nextRotation then
                   (let previousKey = map_index (sec_Data secret) ''previousKey'' in
                    if 0 < length previousKey \<and> \<not> aes_key previousKey then
                      (case set_data ''previousKey'' [] secret of
                         Inl e \<Rightarrow> ((Result_zero, Some e), k)
                       | Inr secret \<Rightarrow>
                           (case Update_Secret a secret k of
                              (Inl e, k) \<Rightarrow> ((Result_zero, Some e), k)
                            | (Inr _, k) \<Rightarrow> ((\<lparr>rr_RequeueAfter = nextRotation\<rparr>, None), k)))
                    else ((\<lparr>rr_RequeueAfter = nextRotation\<rparr>, None), k))
                 else
                   (case rotateKey a cr secret k of
                      (Inl e, k) \<Rightarrow> ((Result_zero, Some e), k)
                    | (Inr secret, k) \<Rightarrow>
                        let k = triggerTemplateUpdate a clusterName secret k;
                            nextRotation = (case getNextRotationFromNow cr keyRotationDays (Now a k) secret of
                                              Inl _ \<Rightarrow> 0 | Inr d \<Rightarrow> d)
                        in ((\<lparr>rr_RequeueAfter = nextRotation\<rparr>, None), k)))"

section \<open>Lemmas\<close>

lemma wrap64_id: "- (2 ^ 63) \<le> x \<Longrightarrow> x < 2 ^ 63 \<Longrightarrow> wrap64 x = x"
  by (simp add: wrap64_def)

lemma wrap64_range: "- (2 ^ 63) \<le> wrap64 x" "wrap64 x < 2 ^ 63"
proof -
  have "0 \<le> (x + 2 ^ 63) mod 2 ^ 64" "(x + 2 ^ 63) mod 2 ^ 64 < 2 ^ 64" by simp_all
  then show "- (2 ^ 63) \<le> wrap64 x" "wrap64 x < 2 ^ 63" by (simp_all add: wrap64_def)
qed

lemma sat64_id: "- (2 ^ 63) \<le> x \<Longrightarrow> x < 2 ^ 63 \<Longrightarrow> sat64 x = x"
  by (simp add: sat64_def)

lemma sat64_pos: "0 < x \<Longrightarrow> 0 < sat64 x"
  by (simp add: sat64_def)

text \<open>The product of the source does not wrap up to 106751 days.\<close>

lemma rotation_no_wrap:
  "n \<le> 106751 \<Longrightarrow> wrap64 (Hour * 24 * int n) = Hour * 24 * int n"
  by (rule wrap64_id) (simp_all add: Hour_def Second_def)

lemma getInitializationVector_length:
  assumes "getInitializationVector a cr ann k = (Inr iv, ann', k')" and "fills_buffer a"
  shows "length iv = cr_IVSize cr"
  using assms
  by (auto simp: getInitializationVector_def fills_buffer_def Let_def
      split: option.splits sum.splits if_splits prod.splits)

text \<open>A second call finds the vector of the first and changes nothing.\<close>

lemma getInitializationVector_stable:
  assumes "getInitializationVector a cr ann k = (Inr iv, ann', k')" and "fills_buffer a" and "base64 cr"
  shows "getInitializationVector a cr ann' k'' = (Inr iv, ann', k'')"
proof -
  have "\<exists>s. fmlookup ann' IVAnnotation = Some s \<and> cr_DecodeString cr s = Inr iv"
    using assms(1,3)
    by (auto simp: getInitializationVector_def base64_def Let_def
        split: option.splits sum.splits if_splits prod.splits)
  with getInitializationVector_length [OF assms(1,2)] show ?thesis
    by (auto simp: getInitializationVector_def)
qed

lemma secret_key_set_data:
  "set_data f bs s = Inr s' \<Longrightarrow> secret_key s' = (if f = ''key'' then bs else secret_key s)"
  by (auto simp: set_data_def secret_key_def split: option.splits)

lemma previousKey_set_data:
  "set_data f bs s = Inr s' \<Longrightarrow>
     map_index (sec_Data s') ''previousKey'' = (if f = ''previousKey'' then bs else map_index (sec_Data s) ''previousKey'')"
  by (auto simp: set_data_def split: option.splits)

text \<open>What a rotation asks the server to store.\<close>

definition rotated :: "crypto_env \<Rightarrow> string \<Rightarrow> int \<Rightarrow> Secret \<Rightarrow> Secret \<Rightarrow> bool" where
  "rotated cr newKey now old new \<longleftrightarrow>
     secret_key new = newKey \<and>
     map_index (sec_Data new) ''previousKey'' = secret_key old \<and>
     map_index (om_Annotations (sec_ObjectMeta new)) LastRotatedAnnotation = cr_FormatUTC cr now"

lemma rotateKey_result:
  assumes "rotateKey a cr s k = (Inr s', k')"
  obtains newKey k1 new where "RandRead a 32 k = (Inr newKey, k1)" "rotated cr newKey (Now a k1) s new"
    "Update_Secret a new k1 = (Inr s', k')"
proof -
  from assms obtain newKey k1 s1 s2 where
    gen: "GenerateEncryptionKey a k = (Inr newKey, k1)" and
    s1: "set_data ''previousKey'' (secret_key s) s = Inr s1" and
    s2: "set_data ''key'' newKey s1 = Inr s2" and
    upd: "Update_Secret a (s2\<lparr>sec_ObjectMeta := (sec_ObjectMeta s2)\<lparr>om_Annotations :=
        Some (fmupd LastRotatedAnnotation (cr_FormatUTC cr (Now a k1))
          (raw_map (om_Annotations (sec_ObjectMeta s2))))\<rparr>\<rparr>) k1 = (Inr s', k')"
    by (auto simp: rotateKey_def Let_def split: prod.splits sum.splits)
  from gen have "RandRead a 32 k = (Inr newKey, k1)"
    by (auto simp: GenerateEncryptionKey_def split: prod.splits sum.splits)
  moreover have "rotated cr newKey (Now a k1) s (s2\<lparr>sec_ObjectMeta := (sec_ObjectMeta s2)\<lparr>om_Annotations :=
        Some (fmupd LastRotatedAnnotation (cr_FormatUTC cr (Now a k1))
          (raw_map (om_Annotations (sec_ObjectMeta s2))))\<rparr>\<rparr>)"
    using secret_key_set_data [OF s2] previousKey_set_data [OF s2] previousKey_set_data [OF s1]
    by (simp add: rotated_def secret_key_def)
  ultimately show ?thesis using upd that by blast
qed

lemma fold_trigger:
  "fold (\<lambda>policy k. case trigger_root policy of
       None \<Rightarrow> k | Some r \<Rightarrow> snd (Patch_Policy a r patch k)) ps k =
     fold (\<lambda>r k. snd (Patch_Policy a r patch k)) (List.map_filter trigger_root ps) k"
  by (induction ps arbitrary: k) (auto simp: List.map_filter_simps split: option.splits)

lemma trigger_root_Some:
  "trigger_root p = Some r \<longleftrightarrow>
     map_has (p_Annotations p) IVAnnotation \<and> CHR ''.'' \<notin> set (nn_Namespace r) \<and>
     map_index (p_Labels p) RootPolicyLabel = nn_Namespace r @ ''.'' @ nn_Name r"
proof
  assume "trigger_root p = Some r"
  then show "map_has (p_Annotations p) IVAnnotation \<and> CHR ''.'' \<notin> set (nn_Namespace r) \<and>
     map_index (p_Labels p) RootPolicyLabel = nn_Namespace r @ ''.'' @ nn_Name r"
    by (auto simp: trigger_root_def Let_def ParseRootPolicyLabel_Inr split: sum.splits if_splits)
next
  assume r: "map_has (p_Annotations p) IVAnnotation \<and> CHR ''.'' \<notin> set (nn_Namespace r) \<and>
     map_index (p_Labels p) RootPolicyLabel = nn_Namespace r @ ''.'' @ nn_Name r"
  then have "ParseRootPolicyLabel (map_index (p_Labels p) RootPolicyLabel) = Inr (nn_Name r, nn_Namespace r)"
    using ParseRootPolicyLabel_append by simp
  with r show "trigger_root p = Some r" by (simp add: trigger_root_def)
qed

lemma rotateKey_eq:
  assumes "sec_Data s = Some m" and "RandRead a 32 k = (Inr newKey, k1)"
  shows "\<exists>new. rotated cr newKey (Now a k1) s new \<and> rotateKey a cr s k = Update_Secret a new k1"
proof -
  let ?new = "s\<lparr>sec_Data := Some (fmupd ''key'' newKey (fmupd ''previousKey'' (secret_key s) m)),
      sec_ObjectMeta := (sec_ObjectMeta s)\<lparr>om_Annotations :=
        Some (fmupd LastRotatedAnnotation (cr_FormatUTC cr (Now a k1))
          (raw_map (om_Annotations (sec_ObjectMeta s))))\<rparr>\<rparr>"
  have "rotateKey a cr s k = Update_Secret a ?new k1"
    using assms by (simp add: rotateKey_def GenerateEncryptionKey_def set_data_def)
  moreover have "rotated cr newKey (Now a k1) s ?new"
    by (simp add: rotated_def) (simp add: secret_key_def)
  ultimately show ?thesis by blast
qed

text \<open>The Secret the controller is responsible for, on which rotation is not disabled.\<close>

definition rotation_request :: "client_reader \<Rightarrow> Request \<Rightarrow> Secret \<Rightarrow> bool" where
  "rotation_request c request secret \<longleftrightarrow>
     nn_Name request = EncryptionKeySecret \<and> IsInClusterNamespace c (nn_Namespace request) = Inr True \<and>
     Get_Secret c request = Inr secret \<and>
     \<not> EqualFold (map_index (om_Annotations (sec_ObjectMeta secret)) DisableRotationAnnotation) ''true''"

lemma aes_key_data: "aes_key (secret_key s) \<Longrightarrow> \<exists>m. sec_Data s = Some m"
  by (cases "sec_Data s") (simp_all add: aes_key_def secret_key_def)

section \<open>Properties\<close>

definition ex_crypto :: crypto_env where
  "ex_crypto = \<lparr>cr_FormatUTC = (\<lambda>_. ''t''), cr_FormatLocal = (\<lambda>_. ''t''), cr_Parse = (\<lambda>_. Inr 0),
     cr_EncodeToString = (\<lambda>s. s), cr_DecodeString = (\<lambda>s. Inr s), cr_IVSize = 16\<rparr>"

definition ex_secret :: "string \<Rightarrow> string \<Rightarrow> Secret" where
  "ex_secret key ts =
     \<lparr>sec_ObjectMeta = (ex_meta ''c1'' EncryptionKeySecret)\<lparr>om_Annotations := Some (fmupd LastRotatedAnnotation ts fmempty)\<rparr>,
      sec_Data = Some (fmupd ''key'' key fmempty)\<rparr>"

definition ex_hub :: "Secret \<Rightarrow> ex_write list api" where
  "ex_hub s = ex_api (ex_reader\<lparr>Get_Secret := \<lambda>_. Inr s, List_Policies := \<lambda>_. Inr []\<rparr>)"

definition ex_old_key :: string where
  "ex_old_key = replicate 32 CHR ''k''"

lemma ex_hub_simps:
  "Now (ex_hub s) k = 1000000000" "RandRead (ex_hub s) n k = (Inr (replicate n CHR ''r''), k)"
  "Update_Secret (ex_hub s) s' k = (Inr s', k @ [SecretUpdated s'])"
  "triggerTemplateUpdate (ex_hub s) cl s' k = k"
  by (simp_all add: ex_hub_def ex_api_def triggerTemplateUpdate_def)

lemma ex_secret_request:
  "rotation_request (api_read (ex_hub (ex_secret key ts)) k) (nn ''c1'' EncryptionKeySecret) (ex_secret key ts)"
  by (simp add: rotation_request_def ex_hub_def ex_api_def ex_reader_def ex_secret_def IsInClusterNamespace_def
      EqualFold_def DisableRotationAnnotation_def LastRotatedAnnotation_def SchemeGroup_def)

text \<open>C28. When a rotation is due (never rotated, an unreadable time, or the period has passed), the
  controller asks the server to store a Secret with the new random key, the old valid key as the
  previous one and the current time; if the server refuses the error is returned, otherwise the
  templates of the cluster are triggered with the stored Secret.\<close>

theorem rotation_keeps_previous_key:
  assumes "rotation_request (api_read a k) request secret" and "aes_key (secret_key secret)"
    and "map_index (om_Annotations (sec_ObjectMeta secret)) LastRotatedAnnotation = [] \<or>
      (case getNextRotationFromNow cr days (Now a k) secret of Inl _ \<Rightarrow> True | Inr d \<Rightarrow> d \<le> 0)"
    and "RandRead a 32 k = (Inr newKey, k1)"
  shows "\<exists>new. rotated cr newKey (Now a k1) secret new \<and>
    (case Update_Secret a new k1 of
       (Inl e, k2) \<Rightarrow> EncryptionKeys_Reconcile a cr days request k = ((Result_zero, Some e), k2)
     | (Inr stored, k2) \<Rightarrow>
         snd (fst (EncryptionKeys_Reconcile a cr days request k)) = None \<and>
         snd (EncryptionKeys_Reconcile a cr days request k) =
           triggerTemplateUpdate a (nn_Namespace request) stored k2)"
proof -
  obtain m where m: "sec_Data secret = Some m" using aes_key_data [OF assms(2)] by blast
  obtain new where new: "rotated cr newKey (Now a k1) secret new" "rotateKey a cr secret k = Update_Secret a new k1"
    using rotateKey_eq [OF m assms(4)] by blast
  have "(if map_index (om_Annotations (sec_ObjectMeta secret)) LastRotatedAnnotation = [] then 0
      else case getNextRotationFromNow cr days (Now a k) secret of Inl _ \<Rightarrow> 0 | Inr d \<Rightarrow> d) \<le> 0"
    using assms(3) by (auto split: sum.splits)
  with assms(1,2) new(2) have "EncryptionKeys_Reconcile a cr days request k =
      (case Update_Secret a new k1 of
         (Inl e, k) \<Rightarrow> ((Result_zero, Some e), k)
       | (Inr secret, k) \<Rightarrow>
           let k = triggerTemplateUpdate a (nn_Namespace request) secret k;
               nextRotation = (case getNextRotationFromNow cr days (Now a k) secret of Inl _ \<Rightarrow> 0 | Inr d \<Rightarrow> d)
           in ((\<lparr>rr_RequeueAfter = nextRotation\<rparr>, None), k))"
    by (simp add: EncryptionKeys_Reconcile_def rotation_request_def Let_def)
  with new(1) show ?thesis by (intro exI [of _ new]) (auto simp: Let_def split: prod.splits sum.splits)
qed

theorem rotation_keeps_previous_key_witness:
  "\<exists>new. rotated ex_crypto (replicate 32 CHR ''r'') 1000000000 (ex_secret ex_old_key []) new \<and>
     snd (EncryptionKeys_Reconcile (ex_hub (ex_secret ex_old_key [])) ex_crypto 30 (nn ''c1'' EncryptionKeySecret) []) =
       [SecretUpdated new]"
proof -
  let ?s = "ex_secret ex_old_key []"
  have k: "aes_key (secret_key ?s)"
    by (simp add: aes_key_def secret_key_def ex_secret_def ex_old_key_def)
  have "map_index (om_Annotations (sec_ObjectMeta ?s)) LastRotatedAnnotation = []"
    by (simp add: ex_secret_def)
  with rotation_keeps_previous_key [OF ex_secret_request [of ex_old_key "[]" "[]"] k,
      of ex_crypto 30 "replicate 32 CHR ''r''" "[]"]
  show ?thesis by (auto simp: ex_hub_simps)
qed

text \<open>Before a rotation is due nothing is written: with valid keys and a rotation period that
  fits in 64 bits the controller only comes back after exactly the time that is left.\<close>

theorem no_rotation_before_due:
  assumes "rotation_request (api_read a k) request secret" and "aes_key (secret_key secret)"
    and "map_index (om_Annotations (sec_ObjectMeta secret)) LastRotatedAnnotation = ts" and "ts \<noteq> []"
    and "cr_Parse cr ts = Inr lastRotated" and "days \<le> 106751"
    and "Now a k < lastRotated + Hour * 24 * int days"
    and "lastRotated + Hour * 24 * int days - Now a k < 2 ^ 63"
    and "map_index (sec_Data secret) ''previousKey'' = [] \<or> aes_key (map_index (sec_Data secret) ''previousKey'')"
  shows "EncryptionKeys_Reconcile a cr days request k =
    ((\<lparr>rr_RequeueAfter = lastRotated + Hour * 24 * int days - Now a k\<rparr>, None), k)"
proof -
  have "getNextRotationFromNow cr days (Now a k) secret = Inr (lastRotated + Hour * 24 * int days - Now a k)"
    using assms(3,5-8) by (simp add: getNextRotationFromNow_def rotation_no_wrap sat64_id)
  with assms show ?thesis
    by (auto simp: EncryptionKeys_Reconcile_def rotation_request_def Let_def)
qed

theorem no_rotation_before_due_witness:
  "EncryptionKeys_Reconcile (ex_hub (ex_secret ex_old_key ''t'')) ex_crypto 1 (nn ''c1'' EncryptionKeySecret) [] =
     ((\<lparr>rr_RequeueAfter = Hour * 24 - 1000000000\<rparr>, None), [])"
  using no_rotation_before_due [OF ex_secret_request [of ex_old_key "''t''" "[]"], of "''t''" ex_crypto 0 1]
  by (simp add: aes_key_def secret_key_def ex_secret_def ex_old_key_def ex_crypto_def ex_hub_simps
      Hour_def Second_def)

text \<open>An encryption key that AES does not accept is replaced at once and not kept: the Secret that
  is stored has the new key and an empty previous key. A Secret with no data at all makes the
  controller write to a nil map instead.\<close>

theorem invalid_key_dropped:
  assumes "rotation_request (api_read a k) request secret" and "\<not> aes_key (secret_key secret)"
    and "RandRead a 32 k = (Inr newKey, k1)"
  shows "(sec_Data secret = None \<longrightarrow>
      EncryptionKeys_Reconcile a cr days request k = ((Result_zero, Some nil_map), k)) \<and>
    (sec_Data secret \<noteq> None \<longrightarrow>
      (\<exists>new. secret_key new = newKey \<and> map_index (sec_Data new) ''previousKey'' = [] \<and>
        (case Update_Secret a new k1 of
           (Inl e, k2) \<Rightarrow> EncryptionKeys_Reconcile a cr days request k = ((Result_zero, Some e), k2)
         | (Inr stored, k2) \<Rightarrow>
             snd (EncryptionKeys_Reconcile a cr days request k) =
               triggerTemplateUpdate a (nn_Namespace request) stored k2)))"
proof (cases "sec_Data secret")
  case None
  with assms(1,2) show ?thesis
    by (simp add: EncryptionKeys_Reconcile_def rotation_request_def set_data_def Let_def)
next
  case (Some m)
  let ?s = "secret\<lparr>sec_Data := Some (fmupd ''key'' [] m)\<rparr>"
  obtain new where new: "rotated cr newKey (Now a k1) ?s new" "rotateKey a cr ?s k = Update_Secret a new k1"
    using rotateKey_eq [OF _ assms(3), of ?s] by auto
  from new(1) have "secret_key new = newKey \<and> map_index (sec_Data new) ''previousKey'' = []"
    by (simp add: rotated_def secret_key_def)
  moreover from assms(1,2) Some new(2) have "EncryptionKeys_Reconcile a cr days request k =
      (case Update_Secret a new k1 of
         (Inl e, k) \<Rightarrow> ((Result_zero, Some e), k)
       | (Inr secret, k) \<Rightarrow>
           let k = triggerTemplateUpdate a (nn_Namespace request) secret k;
               nextRotation = (case getNextRotationFromNow cr days (Now a k) secret of Inl _ \<Rightarrow> 0 | Inr d \<Rightarrow> d)
           in ((\<lparr>rr_RequeueAfter = nextRotation\<rparr>, None), k))"
    by (simp add: EncryptionKeys_Reconcile_def rotation_request_def set_data_def Let_def)
  ultimately show ?thesis using Some
    by (intro conjI impI exI [of _ new]) (auto simp: Let_def split: prod.splits sum.splits)
qed

theorem invalid_key_dropped_witness:
  "\<exists>new. map_index (sec_Data new) ''previousKey'' = [] \<and>
     snd (EncryptionKeys_Reconcile (ex_hub (ex_secret ''bad'' ''t'')) ex_crypto 30 (nn ''c1'' EncryptionKeySecret) []) =
       [SecretUpdated new]"
proof -
  let ?s = "ex_secret ''bad'' ''t''"
  have k: "\<not> aes_key (secret_key ?s)"
    by (simp add: aes_key_def secret_key_def ex_secret_def)
  have "sec_Data ?s \<noteq> None" by (simp add: ex_secret_def)
  with invalid_key_dropped [OF ex_secret_request [of "''bad''" "''t''" "[]"] k,
      of "replicate 32 CHR ''r''" "[]" ex_crypto 30]
  show ?thesis by (auto simp: ex_hub_simps)
qed

text \<open>An initialization vector has the length the cipher needs, and once it is in the annotations
  every later call returns the same vector, changes no annotation and draws no randomness.\<close>

theorem initialization_vector_stable:
  assumes "getInitializationVector a cr ann k = (Inr iv, ann', k')" and "fills_buffer a" and "base64 cr"
  shows "length iv = cr_IVSize cr \<and> getInitializationVector a cr ann' k'' = (Inr iv, ann', k'')"
  using getInitializationVector_length [OF assms(1,2)] getInitializationVector_stable [OF assms] by simp

theorem initialization_vector_stable_witness:
  "\<exists>ann. getInitializationVector (ex_api ex_reader) ex_crypto ann [] = (Inr (replicate 16 CHR ''r''), ann, [])"
proof -
  have f: "fills_buffer (ex_api ex_reader)" by (simp add: fills_buffer_def ex_api_def)
  have b: "base64 ex_crypto" by (simp add: base64_def ex_crypto_def)
  have "getInitializationVector (ex_api ex_reader) ex_crypto fmempty [] =
      (Inr (replicate 16 CHR ''r''), fmupd IVAnnotation (replicate 16 CHR ''r'') fmempty, [])"
    by (simp add: getInitializationVector_def ex_api_def ex_crypto_def)
  from initialization_vector_stable [OF this f b, of "[]"] show ?thesis by blast
qed

text \<open>After a rotation exactly the root policies of the encrypted replicas are patched: those named
  by the root policy label of a policy in the cluster namespace that has an initialization vector,
  one patch per replica and in the listed order; when the list fails nothing is patched.\<close>

theorem rotation_triggers_exactly:
  "\<exists>roots. triggerTemplateUpdate a cl secret k =
       fold (\<lambda>r k. snd (Patch_Policy a r (trigger_patch cl secret) k)) roots k \<and>
     set roots = {r. \<exists>ps. List_Policies (api_read a k) [InNamespace cl] = Inr ps \<and>
       (\<exists>p \<in> set ps. map_has (p_Annotations p) IVAnnotation \<and> CHR ''.'' \<notin> set (nn_Namespace r) \<and>
          map_index (p_Labels p) RootPolicyLabel = nn_Namespace r @ ''.'' @ nn_Name r)}"
proof (cases "List_Policies (api_read a k) [InNamespace cl]")
  case (Inl e)
  then show ?thesis by (intro exI [of _ "[]"]) (simp add: triggerTemplateUpdate_def)
next
  case (Inr ps)
  have "set (List.map_filter trigger_root ps) = {r. \<exists>p \<in> set ps. trigger_root p = Some r}"
    by (induction ps) (auto simp: List.map_filter_simps split: option.splits)
  with Inr show ?thesis
    by (intro exI [of _ "List.map_filter trigger_root ps"])
       (simp add: triggerTemplateUpdate_def fold_trigger trigger_root_Some)
qed

end
