(* ===== verification/Template_Processing.thy ===== *)
theory Template_Processing
  imports Template_Resolvers Encryption
begin

text \<open>
  \<^verbatim>\<open>processTemplates\<close> of \<^verbatim>\<open>controllers/propagator/propagation.go\<close>, with
  \<^verbatim>\<open>getTemplateResolverOpts\<close>, \<^verbatim>\<open>addManagedClusterLabels\<close> and \<^verbatim>\<open>setTemplateError\<close>
  (\<^verbatim>\<open>template_utils.go\<close>). The template library and the JSON codec are parameters
  (\<open>template_env\<close>): the theory says which template is resolved with which options, what is written
  back and which errors are retried.
\<close>

section \<open>Parameters\<close>

record templateCtx =
  tc_ManagedClusterName :: string
  tc_ManagedClusterLabels :: strmap
  tc_annotations :: strmap
  tc_labels :: strmap
  tc_name :: string
  tc_namespace :: string

text \<open>
  \<open>ro_ContextTransformers\<close> are the clusters whose labels \<^verbatim>\<open>addManagedClusterLabels\<close> adds to the
  context; \<open>ro_ClusterScopedAllowList\<close> the managed clusters a template may read.
\<close>

record ResolveOptions =
  ro_ClusterScopedAllowList :: "string list"
  ro_LookupNamespace :: string
  ro_Watcher :: ObjectIdentifier
  ro_DenylistFunctions :: "string list"
  ro_ContextTransformers :: "string list"
  ro_EncryptionConfig :: "(string \<times> string) option"

text \<open>
  \<open>tm_Annotations\<close> parses an object definition and returns its annotations,
  \<open>tm_WithAnnotations\<close> is the definition with other annotations, marshalled again.
\<close>

record 'r template_env =
  tm_HasTemplate :: "string \<Rightarrow> bool"
  tm_UsesEncryption :: "string \<Rightarrow> bool"
  tm_ResolveTemplate :: "'r \<Rightarrow> string \<Rightarrow> templateCtx \<Rightarrow> ResolveOptions \<Rightarrow> goerr + string"
  tm_StartQueryBatch :: "'r \<Rightarrow> ObjectIdentifier \<Rightarrow> goerr option"
  tm_Annotations :: "string \<Rightarrow> goerr + strmap"
  tm_WithAnnotations :: "string \<Rightarrow> strmap \<Rightarrow> goerr + string"
  tm_Error :: "goerr \<Rightarrow> string"

section \<open>Standard library\<close>

fun Contains :: "string \<Rightarrow> string \<Rightarrow> bool" where
  "Contains [] sub = (sub = [])"
| "Contains (c # cs) sub = (HasPrefix (c # cs) sub \<or> Contains cs sub)"

text \<open>The strings for which \<^verbatim>\<open>strconv.ParseBool\<close> returns true.\<close>

definition ParseBool_true :: "string \<Rightarrow> bool" where
  "ParseBool_true s \<longleftrightarrow> s \<in> set [''1'', ''t'', ''T'', ''TRUE'', ''true'', ''True'']"

section \<open>Definitions\<close>

text \<open>
  The transformer of \<^verbatim>\<open>addManagedClusterLabels\<close>: \<open>get\<close> is the query of the template library, as far as the
  labels of the object go; a context of another type (\<open>Inr\<close>) is left as it is.
\<close>

definition addManagedClusterLabels ::
  "string \<Rightarrow> (string \<times> string \<times> string \<Rightarrow> string \<Rightarrow> string \<Rightarrow> goerr + strmap) \<Rightarrow> templateCtx + 'a \<Rightarrow>
   (templateCtx + 'a) \<times> goerr option" where
  "addManagedClusterLabels clusterName get ctx =
     (case ctx of
        Inr other \<Rightarrow> (ctx, None)
      | Inl typedCtx \<Rightarrow>
          (case get (''cluster.open-cluster-management.io'', ''v1'', ''ManagedCluster'') [] clusterName of
             Inl err \<Rightarrow> (ctx, Some err)
           | Inr labels \<Rightarrow> (Inl (typedCtx\<lparr>tc_ManagedClusterLabels := labels\<rparr>), None)))"

text \<open>
  The loop adds the transformer once for every template that uses the labels; more than once changes
  nothing.
\<close>

lemma addManagedClusterLabels_again:
  "addManagedClusterLabels cl get ctx = (ctx', None) \<Longrightarrow> addManagedClusterLabels cl get ctx' = (ctx', None)"
  by (auto simp: addManagedClusterLabels_def split: sum.splits)

definition DisableTemplatesAnnotation :: string where
  "DisableTemplatesAnnotation = SchemeGroup @ ''/disable-templates''"

definition HubTemplatesErrorAnnotation :: string where
  "HubTemplatesErrorAnnotation = SchemeGroup @ ''/hub-templates-error''"

definition getTemplateResolverOpts ::
  "string list \<Rightarrow> Policy \<Rightarrow> Policy \<Rightarrow> string \<Rightarrow> ObjectIdentifier \<Rightarrow> NamespacedName \<times> ResolveOptions" where
  "getTemplateResolverOpts denylist replicatedPlc rootPlc clusterName watcher =
     (let saName = (case ps_HubTemplateOptions (p_Spec replicatedPlc) of None \<Rightarrow> [] | Some n \<Rightarrow> n) in
      if saName \<noteq> [] then
        (nn (p_Namespace rootPlc) saName,
         \<lparr>ro_ClusterScopedAllowList = [], ro_LookupNamespace = [], ro_Watcher = watcher,
          ro_DenylistFunctions = denylist, ro_ContextTransformers = [], ro_EncryptionConfig = None\<rparr>)
      else
        (defaultSANamespacedName,
         \<lparr>ro_ClusterScopedAllowList = [clusterName], ro_LookupNamespace = p_Namespace rootPlc,
          ro_Watcher = watcher, ro_DenylistFunctions = denylist, ro_ContextTransformers = [],
          ro_EncryptionConfig = None\<rparr>))"

text \<open>The template after the call; a definition that cannot be parsed or marshalled is kept.\<close>

definition setTemplateError :: "'r template_env \<Rightarrow> PolicyTemplate \<Rightarrow> string \<Rightarrow> PolicyTemplate" where
  "setTemplateError te policyT msg =
     (case tm_Annotations te (pt_ObjectDefinition policyT) of
        Inl _ \<Rightarrow> policyT
      | Inr annotations \<Rightarrow>
          (case tm_WithAnnotations te (pt_ObjectDefinition policyT)
                  (Some (fmupd HubTemplatesErrorAnnotation msg (raw_map annotations))) of
             Inl _ \<Rightarrow> policyT
           | Inr updated \<Rightarrow> policyT\<lparr>pt_ObjectDefinition := updated\<rparr>))"

text \<open>Errors worth another attempt.\<close>

definition retryable :: "goerr \<Rightarrow> bool" where
  "retryable tplErr \<longleftrightarrow>
     errors_Is tplErr ErrMissingAPIResource \<or>
     ReasonForError tplErr = Some InternalError \<or>
     ReasonForError tplErr = Some ServiceUnavailable \<or>
     ReasonForError tplErr = Some TimeoutReason \<or>
     ReasonForError tplErr = Some TooManyRequests \<or>
     errors_Is tplErr ErrWatchStopping"

text \<open>The variables of the template loop.\<close>

record 'k tmpl_state =
  ts_world :: 'k
  ts_annotations :: "(string, string) fmap"
  ts_options :: ResolveOptions
  ts_events :: "string list"

text \<open>
  The encryption set-up of one template: \<open>Inl\<close> is the error returned from the loop.
\<close>

definition setup_encryption ::
  "'k api \<Rightarrow> crypto_env \<Rightarrow> string \<Rightarrow> 'k tmpl_state \<Rightarrow> goerr option \<times> 'k tmpl_state" where
  "setup_encryption a cr clusterName s =
     (case getEncryptionKey a cr clusterName (ts_world s) of
        (Inl e, k) \<Rightarrow> (Some (Joined ErrRetryable e), s\<lparr>ts_world := k\<rparr>)
      | (Inr encryptionKey, k) \<Rightarrow>
          (case getInitializationVector a cr (ts_annotations s) k of
             (Inl e, annotations, k) \<Rightarrow> (Some e, s\<lparr>ts_world := k, ts_annotations := annotations\<rparr>)
           | (Inr initializationVector, annotations, k) \<Rightarrow>
               (None, s\<lparr>ts_world := k, ts_annotations := annotations,
                 ts_options := (ts_options s)\<lparr>ro_EncryptionConfig := Some (encryptionKey, initializationVector)\<rparr>\<rparr>)))"

text \<open>The step after resolving: the vector is set on the definition for the managed cluster.\<close>

definition set_template_iv ::
  "'r template_env \<Rightarrow> (string, string) fmap \<Rightarrow> string \<Rightarrow> goerr + string" where
  "set_template_iv te annotations resolved =
     (case tm_Annotations te resolved of
        Inl e \<Rightarrow> Inl (Wrapped ''failed to unmarshal the object definition to JSON'' e)
      | Inr policyTAnnotations \<Rightarrow>
          let policyIV = map_index (Some annotations) IVAnnotation;
              foundIV = map_index policyTAnnotations IVAnnotation
          in if policyIV \<noteq> foundIV then
               (case tm_WithAnnotations te resolved
                       (Some (fmupd IVAnnotation policyIV (raw_map policyTAnnotations))) of
                  Inl e \<Rightarrow> Inl (Wrapped ''failed to marshal the policy template to JSON'' e)
                | Inr updated \<Rightarrow> Inr updated)
             else Inr resolved)"

text \<open>One turn of the loop: the error returned, if any, the template and the loop's variables.\<close>

definition process_template ::
  "'k api \<Rightarrow> crypto_env \<Rightarrow> 'r template_env \<Rightarrow> 'r \<Rightarrow> Policy \<Rightarrow> string \<Rightarrow> PolicyTemplate \<Rightarrow> 'k tmpl_state \<Rightarrow>
   goerr option \<times> PolicyTemplate \<times> 'k tmpl_state" where
  "process_template a cr te templateResolver rootPlc clusterName policyT s =
     (let raw = pt_ObjectDefinition policyT in
      if \<not> tm_HasTemplate te raw then (None, policyT, s)
      else
        let templateContext =
              \<lparr>tc_ManagedClusterName = clusterName, tc_ManagedClusterLabels = None, tc_annotations = p_Annotations rootPlc,
               tc_labels = p_Labels rootPlc, tc_name = p_Name rootPlc, tc_namespace = p_Namespace rootPlc\<rparr>;
            s = (if Contains raw ''ManagedClusterLabels''
                 then s\<lparr>ts_options := (ts_options s)\<lparr>ro_ContextTransformers :=
                          ro_ContextTransformers (ts_options s) @ [clusterName]\<rparr>\<rparr>
                 else s);
            usesEncryption = tm_UsesEncryption te raw;
            (setupErr, s) = (if usesEncryption \<and> ro_EncryptionConfig (ts_options s) = None
                             then setup_encryption a cr clusterName s else (None, s))
        in case setupErr of
             Some e \<Rightarrow> (Some e, policyT, s)
           | None \<Rightarrow>
               (case tm_ResolveTemplate te templateResolver raw templateContext (ts_options s) of
                  Inl tplErr \<Rightarrow>
                    (Some (if retryable tplErr then Joined ErrRetryable tplErr else tplErr),
                     setTemplateError te policyT (tm_Error te tplErr),
                     s\<lparr>ts_events := ts_events s @
                         [''Failed to resolve templates for cluster '' @ clusterName @ '': '' @ tm_Error te tplErr]\<rparr>)
                | Inr resolved \<Rightarrow>
                    if \<not> usesEncryption then (None, policyT\<lparr>pt_ObjectDefinition := resolved\<rparr>, s)
                    else
                      (case set_template_iv te (ts_annotations s) resolved of
                         Inl e \<Rightarrow> (Some e, policyT\<lparr>pt_ObjectDefinition := resolved\<rparr>, s)
                       | Inr updated \<Rightarrow> (None, policyT\<lparr>pt_ObjectDefinition := updated\<rparr>, s))))"

fun process_loop ::
  "'k api \<Rightarrow> crypto_env \<Rightarrow> 'r template_env \<Rightarrow> 'r \<Rightarrow> Policy \<Rightarrow> string \<Rightarrow> PolicyTemplate list \<Rightarrow> 'k tmpl_state \<Rightarrow>
   goerr option \<times> PolicyTemplate list \<times> 'k tmpl_state" where
  "process_loop a cr te resolver rootPlc clusterName [] s = (None, [], s)"
| "process_loop a cr te resolver rootPlc clusterName (t # ts) s =
     (case process_template a cr te resolver rootPlc clusterName t s of
        (Some e, t', s') \<Rightarrow> (Some e, t' # ts, s')
      | (None, t', s') \<Rightarrow>
          (case process_loop a cr te resolver rootPlc clusterName ts s' of
             (e, ts', s'') \<Rightarrow> (e, t' # ts', s'')))"

text \<open>When the resolver is not available every template is marked with the error.\<close>

definition mark_templates :: "'r template_env \<Rightarrow> NamespacedName \<Rightarrow> goerr \<Rightarrow> PolicyTemplate list \<Rightarrow> PolicyTemplate list" where
  "mark_templates te saNSName err =
     map (\<lambda>policyT.
       if \<not> tm_HasTemplate te (pt_ObjectDefinition policyT) then policyT
       else
         let sa = nn_Namespace saNSName @ ''/'' @ nn_Name saNSName in
         setTemplateError te policyT
           (if errors_Is err ErrSAMissing
            then ''the service account in hubTemplateOptions.serviceAccountName ('' @ sa @ '') does not exist''
            else ''failed to set up the template resolver for the service account in hubTemplateOptions.'' @
                 ''serviceAccountName ('' @ sa @ ''): '' @ tm_Error te err))"

text \<open>
  The error, the replicated policy behind the pointer, the resolvers, the world and the events
  recorded on the root policy.
\<close>

definition processTemplates ::
  "'k api \<Rightarrow> crypto_env \<Rightarrow> 'r resolver_env \<Rightarrow> 'r template_env \<Rightarrow> string list \<Rightarrow>
   Policy \<Rightarrow> string \<Rightarrow> Policy \<Rightarrow> 'r resolvers \<Rightarrow> 'k hub \<Rightarrow>
   goerr option \<times> Policy \<times> 'r resolvers \<times> 'k hub" where
  "processTemplates a cr env te denylist replicatedPlc clusterName rootPlc t h =
     (let watcher = \<lparr>oid_Group = SchemeGroup, oid_Version = ''v1'', oid_Kind = tm_Kind (p_TypeMeta replicatedPlc),
                     oid_Namespace = p_Namespace replicatedPlc, oid_Name = p_Name replicatedPlc\<rparr>;
          (saNSName, options) = getTemplateResolverOpts denylist replicatedPlc rootPlc clusterName watcher;
          (found, t) = GetResolver env watcher saNSName t;
          spec = p_Spec replicatedPlc
      in case found of
           Inl err \<Rightarrow>
             (Some err,
              replicatedPlc\<lparr>p_Spec := spec\<lparr>ps_PolicyTemplates := mark_templates te saNSName err (ps_PolicyTemplates spec)\<rparr>\<rparr>,
              t, h)
         | Inr templateResolver \<Rightarrow>
             (case tm_StartQueryBatch te templateResolver watcher of
                Some err \<Rightarrow> (Some err, replicatedPlc, t, h)
              | None \<Rightarrow>
                  let annotations = raw_map (p_Annotations replicatedPlc) in
                  if (case fmlookup annotations DisableTemplatesAnnotation of
                        None \<Rightarrow> False | Some disable \<Rightarrow> ParseBool_true disable)
                  then (None, replicatedPlc, t, h)
                  else
                    (case process_loop a cr te templateResolver rootPlc clusterName (ps_PolicyTemplates spec)
                            \<lparr>ts_world = hub_world h, ts_annotations = fmdrop TriggerUpdateAnnotation annotations,
                             ts_options = options, ts_events = []\<rparr> of
                       (err, templates, s) \<Rightarrow>
                         (err,
                          replicatedPlc\<lparr>p_ObjectMeta := (p_ObjectMeta replicatedPlc)\<lparr>om_Annotations := Some (ts_annotations s)\<rparr>,
                            p_Spec := spec\<lparr>ps_PolicyTemplates := templates\<rparr>\<rparr>,
                          t,
                          h\<lparr>hub_world := ts_world s, hub_events := hub_events h @ ts_events s\<rparr>))))"

section \<open>Lemmas\<close>

lemma setTemplateError_keeps [simp]:
  "pt_ExtraDependencies (setTemplateError te t m) = pt_ExtraDependencies t"
  "pt_IgnorePending (setTemplateError te t m) = pt_IgnorePending t"
  by (simp_all add: setTemplateError_def split: sum.splits)

lemma setup_encryption_annotations:
  assumes "setup_encryption a cr cl s = (e, s')"
  shows "\<And>key. key \<noteq> IVAnnotation \<Longrightarrow> fmlookup (ts_annotations s') key = fmlookup (ts_annotations s) key"
    and "ro_ContextTransformers (ts_options s') = ro_ContextTransformers (ts_options s)"
    and "ro_ClusterScopedAllowList (ts_options s') = ro_ClusterScopedAllowList (ts_options s)"
    and "ro_LookupNamespace (ts_options s') = ro_LookupNamespace (ts_options s)"
  using assms
  by (auto simp: setup_encryption_def getInitializationVector_def Let_def
      split: prod.splits sum.splits option.splits if_splits)

text \<open>A step of the loop changes the definition of the template only, and no annotation but the
  initialization vector.\<close>

lemma process_template_keeps:
  assumes "process_template a cr te r root cl t s = (e, t', s')"
  shows "pt_ExtraDependencies t' = pt_ExtraDependencies t"
    and "\<And>key. key \<noteq> IVAnnotation \<Longrightarrow> fmlookup (ts_annotations s') key = fmlookup (ts_annotations s) key"
    and "ro_ClusterScopedAllowList (ts_options s') = ro_ClusterScopedAllowList (ts_options s)"
    and "ro_LookupNamespace (ts_options s') = ro_LookupNamespace (ts_options s)"
  using assms
  by (auto simp: process_template_def Let_def setup_encryption_annotations
      dest: setup_encryption_annotations split: prod.splits sum.splits option.splits if_splits)

lemma process_template_skips:
  "\<not> tm_HasTemplate te (pt_ObjectDefinition t) \<Longrightarrow>
     process_template a cr te r root cl t s = (None, t, s)"
  by (simp add: process_template_def Let_def)

lemma process_loop_keeps:
  assumes "process_loop a cr te r root cl ts s = (e, ts', s')"
  shows "map pt_ExtraDependencies ts' = map pt_ExtraDependencies ts"
    and "\<And>key. key \<noteq> IVAnnotation \<Longrightarrow> fmlookup (ts_annotations s') key = fmlookup (ts_annotations s) key"
  using assms
proof (induction ts arbitrary: s e ts' s')
  case Nil
  { case 1 then show ?case by simp }
  { case 2 then show ?case by simp }
next
  case (Cons t ts)
  { case 1 then show ?case
      by (auto split: prod.splits option.splits dest: process_template_keeps(1) Cons.IH(1)) }
  { case 2 then show ?case
      by (auto split: prod.splits option.splits simp: process_template_keeps(2) Cons.IH(2)) }
qed

lemma process_loop_no_templates:
  "\<forall>t \<in> set ts. \<not> tm_HasTemplate te (pt_ObjectDefinition t) \<Longrightarrow>
     process_loop a cr te r root cl ts s = (None, ts, s)"
  by (induction ts) (simp_all add: process_template_skips)

text \<open>How a template may change: in its definition only, and only if it has a hub template.\<close>

definition template_kept :: "'r template_env \<Rightarrow> PolicyTemplate \<Rightarrow> PolicyTemplate \<Rightarrow> bool" where
  "template_kept te t t' \<longleftrightarrow>
     t'\<lparr>pt_ObjectDefinition := pt_ObjectDefinition t\<rparr> = t \<and>
     (tm_HasTemplate te (pt_ObjectDefinition t) \<or> t' = t)"

lemma template_kept_refl [simp]: "template_kept te t t"
  by (simp add: template_kept_def)

lemma setTemplateError_template_kept:
  "tm_HasTemplate te (pt_ObjectDefinition t) \<Longrightarrow> template_kept te t (setTemplateError te t m)"
  by (simp add: template_kept_def setTemplateError_def split: sum.splits)

lemma process_template_template_kept:
  assumes "process_template a cr te r root cl t s = (e, t', s')"
  shows "template_kept te t t'"
proof (cases "tm_HasTemplate te (pt_ObjectDefinition t)")
  case True
  then have "template_kept te t (t\<lparr>pt_ObjectDefinition := d\<rparr>)" for d by (simp add: template_kept_def)
  with True assms show ?thesis
    by (auto simp: process_template_def Let_def setTemplateError_template_kept
        split: prod.splits sum.splits option.splits if_splits)
qed (use assms in \<open>simp add: process_template_skips\<close>)

lemma process_loop_template_kept:
  "process_loop a cr te r root cl ts s = (e, ts', s') \<Longrightarrow> list_all2 (template_kept te) ts ts'"
proof (induction ts arbitrary: s e ts' s')
  case (Cons t ts)
  then show ?case
    by (auto split: prod.splits option.splits dest: process_template_template_kept intro: list_all2_refl)
qed simp

lemma mark_templates_template_kept: "list_all2 (template_kept te) ts (mark_templates te sa e ts)"
  by (auto simp: mark_templates_def list_all2_map2 Let_def setTemplateError_template_kept intro!: list_all2_refl)

section \<open>Properties\<close>

definition ex_templates :: "nat template_env" where
  "ex_templates = \<lparr>tm_HasTemplate = (\<lambda>d. Contains d ''{{hub''), tm_UsesEncryption = (\<lambda>d. Contains d ''protect''),
     tm_ResolveTemplate = (\<lambda>_ _ _ _. Inr ''resolved''), tm_StartQueryBatch = (\<lambda>_ _. None),
     tm_Annotations = (\<lambda>_. Inr None), tm_WithAnnotations = (\<lambda>d _. Inr d), tm_Error = (\<lambda>_. ''error'')\<rparr>"

text \<open>C29. Whatever its outcome, processing the hub templates changes nothing of a replicated policy but
  the definitions of the templates that have a hub template, and the annotations with the
  initialization vector and the update trigger: name, labels, the rest of the spec, dependencies
  and every other annotation stay.\<close>

theorem templates_keep_policy:
  assumes "processTemplates a cr env te denylist plc cl root t h = (err, plc', t', h')"
  shows "(p_ObjectMeta plc')\<lparr>om_Annotations := p_Annotations plc\<rparr> = p_ObjectMeta plc \<and>
    (\<forall>key. key \<noteq> IVAnnotation \<longrightarrow> key \<noteq> TriggerUpdateAnnotation \<longrightarrow>
       fmlookup (raw_map (p_Annotations plc')) key = fmlookup (raw_map (p_Annotations plc)) key) \<and>
    (p_Spec plc')\<lparr>ps_PolicyTemplates := ps_PolicyTemplates (p_Spec plc)\<rparr> = p_Spec plc \<and>
    list_all2 (template_kept te) (ps_PolicyTemplates (p_Spec plc)) (ps_PolicyTemplates (p_Spec plc'))"
  using assms
  by (auto simp: processTemplates_def Let_def process_loop_keeps mark_templates_template_kept
      list_all2_refl process_loop_template_kept raw_map_def
      split: prod.splits sum.splits option.splits if_splits)

theorem templates_keep_policy_witness:
  "\<exists>err plc' t' h'. processTemplates (ex_api ex_reader) ex_crypto ex_resolvers ex_templates []
       (ex_replica\<lparr>p_Spec := PolicySpec_zero\<lparr>ps_PolicyTemplates :=
          [\<lparr>pt_ObjectDefinition = ''{{hub x hub}}'', pt_ExtraDependencies = [], pt_IgnorePending = False\<rparr>]\<rparr>\<rparr>)
       ''c1'' ex_root NewTemplateResolvers
       \<lparr>hub_world = [], hub_updates = [], hub_events = [], hub_failures = []\<rparr> = (err, plc', t', h') \<and>
     map_index (p_Labels plc') RootPolicyLabel = ''ns.p'' \<and> length (ps_PolicyTemplates (p_Spec plc')) = 1"
proof -
  let ?plc = "ex_replica\<lparr>p_Spec := PolicySpec_zero\<lparr>ps_PolicyTemplates :=
      [\<lparr>pt_ObjectDefinition = ''{{hub x hub}}'', pt_ExtraDependencies = [], pt_IgnorePending = False\<rparr>]\<rparr>\<rparr>"
  let ?h = "\<lparr>hub_world = [], hub_updates = [], hub_events = [], hub_failures = []\<rparr> :: ex_write list hub"
  obtain err plc' t' h' where r: "processTemplates (ex_api ex_reader) ex_crypto ex_resolvers ex_templates [] ?plc
      ''c1'' ex_root NewTemplateResolvers ?h = (err, plc', t', h')"
    using prod_cases4 by blast
  note keep = templates_keep_policy [OF r]
  have l: "p_Labels plc' = p_Labels ?plc" using arg_cong [OF conjunct1 [OF keep], of om_Labels] by simp
  have "list_all2 (template_kept ex_templates) (ps_PolicyTemplates (p_Spec ?plc)) (ps_PolicyTemplates (p_Spec plc'))"
    using keep by blast
  from list_all2_lengthD [OF this] l r show ?thesis by (simp add: ex_objects)
qed

end
