(* ===== verification/Replicated_Reconcile.thy ===== *)
theory Replicated_Reconcile
  imports Replication Template_Processing
begin

text \<open>
  The replicated policy reconciler of
  \<^verbatim>\<open>controllers/propagator/replicatedpolicy_controller.go\<close>: \<^verbatim>\<open>cleanUpReplicated\<close> and
  \<^verbatim>\<open>Reconcile\<close>, on top of the cluster decision, the builder of replicated policies, the
  template processing and the cache of resource versions.
\<close>

section \<open>State and parameters\<close>

record ('k, 'r) propagator =
  pr_hub :: "'k hub"
  pr_versions :: versions
  pr_resolvers :: "'r resolvers"

record ('k, 'r) reconciler =
  rc_api :: "'k api"
  rc_crypto :: crypto_env
  rc_resolver :: "'r resolver_env"
  rc_template :: "'r template_env"
  rc_denylist :: "string list"

type_synonym ('k, 'r) reconcile_out = "(ReconcileResult \<times> goerr option) \<times> ('k, 'r) propagator"

definition set_world :: "'k \<Rightarrow> ('k, 'r) propagator \<Rightarrow> ('k, 'r) propagator" where
  "set_world k st = st\<lparr>pr_hub := (pr_hub st)\<lparr>hub_world := k\<rparr>\<rparr>"

definition record_event :: "string \<Rightarrow> ('k, 'r) propagator \<Rightarrow> ('k, 'r) propagator" where
  "record_event msg st = st\<lparr>pr_hub := (pr_hub st)\<lparr>hub_events := hub_events (pr_hub st) @ [msg]\<rparr>\<rparr>"

abbreviation pr_world :: "('k, 'r) propagator \<Rightarrow> 'k" where
  "pr_world st \<equiv> hub_world (pr_hub st)"

definition object_id :: "('k, 'r) reconciler \<Rightarrow> TypeMeta \<Rightarrow> string \<Rightarrow> string \<Rightarrow> ObjectIdentifier" where
  "object_id R tm namespace name =
     (case GroupVersionKind (rc_api R) tm of (grp, version, kind) \<Rightarrow>
      \<lparr>oid_Group = grp, oid_Version = version, oid_Kind = kind, oid_Namespace = namespace, oid_Name = name\<rparr>)"

section \<open>Removing a replicated policy\<close>

definition cleanUpReplicated ::
  "('k, 'r) reconciler \<Rightarrow> Policy \<Rightarrow> ('k, 'r) propagator \<Rightarrow> goerr option \<times> ('k, 'r) propagator" where
  "cleanUpReplicated R replicatedPolicy st =
     (let objID = object_id R (p_TypeMeta replicatedPolicy) (p_Namespace replicatedPolicy) (p_Name replicatedPolicy);
          (watcherErr, k) = RemoveWatcher (rc_api R) objID (pr_world st);
          (uncacheErr, t) = RemoveReplicatedPolicy (rc_resolver R) objID (pr_resolvers st);
          watcherErr = (case uncacheErr of
                          None \<Rightarrow> watcherErr
                        | Some e \<Rightarrow> (case watcherErr of None \<Rightarrow> Some e | Some w \<Rightarrow> Some (Joined w e)));
          key = rsrcVersKey (p_Namespace replicatedPolicy) (p_Name replicatedPolicy);
          vs = snd (safeWriteLoad (pr_versions st) key);
          (deleteErr, k) = Delete_Policy (rc_api R) replicatedPolicy k;
          vs = (case deleteErr of
                  None \<Rightarrow> set_version vs key (deletedMarker (p_ResourceVersion replicatedPolicy))
                | Some e \<Rightarrow> if IsNotFound e
                            then set_version vs key (deletedMarker (p_ResourceVersion replicatedPolicy)) else vs)
      in (errors_Join watcherErr deleteErr,
          (set_world k st)\<lparr>pr_versions := vs, pr_resolvers := t\<rparr>))"

text \<open>The reconcile's result after a removal: an error other than NotFound is retried, otherwise the
  tombstone is looked at again later.\<close>

definition clean_up_and_requeue ::
  "('k, 'r) reconciler \<Rightarrow> Policy \<Rightarrow> ('k, 'r) propagator \<Rightarrow> ('k, 'r) reconcile_out" where
  "clean_up_and_requeue R replicatedPolicy st =
     (case cleanUpReplicated R replicatedPolicy st of
        (Some e, st) \<Rightarrow>
          if \<not> IsNotFound e then ((Result_zero, Some e), st)
          else ((\<lparr>rr_RequeueAfter = requeueTombstone\<rparr>, None), st)
      | (None, st) \<Rightarrow> ((\<lparr>rr_RequeueAfter = requeueTombstone\<rparr>, None), st))"

definition already_gone :: "Request \<Rightarrow> bool \<Rightarrow> ('k, 'r) propagator \<Rightarrow> ('k, 'r) reconcile_out" where
  "already_gone request staleCache st =
     (case recordDeleted (pr_versions st) (rsrcVersKey (nn_Namespace request) (nn_Name request)) staleCache of
        (result, vs) \<Rightarrow> ((result, None), st\<lparr>pr_versions := vs\<rparr>))"

section \<open>Writing a replicated policy\<close>

definition create_replica ::
  "('k, 'r) reconciler \<Rightarrow> Request \<Rightarrow> Policy \<Rightarrow> Policy \<Rightarrow> string \<Rightarrow> goerr option \<Rightarrow> ('k, 'r) propagator \<Rightarrow>
   ('k, 'r) reconcile_out" where
  "create_replica R request rootPolicy desired cluster watcherErr st =
     (let key = rsrcVersKey (nn_Namespace request) (nn_Name request);
          vs = snd (safeWriteLoad (pr_versions st) key)
      in case Create_Policy (rc_api R) desired (pr_world st) of
           (Inl e, k) \<Rightarrow>
             let st = (set_world k st)\<lparr>pr_versions := vs\<rparr> in
             if IsAlreadyExists e then ((Result_zero, Some e), st\<lparr>pr_versions := set_version vs key []\<rparr>)
             else ((Result_zero, Some e), st)
         | (Inr created, k) \<Rightarrow>
             ((Result_zero, watcherErr),
              record_event (''Policy '' @ p_Namespace rootPolicy @ ''/'' @ p_Name rootPolicy @
                  '' was propagated to cluster '' @ cluster)
                ((set_world k st)\<lparr>pr_versions := set_version vs key (p_ResourceVersion created)\<rparr>)))"

definition update_replica ::
  "('k, 'r) reconciler \<Rightarrow> Request \<Rightarrow> Policy \<Rightarrow> Policy \<Rightarrow> Policy \<Rightarrow> string \<Rightarrow> goerr option \<Rightarrow> goerr option \<Rightarrow>
   ('k, 'r) propagator \<Rightarrow> ('k, 'r) reconcile_out" where
  "update_replica R request rootPolicy desired replicatedPolicy cluster tmplErr watcherErr st =
     (let key = rsrcVersKey (nn_Namespace request) (nn_Name request);
          vs = snd (safeWriteLoad (pr_versions st) key);
          returnErr = (case tmplErr of
                         None \<Rightarrow> None
                       | Some e \<Rightarrow> if ReasonForError e = Some Forbidden \<or> ReasonForError e = Some Unauthorized
                                   then Some e else None);
          returnErr = (case watcherErr of None \<Rightarrow> returnErr | Some w \<Rightarrow> Some w)
      in if \<not> equivalentReplicatedPolicies desired replicatedPolicy then
           let replicatedPolicy = replicatedPolicy\<lparr>
                 p_ObjectMeta := (p_ObjectMeta replicatedPolicy)\<lparr>
                   om_Annotations := p_Annotations desired, om_Labels := p_Labels desired\<rparr>,
                 p_Spec := p_Spec desired\<rparr>
           in (case Update_Policy (rc_api R) replicatedPolicy (pr_world st) of
                 (Inl e, k) \<Rightarrow> ((Result_zero, Some e), (set_world k st)\<lparr>pr_versions := vs\<rparr>)
               | (Inr updated, k) \<Rightarrow>
                   ((Result_zero, returnErr),
                    record_event (''Policy '' @ p_Namespace rootPolicy @ ''/'' @ p_Name rootPolicy @
                        '' was updated for cluster '' @ cluster)
                      ((set_world k st)\<lparr>pr_versions := set_version vs key (p_ResourceVersion updated)\<rparr>)))
         else ((Result_zero, returnErr),
               st\<lparr>pr_versions := set_version vs key (p_ResourceVersion replicatedPolicy)\<rparr>))"

text \<open>An initialization vector of the existing replica is kept.\<close>

definition keep_iv :: "Policy option \<Rightarrow> Policy \<Rightarrow> Policy" where
  "keep_iv existing desired =
     (case existing of
        None \<Rightarrow> desired
      | Some replicatedPolicy \<Rightarrow>
          (case fmlookup (raw_map (p_Annotations replicatedPolicy)) IVAnnotation of
             None \<Rightarrow> desired
           | Some iv \<Rightarrow>
               desired\<lparr>p_ObjectMeta := (p_ObjectMeta desired)\<lparr>
                 om_Annotations := Some (fmupd IVAnnotation iv (raw_map (p_Annotations desired)))\<rparr>\<rparr>))"

text \<open>The dynamic watches: the policy sets of the dependencies, and a missing service account.\<close>

definition missing_account :: "string \<Rightarrow> string \<Rightarrow> ObjectIdentifier" where
  "missing_account rootNS saName =
     \<lparr>oid_Group = [], oid_Version = ''v1'', oid_Kind = ''ServiceAccount'', oid_Namespace = rootNS,
      oid_Name = saName\<rparr>"

definition update_watches ::
  "('k, 'r) reconciler \<Rightarrow> ObjectIdentifier \<Rightarrow> ObjectIdentifier list \<Rightarrow> ('k, 'r) propagator \<Rightarrow>
   goerr option \<times> ('k, 'r) propagator" where
  "update_watches R instanceObjID objsToWatch st =
     (case (if objsToWatch \<noteq> [] then AddOrUpdateWatcher (rc_api R) instanceObjID objsToWatch (pr_world st)
            else RemoveWatcher (rc_api R) instanceObjID (pr_world st)) of
        (watcherErr, k) \<Rightarrow> (watcherErr, set_world k st))"

definition replicate_to_cluster ::
  "('k, 'r) reconciler \<Rightarrow> Request \<Rightarrow> Policy option \<Rightarrow> Policy \<Rightarrow> string \<Rightarrow> clusterDecision \<Rightarrow> ('k, 'r) propagator \<Rightarrow>
   ('k, 'r) reconcile_out" where
  "replicate_to_cluster R request existing rootPolicy rootNS decision st =
     (let objsToWatch = getPolicySetDependencies rootPolicy in
      case buildReplicatedPolicy (api_read (rc_api R) (pr_world st)) rootPolicy decision of
        (Inl e, _) \<Rightarrow> ((Result_zero, Some e), st)
      | (Inr desired, rootPolicy) \<Rightarrow>
          let instanceObjID = object_id R (p_TypeMeta desired) (nn_Namespace request) (nn_Name request) in
          (case processTemplates (rc_api R) (rc_crypto R) (rc_resolver R) (rc_template R) (rc_denylist R)
                  (keep_iv existing desired) (dec_Cluster decision) rootPolicy (pr_resolvers st) (pr_hub st) of
             (tmplErr, desired, t, h) \<Rightarrow>
               let st = st\<lparr>pr_hub := h, pr_resolvers := t\<rparr>;
                   is_tmplErr = (\<lambda>target. case tmplErr of None \<Rightarrow> False | Some e \<Rightarrow> errors_Is e target)
               in if is_tmplErr ErrRetryable then ((Result_zero, tmplErr), st)
                  else if is_tmplErr ErrSAMissing \<and> ps_HubTemplateOptions (p_Spec desired) = None
                  then ((Result_zero, Some nil_resolver), st)
                  else
                    let objsToWatch = (case ps_HubTemplateOptions (p_Spec desired) of
                                         None \<Rightarrow> objsToWatch
                                       | Some saName \<Rightarrow>
                                           if is_tmplErr ErrSAMissing
                                           then add_key (missing_account rootNS saName) objsToWatch
                                           else objsToWatch);
                        (watcherErr, st) = update_watches R instanceObjID objsToWatch st
                    in (case existing of
                          None \<Rightarrow> create_replica R request rootPolicy desired (dec_Cluster decision) watcherErr st
                        | Some replicatedPolicy \<Rightarrow>
                            update_replica R request rootPolicy desired replicatedPolicy (dec_Cluster decision)
                              tmplErr watcherErr st)))"

section \<open>Reconcile\<close>

text \<open>
  The reconcile once it is known whether the replica exists (\<open>existing\<close>; a stale cache hit counts
  as missing).
\<close>

definition reconcile_request ::
  "('k, 'r) reconciler \<Rightarrow> Request \<Rightarrow> Policy option \<Rightarrow> bool \<Rightarrow> ('k, 'r) propagator \<Rightarrow> ('k, 'r) reconcile_out" where
  "reconcile_request R request existing staleCache st =
     (let c = api_read (rc_api R) (pr_world st) in
      case ParseRootPolicyLabel (nn_Name request) of
        Inl err \<Rightarrow>
          (case existing of
             None \<Rightarrow> already_gone request staleCache st
           | Some replicatedPolicy \<Rightarrow>
               (case cleanUpReplicated R replicatedPolicy st of
                  (Some e, st) \<Rightarrow>
                    if \<not> IsNotFound e then ((Result_zero, Some (Joined err e)), st)
                    else ((\<lparr>rr_RequeueAfter = requeueTombstone\<rparr>, None), st)
                | (None, st) \<Rightarrow> ((\<lparr>rr_RequeueAfter = requeueTombstone\<rparr>, None), st)))
      | Inr (rootName, rootNS) \<Rightarrow>
          (case Get_Policy c (nn rootNS rootName) of
             Inl e \<Rightarrow>
               if \<not> IsNotFound e then ((Result_zero, Some e), st)
               else
                 (case existing of
                    None \<Rightarrow> already_gone request staleCache st
                  | Some replicatedPolicy \<Rightarrow>
                      (case IsInClusterNamespace c (nn_Namespace request) of
                         Inl e \<Rightarrow> ((Result_zero, Some e), st)
                       | Inr inClusterNS \<Rightarrow>
                           if \<not> inClusterNS then ((Result_zero, None), st)
                           else clean_up_and_requeue R replicatedPolicy st))
           | Inr rootPolicy \<Rightarrow>
               if ps_Disabled (p_Spec rootPolicy) then
                 (case existing of
                    None \<Rightarrow> already_gone request staleCache st
                  | Some replicatedPolicy \<Rightarrow> clean_up_and_requeue R replicatedPolicy st)
               else
                 (case singleClusterDecision c rootPolicy (nn_Namespace request) of
                    Inl e \<Rightarrow> ((Result_zero, Some e), st)
                  | Inr decision \<Rightarrow>
                      if dec_Cluster decision = [] then
                        (case existing of
                           None \<Rightarrow> already_gone request staleCache st
                         | Some replicatedPolicy \<Rightarrow>
                             (case IsInClusterNamespace c (nn_Namespace request) of
                                Inl e \<Rightarrow> ((Result_zero, Some e), st)
                              | Inr inClusterNS \<Rightarrow>
                                  if \<not> inClusterNS then ((Result_zero, None), st)
                                  else clean_up_and_requeue R replicatedPolicy st))
                      else replicate_to_cluster R request existing rootPolicy rootNS decision st)))"

definition ReplicatedPolicy_Reconcile ::
  "('k, 'r) reconciler \<Rightarrow> Request \<Rightarrow> ('k, 'r) propagator \<Rightarrow> ('k, 'r) reconcile_out" where
  "ReplicatedPolicy_Reconcile R request st =
     (let key = rsrcVersKey (nn_Namespace request) (nn_Name request) in
      case Get_Policy (api_read (rc_api R) (pr_world st)) request of
        Inl e \<Rightarrow>
          if \<not> IsNotFound e then ((Result_zero, Some e), st)
          else reconcile_request R request None False st
      | Inr replicatedPolicy \<Rightarrow>
          (case cachedReplicatedPolicyIsStale (pr_versions st) key (p_ResourceVersion replicatedPolicy) of
             (stale, vs) \<Rightarrow>
               let st = st\<lparr>pr_versions := vs\<rparr> in
               if stale then reconcile_request R request None True st
               else reconcile_request R request (Some replicatedPolicy) False st))"

section \<open>Lemmas\<close>

lemma pr_world_simps [simp]:
  "pr_world (set_world k st) = k" "pr_versions (set_world k st) = pr_versions st"
  "pr_resolvers (set_world k st) = pr_resolvers st"
  "pr_world (record_event m st) = pr_world st" "pr_versions (record_event m st) = pr_versions st"
  "pr_resolvers (record_event m st) = pr_resolvers st"
  by (simp_all add: set_world_def record_event_def)

text \<open>What a removal leaves in the cache of versions.\<close>

lemma cleanUpReplicated_versions:
  fixes R :: "('k, 'r) reconciler"
  defines "key p \<equiv> rsrcVersKey (p_Namespace p) (p_Name p)"
  assumes "cleanUpReplicated R p st = (err, st')"
    and "Delete_Policy (rc_api R) p (snd (RemoveWatcher (rc_api R)
           (object_id R (p_TypeMeta p) (p_Namespace p) (p_Name p)) (pr_world st))) = (deleteErr, k)"
  shows "pr_world st' = k"
    and "case deleteErr of None \<Rightarrow> True | Some e \<Rightarrow> IsNotFound e \<Longrightarrow>
           fmlookup (pr_versions st') (key p) = Some (deletedMarker (p_ResourceVersion p))"
    and "key' \<noteq> key p \<Longrightarrow> fmlookup (pr_versions st') key' = fmlookup (pr_versions st) key'"
  using assms
  by (auto simp: cleanUpReplicated_def Let_def set_version_def safeWriteLoad_def
      split: prod.splits option.splits)

lemma cleanUpReplicated_inv:
  assumes "cleanUpReplicated R p st = (err, st')" and "resolvers_inv (pr_resolvers st)"
  shows "resolvers_inv (pr_resolvers st')"
  using assms remove_inv [of "pr_resolvers st"]
  by (auto simp: cleanUpReplicated_def Let_def split: prod.splits option.splits) (metis snd_conv)+

lemma create_replica_version:
  assumes "Create_Policy (rc_api R) desired (pr_world st) = (Inr created, k)"
    and "create_replica R request root desired cl werr st = (out, st')"
  shows "fmlookup (pr_versions st') (rsrcVersKey (nn_Namespace request) (nn_Name request)) =
           Some (p_ResourceVersion created)"
    and "pr_world st' = k" and "out = (Result_zero, werr)"
  using assms by (auto simp: create_replica_def Let_def)

text \<open>After a removal the next reconcile of the same cached object treats it as missing.\<close>

lemma reconcile_stale:
  assumes "Get_Policy (api_read (rc_api R) (pr_world st)) request = Inr p"
    and "fmlookup (pr_versions st) (rsrcVersKey (nn_Namespace request) (nn_Name request)) =
           Some (deletedMarker (p_ResourceVersion p))"
  shows "ReplicatedPolicy_Reconcile R request st = reconcile_request R request None True st"
proof -
  have "cachedReplicatedPolicyIsStale (pr_versions st)
      (rsrcVersKey (nn_Namespace request) (nn_Name request)) (p_ResourceVersion p) = (True, pr_versions st)"
    using assms(2) by (simp add: cachedReplicatedPolicyIsStale_def safeReadLoad_def)
  with assms(1) show ?thesis by (simp add: ReplicatedPolicy_Reconcile_def Let_def)
qed

text \<open>Without a tombstone for its version, a cached replica is taken as it is.\<close>

lemma reconcile_fresh:
  assumes "Get_Policy (api_read (rc_api R) (pr_world st)) request = Inr p"
    and "fmlookup (pr_versions st) (rsrcVersKey (nn_Namespace request) (nn_Name request)) \<noteq>
           Some (deletedMarker (p_ResourceVersion p))"
  shows "ReplicatedPolicy_Reconcile R request st =
    reconcile_request R request (Some p) False
      (st\<lparr>pr_versions := snd (safeReadLoad (pr_versions st) (rsrcVersKey (nn_Namespace request) (nn_Name request)))\<rparr>)"
proof -
  have "cachedReplicatedPolicyIsStale (pr_versions st)
      (rsrcVersKey (nn_Namespace request) (nn_Name request)) (p_ResourceVersion p) =
      (False, snd (safeReadLoad (pr_versions st) (rsrcVersKey (nn_Namespace request) (nn_Name request))))"
    using assms(2) stale_iff [of "pr_versions st"] snd_stale [of "pr_versions st"] by (metis prod.collapse)
  with assms(1) show ?thesis by (simp add: ReplicatedPolicy_Reconcile_def Let_def)
qed

lemma already_gone_stale [simp]:
  "already_gone request True st = ((\<lparr>rr_RequeueAfter = requeueTombstone\<rparr>, None), st)"
  by (simp add: already_gone_def recordDeleted_def)

lemma already_gone_fresh:
  "already_gone request False st =
     ((Result_zero, None),
      st\<lparr>pr_versions := fmdrop (rsrcVersKey (nn_Namespace request) (nn_Name request)) (pr_versions st)\<rparr>)"
  by (simp add: already_gone_def recordDeleted_def)

text \<open>The reasons for which a cluster should have no replica.\<close>

definition replica_unwanted :: "client_reader \<Rightarrow> Request \<Rightarrow> bool" where
  "replica_unwanted c request \<longleftrightarrow>
     (case ParseRootPolicyLabel (nn_Name request) of
        Inl _ \<Rightarrow> True
      | Inr (rootName, rootNS) \<Rightarrow>
          (case Get_Policy c (nn rootNS rootName) of
             Inl e \<Rightarrow> IsNotFound e
           | Inr root \<Rightarrow>
               ps_Disabled (p_Spec root) \<or>
               (\<exists>dec. singleClusterDecision c root (nn_Namespace request) = Inr dec \<and> dec_Cluster dec = [])))"

lemma cleanUpReplicated_ok:
  fixes R :: "('k, 'r) reconciler"
  defines "objID p \<equiv> object_id R (p_TypeMeta p) (p_Namespace p) (p_Name p)"
  assumes "RemoveWatcher (rc_api R) (objID p) (pr_world st) = (None, k1)"
    and "fst (RemoveReplicatedPolicy (rc_resolver R) (objID p) (pr_resolvers st)) = None"
    and "Delete_Policy (rc_api R) p k1 = (None, k')"
  shows "\<exists>st'. cleanUpReplicated R p st = (None, st') \<and> pr_world st' = k' \<and>
    fmlookup (pr_versions st') (rsrcVersKey (p_Namespace p) (p_Name p)) = Some (deletedMarker (p_ResourceVersion p))"
  using assms(2-)
  by (auto simp: cleanUpReplicated_def Let_def objID_def split: prod.splits)

section \<open>Properties\<close>

definition ex_reconciler :: "client_reader \<Rightarrow> (ex_write list, nat) reconciler" where
  "ex_reconciler c = \<lparr>rc_api = ex_api c, rc_crypto = ex_crypto, rc_resolver = ex_resolvers,
     rc_template = ex_templates, rc_denylist = []\<rparr>"

definition ex_propagator :: "versions \<Rightarrow> (ex_write list, nat) propagator" where
  "ex_propagator vs =
     \<lparr>pr_hub = \<lparr>hub_world = [], hub_updates = [], hub_events = [], hub_failures = []\<rparr>,
      pr_versions = vs, pr_resolvers = NewTemplateResolvers\<rparr>"

lemma ex_parse: "ParseRootPolicyLabel ''ns.p'' = Inr (''p'', ''ns'')"
  using ParseRootPolicyLabel_append [of "''ns''" "''p''"] by simp

text \<open>C5. When no binding without the restricted subfilter places an enabled root policy on a managed
  cluster any more, the reconcile of the replica there deletes it, leaves the tombstone of the
  deleted version in the cache and comes back later to look at the tombstone.\<close>

theorem unplaced_replica_removed:
  fixes R :: "('k, 'r) reconciler"
  assumes "c = api_read (rc_api R) (pr_world st)" and "key = rsrcVersKey (nn_Namespace request) (nn_Name request)"
    and "Get_Policy c request = Inr p" and "nn (p_Namespace p) (p_Name p) = request"
    and "fmlookup (pr_versions st) key \<noteq> Some (deletedMarker (p_ResourceVersion p))"
    and "ParseRootPolicyLabel (nn_Name request) = Inr (rootName, rootNS)"
    and "Get_Policy c (nn rootNS rootName) = Inr root" and "\<not> ps_Disabled (p_Spec root)"
    and "List_PlacementBindings c [InNamespace (p_Namespace root)] = Inr pbs"
    and "singleClusterDecision c root (nn_Namespace request) = Inr dec"
    and "\<forall>pb \<in> set pbs. pb_SubFilter pb \<noteq> Restricted \<longrightarrow>
           isSingleClusterInDecisions c pb (p_Name root) (nn_Namespace request) \<noteq> Inr True"
    and "IsInClusterNamespace c (nn_Namespace request) = Inr True"
    and "objID = object_id R (p_TypeMeta p) (p_Namespace p) (p_Name p)"
    and "RemoveWatcher (rc_api R) objID (pr_world st) = (None, k1)"
    and "fst (RemoveReplicatedPolicy (rc_resolver R) objID (pr_resolvers st)) = None"
    and "Delete_Policy (rc_api R) p k1 = (None, k')"
  shows "\<exists>st'. ReplicatedPolicy_Reconcile R request st = ((\<lparr>rr_RequeueAfter = requeueTombstone\<rparr>, None), st') \<and>
    pr_world st' = k' \<and> fmlookup (pr_versions st') key = Some (deletedMarker (p_ResourceVersion p))"
proof -
  define st1 where "st1 = st\<lparr>pr_versions := snd (safeReadLoad (pr_versions st) key)\<rparr>"
  have names: "p_Namespace p = nn_Namespace request" "p_Name p = nn_Name request" using assms(4) by auto
  have "dec_Cluster dec = []"
    using singleClusterDecision_cluster [OF assms(10,9)] assms(11) by (auto simp: found_on_def)
  moreover have "ReplicatedPolicy_Reconcile R request st = reconcile_request R request (Some p) False st1"
    using reconcile_fresh [of R st request p] assms(3,5) unfolding assms(1,2) st1_def by simp
  ultimately have "ReplicatedPolicy_Reconcile R request st = clean_up_and_requeue R p st1"
    using assms(6-8,10,12) by (simp add: reconcile_request_def assms(1) st1_def)
  moreover obtain st' where "cleanUpReplicated R p st1 = (None, st')" "pr_world st' = k'"
    "fmlookup (pr_versions st') (rsrcVersKey (p_Namespace p) (p_Name p)) = Some (deletedMarker (p_ResourceVersion p))"
    using cleanUpReplicated_ok [of R p st1 k1 k'] assms(14-16) unfolding assms(13) by (auto simp: st1_def)
  ultimately show ?thesis by (simp add: clean_up_and_requeue_def assms(2) names)
qed

theorem unplaced_replica_removed_witness:
  "\<exists>st'. ReplicatedPolicy_Reconcile (ex_reconciler (ex_reader\<lparr>List_PlacementBindings := \<lambda>_. Inr []\<rparr>))
       (nn ''c1'' ''ns.p'') (ex_propagator fmempty) = ((\<lparr>rr_RequeueAfter = requeueTombstone\<rparr>, None), st') \<and>
     pr_world st' = [Unwatched, Deleted ex_replica]"
proof -
  let ?c = "ex_reader\<lparr>List_PlacementBindings := \<lambda>_. Inr []\<rparr>"
  have "\<exists>st'. ReplicatedPolicy_Reconcile (ex_reconciler ?c) (nn ''c1'' ''ns.p'') (ex_propagator fmempty) =
      ((\<lparr>rr_RequeueAfter = requeueTombstone\<rparr>, None), st') \<and> pr_world st' = [Unwatched, Deleted ex_replica] \<and>
      fmlookup (pr_versions st') (rsrcVersKey ''c1'' ''ns.p'') = Some (deletedMarker (p_ResourceVersion ex_replica))"
    by (rule unplaced_replica_removed [of ?c _ _ _ _ _ "''p''" "''ns''" ex_root "[]" clusterDecision_zero _ "[Unwatched]"])
       (simp_all add: ex_reconciler_def ex_propagator_def ex_client ex_objects ex_parse IsInClusterNamespace_def
        singleClusterDecision_def RemoveReplicatedPolicy_def NewTemplateResolvers_def)
  then show ?thesis by blast
qed

text \<open>C6. While the client's cache still returns a replica the reconciler has deleted, a reconcile that
  finds the replica unwanted neither deletes it again nor changes any state; it comes back when the
  tombstone is to be looked at.\<close>

theorem deleted_replica_not_deleted_again:
  assumes "Get_Policy (api_read (rc_api R) (pr_world st)) request = Inr p"
    and "fmlookup (pr_versions st) (rsrcVersKey (nn_Namespace request) (nn_Name request)) =
           Some (deletedMarker (p_ResourceVersion p))"
    and "replica_unwanted (api_read (rc_api R) (pr_world st)) request"
  shows "ReplicatedPolicy_Reconcile R request st = ((\<lparr>rr_RequeueAfter = requeueTombstone\<rparr>, None), st)"
  using assms(3) unfolding reconcile_stale [OF assms(1,2)]
  by (auto simp: reconcile_request_def replica_unwanted_def Let_def split: sum.splits)

theorem deleted_replica_not_deleted_again_witness:
  "ReplicatedPolicy_Reconcile (ex_reconciler (ex_reader\<lparr>List_PlacementBindings := \<lambda>_. Inr []\<rparr>))
     (nn ''c1'' ''ns.p'') (ex_propagator (fmupd (rsrcVersKey ''c1'' ''ns.p'') (deletedMarker ''5'') fmempty)) =
   ((\<lparr>rr_RequeueAfter = requeueTombstone\<rparr>, None),
    ex_propagator (fmupd (rsrcVersKey ''c1'' ''ns.p'') (deletedMarker ''5'') fmempty))"
proof (rule deleted_replica_not_deleted_again [of _ _ _ ex_replica])
  let ?c = "ex_reader\<lparr>List_PlacementBindings := \<lambda>_. Inr []\<rparr>"
  have "singleClusterDecision ?c ex_root ''c1'' = Inr clusterDecision_zero"
    by (simp add: singleClusterDecision_def)
  then have "replica_unwanted ?c (nn ''c1'' ''ns.p'')"
    by (simp add: replica_unwanted_def ex_parse ex_reader_def clusterDecision_zero_def)
  then show "replica_unwanted (api_read (rc_api (ex_reconciler ?c)) (pr_world (ex_propagator
      (fmupd (rsrcVersKey ''c1'' ''ns.p'') (deletedMarker ''5'') fmempty)))) (nn ''c1'' ''ns.p'')"
    by (simp add: ex_reconciler_def ex_api_def)
qed (simp_all add: ex_reconciler_def ex_propagator_def ex_client ex_objects)

text \<open>The create event of a replica the reconciler has just created is filtered out, while the
  event of any other version of it still reaches the reconciler.\<close>

theorem own_create_event_ignored:
  assumes "Create_Policy (rc_api R) desired (pr_world st) = (Inr created, k)"
    and "create_replica R request root desired cl werr st = (out, st')"
    and "nn (p_Namespace created) (p_Name created) = request"
  shows "\<not> fst (replicated_CreateFunc (pr_versions st') (p_ObjectMeta created)) \<and>
    (\<forall>obj. nn (om_Namespace obj) (om_Name obj) = request \<longrightarrow> map_has (om_Labels obj) RootPolicyLabel \<longrightarrow>
       om_ResourceVersion obj \<noteq> p_ResourceVersion created \<longrightarrow> fst (replicated_CreateFunc (pr_versions st') obj))"
  using create_replica_version(1) [OF assms(1,2)] assms(3) by (auto simp: CreateFunc_iff)

theorem own_create_event_ignored_witness:
  "\<exists>out st'. create_replica (ex_reconciler ex_reader) (nn ''c1'' ''ns.p'') ex_root ex_replica ''c1'' None
       (ex_propagator fmempty) = (out, st') \<and>
     \<not> fst (replicated_CreateFunc (pr_versions st') (ex_labelled ''7''))"
proof -
  obtain out st' where r: "create_replica (ex_reconciler ex_reader) (nn ''c1'' ''ns.p'') ex_root ex_replica ''c1'' None
      (ex_propagator fmempty) = (out, st')" by fastforce
  have c: "Create_Policy (rc_api (ex_reconciler ex_reader)) ex_replica (pr_world (ex_propagator fmempty)) =
      (Inr (ex_version ex_replica), [Created ex_replica])"
    by (simp add: ex_reconciler_def ex_propagator_def ex_api_def)
  have "p_ObjectMeta (ex_version ex_replica) = ex_labelled ''7''"
    by (simp add: ex_version_def ex_objects)
  with own_create_event_ignored [OF c r] r show ?thesis by (simp add: ex_objects)
qed

text \<open>After a removal that deleted the replica, or found it gone, its delete event is filtered out,
  and whatever other entries are read meanwhile the cache takes exactly the deleted version of it as
  stale and has changed for no other replica.\<close>

theorem own_delete_event_ignored:
  assumes "cleanUpReplicated R p st = (err, st')"
    and "Delete_Policy (rc_api R) p (snd (RemoveWatcher (rc_api R)
           (object_id R (p_TypeMeta p) (p_Namespace p) (p_Name p)) (pr_world st))) = (deleteErr, k)"
    and "deleteErr = None \<or> (\<exists>e. deleteErr = Some e \<and> IsNotFound e)"
  shows "\<not> fst (replicated_DeleteFunc (pr_versions st') (p_ObjectMeta p)) \<and>
    (\<forall>keys rv. fst (cachedReplicatedPolicyIsStale (fold (\<lambda>k vs. snd (safeReadLoad vs k)) keys (pr_versions st'))
        (rsrcVersKey (p_Namespace p) (p_Name p)) rv) \<longleftrightarrow> rv = p_ResourceVersion p) \<and>
    (\<forall>key'. key' \<noteq> rsrcVersKey (p_Namespace p) (p_Name p) \<longrightarrow>
       fmlookup (pr_versions st') key' = fmlookup (pr_versions st) key')"
proof -
  have "fmlookup (pr_versions st') (rsrcVersKey (p_Namespace p) (p_Name p)) = Some (deletedMarker (p_ResourceVersion p))"
    using cleanUpReplicated_versions(2) [OF assms(1,2)] assms(3) by (auto split: option.splits)
  with cleanUpReplicated_versions(3) [OF assms(1,2)] show ?thesis
    unfolding rsrc.reads_keep_stale by (auto simp: DeleteFunc_iff stale_iff)
qed

theorem own_delete_event_ignored_witness:
  "\<exists>err st'. cleanUpReplicated (ex_reconciler ex_reader) ex_replica (ex_propagator fmempty) = (err, st') \<and>
     \<not> fst (replicated_DeleteFunc (pr_versions st') (p_ObjectMeta ex_replica))"
proof -
  obtain err st' where r: "cleanUpReplicated (ex_reconciler ex_reader) ex_replica (ex_propagator fmempty) = (err, st')"
    by fastforce
  have "Delete_Policy (rc_api (ex_reconciler ex_reader)) ex_replica (snd (RemoveWatcher (rc_api (ex_reconciler ex_reader))
      (object_id (ex_reconciler ex_reader) (p_TypeMeta ex_replica) (p_Namespace ex_replica) (p_Name ex_replica))
      (pr_world (ex_propagator fmempty)))) = (None, [Unwatched, Deleted ex_replica])"
    by (simp add: ex_reconciler_def ex_propagator_def ex_api_def)
  from own_delete_event_ignored [OF r this] r show ?thesis by simp
qed

end
