(* ===== verification/Policyset_Controller.thy ===== *)
theory Policyset_Controller
  imports Root_Reconcile
begin

text \<open>
  \<^verbatim>\<open>controllers/policyset/policyset_controller.go\<close>: the status of a policy set. The loop over the
  child policies keeps a map of placements and a cache of decisions; the order in which Go iterates
  over the placements when it builds the status is a parameter, \<open>order\<close>.
\<close>

section \<open>Helpers\<close>

definition clusterInList :: "string list \<Rightarrow> string \<Rightarrow> bool" where
  "clusterInList lst cluster \<longleftrightarrow> cluster \<in> set lst"

text \<open>The loop's variables are \<^verbatim>\<open>complianceFound\<close> and \<^verbatim>\<open>compliance\<close>.\<close>

definition note_compliance ::
  "string list \<Rightarrow> CompliancePerClusterStatus \<Rightarrow> bool \<times> ComplianceState \<Rightarrow> bool \<times> ComplianceState" where
  "note_compliance relevantClusters status st =
     (case st of (complianceFound, compliance) \<Rightarrow>
      if clusterInList relevantClusters (cs_ClusterName status) then
        (if cs_ComplianceState status = NonCompliant then (True, NonCompliant)
         else if cs_ComplianceState status = Pending
         then (True, if compliance \<noteq> NonCompliant then Pending else compliance)
         else if cs_ComplianceState status = Compliant then (True, compliance)
         else st)
      else st)"

definition complianceInRelevantClusters ::
  "CompliancePerClusterStatus list \<Rightarrow> string list \<Rightarrow> ComplianceState" where
  "complianceInRelevantClusters status relevantClusters =
     (case fold (note_compliance relevantClusters) status (False, Compliant) of
        (complianceFound, compliance) \<Rightarrow> if complianceFound then compliance else [])"

definition hasPolicySetSubject :: "PlacementBinding option \<Rightarrow> string \<Rightarrow> bool" where
  "hasPolicySetSubject pb policySetName =
     (case pb of
        None \<Rightarrow> False
      | Some b \<Rightarrow> list_ex (\<lambda>subject. sub_APIGroup subject = SchemeGroup \<and>
                     sub_Kind subject = PolicySetKind \<and> sub_Name subject = policySetName) (pb_Subjects b))"

definition plcPlacementToSetPlacement :: "Placement \<Rightarrow> PolicySetStatusPlacement" where
  "plcPlacementToSetPlacement p =
     \<lparr>psp_PlacementBinding = pl_PlacementBinding p, psp_Placement = pl_Placement p,
      psp_PlacementRule = pl_PlacementRule p\<rparr>"

definition buildPolicySetExclusionsStatus :: "PolicySet option \<Rightarrow> PolicySetStatusExclusion list" where
  "buildPolicySetExclusionsStatus plcSet =
     (case plcSet of
        None \<Rightarrow> []
      | Some s \<Rightarrow>
          if pss_Exclusions (set_Spec s) = [] then []
          else sort_key pse_PolicyName
                 (map (\<lambda>exclusion. \<lparr>pse_PolicyName = ex_PolicyName exclusion,
                                   pse_Clusters = sort (ex_ClusterNames exclusion)\<rparr>)
                    (filter (\<lambda>exclusion. ex_ClusterNames exclusion \<noteq> []) (pss_Exclusions (set_Spec s)))))"

definition excluded_note :: string where
  "excluded_note = ''One or more policies were excluded. For details, see status.exclusions.''"

definition getStatusMessage ::
  "string list \<Rightarrow> string list \<Rightarrow> string list \<Rightarrow> string list \<Rightarrow> bool \<Rightarrow> string" where
  "getStatusMessage disabledPolicies unknownPolicies deletedPolicies pendingPolicies hasExclusions =
     (let add = (\<lambda>policies title (statusMessage, separator, allReporting).
                   if policies \<noteq> []
                   then (statusMessage @ separator @ title @ Join policies '', '', ''; '', False)
                   else (statusMessage, separator, allReporting));
          (statusMessage, separator, allReporting) =
            add deletedPolicies ''Deleted policies: ''
              (add unknownPolicies ''No status provided while awaiting policy status: ''
                (add disabledPolicies ''Disabled policies: ''
                  (add pendingPolicies ''Policies awaiting pending dependencies: '' ([], [], True))))
      in if allReporting \<and> hasExclusions then ''All policies are reporting status; '' @ excluded_note
         else if allReporting then ''All policies are reporting status''
         else if hasExclusions then statusMessage @ separator @ excluded_note
         else statusMessage)"

definition showCompliance :: "string list \<Rightarrow> string list \<Rightarrow> string list \<Rightarrow> bool" where
  "showCompliance compliancesFound unknown pending =
     (if 0 < length unknown then False
      else if 0 < length compliancesFound + length pending then True else False)"

section \<open>The loop over the policies\<close>

record pset_loop =
  pl_compliancesFound :: "string list"
  pl_deletedPolicies :: "string list"
  pl_unknownPolicies :: "string list"
  pl_disabledPolicies :: "string list"
  pl_pendingPolicies :: "string list"
  pl_aggregatedCompliance :: ComplianceState
  pl_placementsByBinding :: "(string \<times> PolicySetStatusPlacement) list"
  pl_decisionsByPb :: "(string \<times> string list \<times> bool) list"
  pl_events :: "string list"

definition pset_loop_start :: pset_loop where
  "pset_loop_start =
     \<lparr>pl_compliancesFound = [], pl_deletedPolicies = [], pl_unknownPolicies = [],
      pl_disabledPolicies = [], pl_pendingPolicies = [], pl_aggregatedCompliance = Compliant,
      pl_placementsByBinding = [], pl_decisionsByPb = [], pl_events = []\<rparr>"

definition aggregate_placements ::
  "string \<Rightarrow> Placement list \<Rightarrow> (string \<times> PolicySetStatusPlacement) list \<Rightarrow>
   (string \<times> PolicySetStatusPlacement) list" where
  "aggregate_placements setName placements m =
     fold (\<lambda>placement m.
             if pl_PolicySet placement = setName
             then AList.update (pl_PlacementBinding placement) (plcPlacementToSetPlacement placement) m
             else m) placements m"

text \<open>The decisions of one binding, as the cache stores them.\<close>

definition binding_decision ::
  "client_reader \<Rightarrow> PolicySet \<Rightarrow> string \<Rightarrow> (string list \<times> bool) option" where
  "binding_decision c plcSet pbName =
     (case Get_PlacementBinding c (nn (set_Namespace plcSet) pbName) of
        Inl _ \<Rightarrow> None
      | Inr pb \<Rightarrow>
          (case GetDecisions c pb of
             Inl _ \<Rightarrow> None
           | Inr rawDecisions \<Rightarrow> Some (rawDecisions, hasPolicySetSubject (Some pb) (set_Name plcSet))))"

definition relevant_clusters ::
  "client_reader \<Rightarrow> PolicySet \<Rightarrow> string \<Rightarrow> string \<Rightarrow>
   string list \<times> (string \<times> string list \<times> bool) list \<Rightarrow>
   string list \<times> (string \<times> string list \<times> bool) list" where
  "relevant_clusters c plcSet childPlcName pbName st =
     (case st of (clusters, decisionsByPb) \<Rightarrow>
      let (cached, decisionsByPb) =
            (case map_of decisionsByPb pbName of
               Some cached \<Rightarrow> (Some cached, decisionsByPb)
             | None \<Rightarrow>
                 (case binding_decision c plcSet pbName of
                    None \<Rightarrow> (None, decisionsByPb)
                  | Some cached \<Rightarrow> (Some cached, AList.update pbName cached decisionsByPb)))
      in case cached of
           None \<Rightarrow> (clusters, decisionsByPb)
         | Some (raw, hasSubject) \<Rightarrow>
             (clusters @
                (if hasSubject
                 then FilterExcludedClusters raw (ExcludedClustersForPolicy (Some plcSet) childPlcName)
                 else raw),
              decisionsByPb))"

definition process_child :: "client_reader \<Rightarrow> PolicySet \<Rightarrow> string \<Rightarrow> pset_loop \<Rightarrow> pset_loop" where
  "process_child c plcSet childPlcName s =
     (case Get_Policy c (nn (set_Namespace plcSet) childPlcName) of
        Inl _ \<Rightarrow>
          s\<lparr>pl_deletedPolicies := pl_deletedPolicies s @ [childPlcName],
            pl_events := pl_events s @
              [''Policy '' @ childPlcName @ '' is in PolicySet '' @ set_Name plcSet @
               '' but could not be found in namespace '' @ set_Namespace plcSet]\<rparr>
      | Inr childPlc \<Rightarrow>
          let s = s\<lparr>pl_placementsByBinding :=
                aggregate_placements (set_Name plcSet) (items (st_Placement (p_Status childPlc)))
                  (pl_placementsByBinding s)\<rparr>
          in if ps_Disabled (p_Spec childPlc)
             then s\<lparr>pl_disabledPolicies := pl_disabledPolicies s @ [childPlcName]\<rparr>
             else
               (case fold (relevant_clusters c plcSet childPlcName) (map fst (pl_placementsByBinding s))
                       ([], pl_decisionsByPb s) of
                  (clusters, decisionsByPb) \<Rightarrow>
                    let s = s\<lparr>pl_decisionsByPb := decisionsByPb\<rparr>;
                        plcComplianceState =
                          complianceInRelevantClusters (items (st_Status (p_Status childPlc))) clusters
                    in if plcComplianceState = []
                       then s\<lparr>pl_unknownPolicies := pl_unknownPolicies s @ [childPlcName]\<rparr>
                       else if plcComplianceState = Pending
                       then s\<lparr>pl_pendingPolicies := pl_pendingPolicies s @ [childPlcName],
                              pl_aggregatedCompliance :=
                                (if pl_aggregatedCompliance s \<noteq> NonCompliant then Pending
                                 else pl_aggregatedCompliance s)\<rparr>
                       else s\<lparr>pl_compliancesFound := pl_compliancesFound s @ [childPlcName],
                              pl_aggregatedCompliance :=
                                (if plcComplianceState = NonCompliant then NonCompliant
                                 else pl_aggregatedCompliance s)\<rparr>))"

section \<open>The controller\<close>

definition PolicySetStatus_zero :: PolicySetStatus where
  "PolicySetStatus_zero =
     \<lparr>pst_Placement = [], pst_Compliant = [], pst_StatusMessage = [], pst_Exclusions = []\<rparr>"

definition builtStatus ::
  "((string \<times> PolicySetStatusPlacement) list \<Rightarrow> (string \<times> PolicySetStatusPlacement) list) \<Rightarrow>
   client_reader \<Rightarrow> PolicySet \<Rightarrow> PolicySetStatus \<times> string list" where
  "builtStatus order c plcSet =
     (let s = fold (process_child c plcSet) (pss_Policies (set_Spec plcSet)) pset_loop_start;
          exclusions = buildPolicySetExclusionsStatus (Some plcSet)
      in (\<lparr>pst_Placement = map snd (order (pl_placementsByBinding s)),
           pst_Compliant =
             (if showCompliance (pl_compliancesFound s) (pl_unknownPolicies s) (pl_pendingPolicies s)
              then pl_aggregatedCompliance s else []),
           pst_StatusMessage =
             getStatusMessage (pl_disabledPolicies s) (pl_unknownPolicies s) (pl_deletedPolicies s)
               (pl_pendingPolicies s) (0 < length exclusions),
           pst_Exclusions = exclusions\<rparr>, pl_events s))"

text \<open>Whether the status needs an update, the policy set with its new status and the events.\<close>

definition processPolicySet ::
  "((string \<times> PolicySetStatusPlacement) list \<Rightarrow> (string \<times> PolicySetStatusPlacement) list) \<Rightarrow>
   client_reader \<Rightarrow> PolicySet \<Rightarrow> bool \<times> PolicySet \<times> string list" where
  "processPolicySet order c plcSet =
     (if pss_Policies (set_Spec plcSet) = [] then
        (if set_Status plcSet \<noteq> PolicySetStatus_zero
         then (True, plcSet\<lparr>set_Status := PolicySetStatus_zero\<rparr>, []) else (False, plcSet, []))
      else
        (case builtStatus order c plcSet of (status, events) \<Rightarrow>
           if set_Status plcSet \<noteq> status then (True, plcSet\<lparr>set_Status := status\<rparr>, events)
           else (False, plcSet, events)))"

definition PolicySet_Reconcile ::
  "((string \<times> PolicySetStatusPlacement) list \<Rightarrow> (string \<times> PolicySetStatusPlacement) list) \<Rightarrow>
   'k api \<Rightarrow> Request \<Rightarrow> 'k hub \<Rightarrow> (ReconcileResult \<times> goerr option) \<times> 'k hub" where
  "PolicySet_Reconcile order a request h =
     (case Get_PolicySet (api_read a (hub_world h)) request of
        Inl e \<Rightarrow> ((Result_zero, if IsNotFound e then None else Some e), h)
      | Inr inst \<Rightarrow>
          (case processPolicySet order (api_read a (hub_world h)) inst of
             (setNeedsUpdate, inst, events) \<Rightarrow>
               let h = h\<lparr>hub_events := hub_events h @ events\<rparr>;
                   (err, k) = (if setNeedsUpdate then PatchStatus_PolicySet a inst (hub_world h)
                               else (None, hub_world h));
                   h = h\<lparr>hub_world := k\<rparr>
               in case err of
                    Some e \<Rightarrow> ((Result_zero, Some e), h)
                  | None \<Rightarrow>
                      ((Result_zero, None),
                       h\<lparr>hub_events := hub_events h @
                         [''Status successfully updated for policySet '' @ set_Name inst @
                          '' in namespace '' @ set_Namespace inst]\<rparr>)))"

section \<open>Compliance of one policy\<close>

definition rel_states :: "string list \<Rightarrow> CompliancePerClusterStatus list \<Rightarrow> ComplianceState list" where
  "rel_states cls ss = map cs_ComplianceState (filter (\<lambda>s. cs_ClusterName s \<in> set cls) ss)"

lemma rel_states_simps [simp]:
  "rel_states cls [] = []"
  "rel_states cls (s # ss) =
     (if cs_ClusterName s \<in> set cls then cs_ComplianceState s # rel_states cls ss else rel_states cls ss)"
  by (simp_all add: rel_states_def)

lemma rel_states_iff:
  "x \<noteq> [] \<Longrightarrow> (\<exists>s \<in> set ss. (if cs_ClusterName s \<in> set cls then cs_ComplianceState s else []) = x) \<longleftrightarrow>
     x \<in> set (rel_states cls ss)"
  by (auto simp: rel_states_def image_iff)

lemma fold_note_compliance:
  "fold (note_compliance cls) ss (f, st) =
     (f \<or> NonCompliant \<in> set (rel_states cls ss) \<or> Pending \<in> set (rel_states cls ss) \<or>
        Compliant \<in> set (rel_states cls ss),
      if NonCompliant \<in> set (rel_states cls ss) then NonCompliant
      else if Pending \<in> set (rel_states cls ss) \<and> st \<noteq> NonCompliant then Pending else st)"
proof (induction ss arbitrary: f st)
  case Nil
  then show ?case by simp
next
  case (Cons s ss)
  then show ?case by (simp add: note_compliance_def clusterInList_def)
qed

lemma complianceInRelevantClusters_eq:
  "complianceInRelevantClusters ss cls =
     (if NonCompliant \<in> set (rel_states cls ss) then NonCompliant
      else if Pending \<in> set (rel_states cls ss) then Pending
      else if Compliant \<in> set (rel_states cls ss) then Compliant else [])"
  by (simp add: complianceInRelevantClusters_def fold_note_compliance)

text \<open>The second implementation of the roll-up contract: the states of the relevant clusters.\<close>

interpretation set_rollup: compliance_rollup
  "\<lambda>ss. complianceInRelevantClusters ss cls"
  "\<lambda>s. if cs_ClusterName s \<in> set cls then cs_ComplianceState s else []" for cls
proof unfold_locales
  fix ss
  let ?st = "\<lambda>s. if cs_ClusterName s \<in> set cls then cs_ComplianceState s else []"
  note iff = rel_states_iff [of _ ss cls]
  show "complianceInRelevantClusters ss cls = NonCompliant \<longleftrightarrow> (\<exists>s \<in> set ss. ?st s = NonCompliant)"
    by (simp add: iff complianceInRelevantClusters_eq)
  have "(\<forall>s \<in> set ss. ?st s \<noteq> NonCompliant) \<longleftrightarrow> NonCompliant \<notin> set (rel_states cls ss)"
    using iff [of NonCompliant] by (metis compliance_distinct(8))
  then show "complianceInRelevantClusters ss cls = Pending \<longleftrightarrow>
      (\<forall>s \<in> set ss. ?st s \<noteq> NonCompliant) \<and> (\<exists>s \<in> set ss. ?st s = Pending)"
    by (simp only: iff compliance_distinct not_False_eq_True) (simp add: complianceInRelevantClusters_eq)
  show "complianceInRelevantClusters ss cls = Compliant \<Longrightarrow> \<exists>s \<in> set ss. ?st s = Compliant"
    by (simp only: iff compliance_distinct not_False_eq_True)
       (simp add: complianceInRelevantClusters_eq split: if_splits)
  show "complianceInRelevantClusters ss cls \<in> {NonCompliant, Pending, Compliant, []}"
    by (simp add: complianceInRelevantClusters_eq)
qed

section \<open>The cache of decisions\<close>

text \<open>The clusters of a policy without the cache.\<close>

definition clusters_of :: "client_reader \<Rightarrow> PolicySet \<Rightarrow> string \<Rightarrow> string list \<Rightarrow> string list" where
  "clusters_of c plcSet child pbNames =
     concat (map (\<lambda>pbName.
       case binding_decision c plcSet pbName of
         None \<Rightarrow> []
       | Some (raw, hasSubject) \<Rightarrow>
           if hasSubject then FilterExcludedClusters raw (ExcludedClustersForPolicy (Some plcSet) child)
           else raw) pbNames)"

definition cache_ok :: "client_reader \<Rightarrow> PolicySet \<Rightarrow> (string \<times> string list \<times> bool) list \<Rightarrow> bool" where
  "cache_ok c plcSet cache \<longleftrightarrow>
     (\<forall>pb v. map_of cache pb = Some v \<longrightarrow> binding_decision c plcSet pb = Some v)"

lemma relevant_clusters_step:
  assumes "cache_ok c plcSet cache"
  shows "\<exists>cache'. cache_ok c plcSet cache' \<and>
    relevant_clusters c plcSet child pb (cls, cache) = (cls @ clusters_of c plcSet child [pb], cache')"
proof (cases "map_of cache pb")
  case None
  show ?thesis
  proof (cases "binding_decision c plcSet pb")
    case None
    with \<open>map_of cache pb = None\<close> assms show ?thesis
      by (auto simp: relevant_clusters_def clusters_of_def)
  next
    case (Some v)
    with assms have "cache_ok c plcSet (AList.update pb v cache)"
      by (simp add: cache_ok_def update_conv')
    with Some \<open>map_of cache pb = None\<close> show ?thesis
      by (auto simp: relevant_clusters_def clusters_of_def Let_def split: prod.splits)
  qed
next
  case (Some v)
  with assms have "binding_decision c plcSet pb = Some v" by (cases v) (simp add: cache_ok_def)
  with Some assms show ?thesis
    by (auto simp: relevant_clusters_def clusters_of_def Let_def split: prod.splits)
qed

lemma fold_relevant_clusters:
  "cache_ok c plcSet cache \<Longrightarrow> \<exists>cache'. cache_ok c plcSet cache' \<and>
     fold (relevant_clusters c plcSet child) pbs (cls, cache) = (cls @ clusters_of c plcSet child pbs, cache')"
proof (induction pbs arbitrary: cls cache)
  case Nil
  then show ?case by (auto simp: clusters_of_def)
next
  case (Cons pb pbs)
  from relevant_clusters_step [OF Cons.prems, of child pb cls] obtain cache1 where
    c1: "cache_ok c plcSet cache1" and
    s1: "relevant_clusters c plcSet child pb (cls, cache) = (cls @ clusters_of c plcSet child [pb], cache1)"
    by blast
  from Cons.IH [OF c1, of "cls @ clusters_of c plcSet child [pb]"] show ?case
    by (auto simp: s1 clusters_of_def)
qed

section \<open>The states of the child policies\<close>

datatype child_state =
    ChildDeleted
  | ChildDisabled
  | ChildReports ComplianceState

definition seen_after ::
  "client_reader \<Rightarrow> PolicySet \<Rightarrow> string \<Rightarrow> (string \<times> PolicySetStatusPlacement) list \<Rightarrow>
   (string \<times> PolicySetStatusPlacement) list" where
  "seen_after c plcSet child seen =
     (case Get_Policy c (nn (set_Namespace plcSet) child) of
        Inl _ \<Rightarrow> seen
      | Inr p \<Rightarrow> aggregate_placements (set_Name plcSet) (items (st_Placement (p_Status p))) seen)"

definition state_of_child ::
  "client_reader \<Rightarrow> PolicySet \<Rightarrow> string \<Rightarrow> (string \<times> PolicySetStatusPlacement) list \<Rightarrow> child_state" where
  "state_of_child c plcSet child seen =
     (case Get_Policy c (nn (set_Namespace plcSet) child) of
        Inl _ \<Rightarrow> ChildDeleted
      | Inr p \<Rightarrow>
          if ps_Disabled (p_Spec p) then ChildDisabled
          else ChildReports (complianceInRelevantClusters (items (st_Status (p_Status p)))
                 (clusters_of c plcSet child (map fst seen))))"

text \<open>The children with their states; a policy is judged by the bindings that placed it or a policy
  before it.\<close>

fun child_states ::
  "client_reader \<Rightarrow> PolicySet \<Rightarrow> (string \<times> PolicySetStatusPlacement) list \<Rightarrow> string list \<Rightarrow>
   (string \<times> child_state) list" where
  "child_states c plcSet seen [] = []"
| "child_states c plcSet seen (p # ps) =
     (let seen' = seen_after c plcSet p seen in
      (p, state_of_child c plcSet p seen') # child_states c plcSet seen' ps)"

definition named :: "(child_state \<Rightarrow> bool) \<Rightarrow> (string \<times> child_state) list \<Rightarrow> string list" where
  "named P ks = map fst (filter (\<lambda>(_, k). P k) ks)"

definition agg_states :: "ComplianceState \<Rightarrow> child_state list \<Rightarrow> ComplianceState" where
  "agg_states st ks =
     (if ChildReports NonCompliant \<in> set ks then NonCompliant
      else if ChildReports Pending \<in> set ks \<and> st \<noteq> NonCompliant then Pending else st)"

lemma process_child_state:
  assumes "cache_ok c plcSet (pl_decisionsByPb s)"
    and "seen = seen_after c plcSet p (pl_placementsByBinding s)"
    and "k = state_of_child c plcSet p seen"
  shows "cache_ok c plcSet (pl_decisionsByPb (process_child c plcSet p s))"
    and "pl_placementsByBinding (process_child c plcSet p s) = seen"
    and "pl_deletedPolicies (process_child c plcSet p s) =
           pl_deletedPolicies s @ (if k = ChildDeleted then [p] else [])"
    and "pl_disabledPolicies (process_child c plcSet p s) =
           pl_disabledPolicies s @ (if k = ChildDisabled then [p] else [])"
    and "pl_unknownPolicies (process_child c plcSet p s) =
           pl_unknownPolicies s @ (if k = ChildReports [] then [p] else [])"
    and "pl_pendingPolicies (process_child c plcSet p s) =
           pl_pendingPolicies s @ (if k = ChildReports Pending then [p] else [])"
    and "pl_compliancesFound (process_child c plcSet p s) =
           pl_compliancesFound s @ (if k \<in> {ChildReports NonCompliant, ChildReports Compliant} then [p] else [])"
    and "pl_aggregatedCompliance (process_child c plcSet p s) =
           agg_states (pl_aggregatedCompliance s) [k]"
proof (atomize (full), cases "Get_Policy c (nn (set_Namespace plcSet) p)", goal_cases)
  case (1 e)
  with assms show ?case
    by (simp add: process_child_def seen_after_def state_of_child_def agg_states_def)
next
  case (2 plc)
  let ?seen = "aggregate_placements (set_Name plcSet) (items (st_Placement (p_Status plc))) (pl_placementsByBinding s)"
  obtain cache' where cache': "cache_ok c plcSet cache'"
    "fold (relevant_clusters c plcSet p) (map fst ?seen) ([], pl_decisionsByPb s) =
       (clusters_of c plcSet p (map fst ?seen), cache')"
    using fold_relevant_clusters [OF assms(1), of p "map fst ?seen" "[]"] by auto
  have r: "complianceInRelevantClusters ss cls \<in> {NonCompliant, Pending, Compliant, []}" for ss cls
    by (rule set_rollup.agg_range)
  from 2 assms cache' r [of "items (st_Status (p_Status plc))" "clusters_of c plcSet p (map fst ?seen)"]
  show ?case
    by (auto simp: process_child_def seen_after_def state_of_child_def agg_states_def Let_def)
qed

lemma named_simps [simp]:
  "named P [] = []" "named P ((p, k) # ks) = (if P k then p # named P ks else named P ks)"
  by (simp_all add: named_def)

lemma agg_states_Cons: "agg_states (agg_states st [k]) ks = agg_states st (k # ks)"
  by (auto simp: agg_states_def)

lemma fold_process_child:
  assumes "cache_ok c plcSet (pl_decisionsByPb s)"
    and "ks = child_states c plcSet (pl_placementsByBinding s) ps"
    and "s' = fold (process_child c plcSet) ps s"
  shows "pl_deletedPolicies s' = pl_deletedPolicies s @ named (\<lambda>k. k = ChildDeleted) ks \<and>
    pl_disabledPolicies s' = pl_disabledPolicies s @ named (\<lambda>k. k = ChildDisabled) ks \<and>
    pl_unknownPolicies s' = pl_unknownPolicies s @ named (\<lambda>k. k = ChildReports []) ks \<and>
    pl_pendingPolicies s' = pl_pendingPolicies s @ named (\<lambda>k. k = ChildReports Pending) ks \<and>
    pl_compliancesFound s' = pl_compliancesFound s @
      named (\<lambda>k. k \<in> {ChildReports NonCompliant, ChildReports Compliant}) ks \<and>
    pl_aggregatedCompliance s' = agg_states (pl_aggregatedCompliance s) (map snd ks) \<and>
    pl_placementsByBinding s' = fold (seen_after c plcSet) ps (pl_placementsByBinding s)"
  using assms
proof (induction ps arbitrary: s ks s')
  case Nil
  then show ?case by (simp add: agg_states_def)
next
  case (Cons p ps)
  note step = process_child_state [OF Cons.prems(1) refl refl, of p]
  let ?s = "process_child c plcSet p s"
  have "s' = fold (process_child c plcSet) ps ?s" using Cons.prems(3) by simp
  from Cons.IH [OF step(1) refl this] Cons.prems(2) show ?case
    by (simp add: step(2-8) Let_def agg_states_Cons)
qed

lemma named_empty: "named P ks = [] \<longleftrightarrow> (\<forall>k \<in> set (map snd ks). \<not> P k)"
  by (auto simp: named_def filter_empty_conv)

lemma showCompliance_iff: "showCompliance a b p \<longleftrightarrow> b = [] \<and> (a \<noteq> [] \<or> p \<noteq> [])"
  by (auto simp: showCompliance_def)

text \<open>The compliance in the status of a policy set, from the states of its policies.\<close>

definition set_compliance :: "child_state list \<Rightarrow> ComplianceState" where
  "set_compliance ks =
     (if ChildReports [] \<in> set ks then []
      else if ChildReports NonCompliant \<in> set ks then NonCompliant
      else if ChildReports Pending \<in> set ks then Pending
      else if ChildReports Compliant \<in> set ks then Compliant else [])"

lemma builtStatus_states:
  assumes "ks = child_states c plcSet [] (pss_Policies (set_Spec plcSet))"
    and "builtStatus order c plcSet = (status, evs)"
  shows "pst_Compliant status = set_compliance (map snd ks)"
    and "pst_StatusMessage status =
      getStatusMessage (named (\<lambda>k. k = ChildDisabled) ks) (named (\<lambda>k. k = ChildReports []) ks)
        (named (\<lambda>k. k = ChildDeleted) ks) (named (\<lambda>k. k = ChildReports Pending) ks)
        (buildPolicySetExclusionsStatus (Some plcSet) \<noteq> [])"
    and "pst_Placement status =
      map snd (order (fold (seen_after c plcSet) (pss_Policies (set_Spec plcSet)) []))"
proof -
  have "cache_ok c plcSet (pl_decisionsByPb pset_loop_start)"
    by (simp add: cache_ok_def pset_loop_start_def)
  note loop = fold_process_child [OF this _ refl, of "child_states c plcSet [] (pss_Policies (set_Spec plcSet))"
      "pss_Policies (set_Spec plcSet)"]
  have "pst_Compliant status =
      (if named (\<lambda>k. k = ChildReports []) ks = [] \<and>
          (named (\<lambda>k. k \<in> {ChildReports NonCompliant, ChildReports Compliant}) ks \<noteq> [] \<or>
           named (\<lambda>k. k = ChildReports Pending) ks \<noteq> [])
       then agg_states Compliant (map snd ks) else [])"
    using assms loop by (auto simp: builtStatus_def Let_def pset_loop_start_def showCompliance_iff)
  then show "pst_Compliant status = set_compliance (map snd ks)"
    unfolding named_empty by (auto simp del: set_map simp: set_compliance_def agg_states_def)
  show "pst_StatusMessage status =
      getStatusMessage (named (\<lambda>k. k = ChildDisabled) ks) (named (\<lambda>k. k = ChildReports []) ks)
        (named (\<lambda>k. k = ChildDeleted) ks) (named (\<lambda>k. k = ChildReports Pending) ks)
        (buildPolicySetExclusionsStatus (Some plcSet) \<noteq> [])"
    using assms loop by (auto simp: builtStatus_def Let_def pset_loop_start_def)
  show "pst_Placement status =
      map snd (order (fold (seen_after c plcSet) (pss_Policies (set_Spec plcSet)) []))"
    using assms loop by (auto simp: builtStatus_def Let_def pset_loop_start_def)
qed

section \<open>Properties\<close>

text \<open>C24. The status of a policy set is built from the states of its policies: the compliance is
  empty while a policy that is neither disabled nor deleted reports nothing, otherwise NonCompliant wins over Pending
  and Pending over Compliant among the policies that are neither disabled nor deleted; the message
  lists exactly the pending, disabled, unknown and deleted policies. The cache of decisions does not
  show in the result.\<close>

theorem set_status_compliance:
  assumes "Get_PolicySet (api_read a (hub_world h)) request = Inr plcSet"
    and "pss_Policies (set_Spec plcSet) \<noteq> []"
    and "ks = child_states (api_read a (hub_world h)) plcSet [] (pss_Policies (set_Spec plcSet))"
  shows "\<exists>status. pst_Compliant status = set_compliance (map snd ks) \<and>
    pst_StatusMessage status =
      getStatusMessage (named (\<lambda>k. k = ChildDisabled) ks) (named (\<lambda>k. k = ChildReports []) ks)
        (named (\<lambda>k. k = ChildDeleted) ks) (named (\<lambda>k. k = ChildReports Pending) ks)
        (buildPolicySetExclusionsStatus (Some plcSet) \<noteq> []) \<and>
    pst_Exclusions status = buildPolicySetExclusionsStatus (Some plcSet) \<and>
    hub_world (snd (PolicySet_Reconcile order a request h)) =
      (if set_Status plcSet = status then hub_world h
       else snd (PatchStatus_PolicySet a (plcSet\<lparr>set_Status := status\<rparr>) (hub_world h)))"
proof -
  obtain status evs where b: "builtStatus order (api_read a (hub_world h)) plcSet = (status, evs)" by fastforce
  then have "pst_Exclusions status = buildPolicySetExclusionsStatus (Some plcSet)"
    by (auto simp: builtStatus_def Let_def)
  moreover have "hub_world (snd (PolicySet_Reconcile order a request h)) =
      (if set_Status plcSet = status then hub_world h
       else snd (PatchStatus_PolicySet a (plcSet\<lparr>set_Status := status\<rparr>) (hub_world h)))"
    using assms(1,2) b
    by (auto simp: PolicySet_Reconcile_def processPolicySet_def Let_def split: prod.splits option.splits)
  ultimately show ?thesis using builtStatus_states(1,2) [OF assms(3) b] by (intro exI [of _ status]) simp
qed

theorem set_status_compliance_witness:
  "\<exists>status. pst_StatusMessage status =
       ''No status provided while awaiting policy status: p; '' @ excluded_note \<and>
     hub_world (snd (PolicySet_Reconcile (\<lambda>m. m) (ex_api ex_reader) (nn ''ns'' ''s'')
       \<lparr>hub_world = [], hub_updates = [], hub_events = [], hub_failures = []\<rparr>)) =
       [SetPatched (ex_set\<lparr>set_Status := status\<rparr>)]"
proof -
  let ?h = "\<lparr>hub_world = [], hub_updates = [], hub_events = [], hub_failures = []\<rparr> :: ex_write list hub"
  have g: "Get_PolicySet (api_read (ex_api ex_reader) (hub_world ?h)) (nn ''ns'' ''s'') = Inr ex_set"
    by (simp add: ex_api_def ex_reader_def)
  have p: "pss_Policies (set_Spec ex_set) \<noteq> []" by (simp add: ex_set_def)
  have "child_states (api_read (ex_api ex_reader) (hub_world ?h)) ex_set [] (pss_Policies (set_Spec ex_set)) =
      [(''p'', ChildReports [])]"
    by (simp add: ex_client ex_objects state_of_child_def complianceInRelevantClusters_eq Let_def)
  note w = set_status_compliance [OF g p this [symmetric], of "\<lambda>m. m"]
  have e: "buildPolicySetExclusionsStatus (Some ex_set) = [\<lparr>pse_PolicyName = ''p'', pse_Clusters = [''c2'']\<rparr>]"
    by (simp add: buildPolicySetExclusionsStatus_def ex_set_def)
  from w obtain status where s: "pst_StatusMessage status =
      getStatusMessage [] [''p''] [] [] True" "hub_world (snd (PolicySet_Reconcile (\<lambda>m. m) (ex_api ex_reader) (nn ''ns'' ''s'') ?h)) =
      (if set_Status ex_set = status then [] else [SetPatched (ex_set\<lparr>set_Status := status\<rparr>)])"
    by (auto simp: e ex_api_def)
  have m: "pst_StatusMessage status = ''No status provided while awaiting policy status: p; '' @ excluded_note"
    unfolding s(1) by (simp add: getStatusMessage_def)
  moreover from m have "set_Status ex_set \<noteq> status" by (auto simp: ex_set_def)
  ultimately show ?thesis using s(2) by auto
qed

text \<open>The compliance of a policy in a set looks at the relevant clusters only: NonCompliant if one
  of them is, else Pending if one is, else Compliant if one is, else empty.\<close>

theorem child_compliance_rollup:
  "complianceInRelevantClusters ss cls =
     (let states = {cs_ComplianceState s | s. s \<in> set ss \<and> cs_ClusterName s \<in> set cls} in
      if NonCompliant \<in> states then NonCompliant else if Pending \<in> states then Pending
      else if Compliant \<in> states then Compliant else [])"
proof -
  have "{cs_ComplianceState s | s. s \<in> set ss \<and> cs_ClusterName s \<in> set cls} = set (rel_states cls ss)"
    by (auto simp: rel_states_def)
  then show ?thesis by (simp only: complianceInRelevantClusters_eq Let_def)
qed

text \<open>C25. The placements of the status are listed in the order in which the map of placements is
  iterated: although nothing has changed, a second pass that iterates in another order finds a
  status that differs from the one it stored and writes it again.\<close>

theorem status_order_spurious_update:
  assumes "processPolicySet order1 c plcSet = (True, stored, evs)" and "pss_Policies (set_Spec plcSet) \<noteq> []"
    and "seen = fold (seen_after c plcSet) (pss_Policies (set_Spec plcSet)) []"
    and "map snd (order1 seen) \<noteq> map snd (order2 seen)"
  shows "fst (processPolicySet order2 c stored)"
proof -
  obtain s1 e1 where b1: "builtStatus order1 c plcSet = (s1, e1)" by fastforce
  from assms(1,2) b1 have st: "stored = plcSet\<lparr>set_Status := s1\<rparr>"
    by (auto simp: processPolicySet_def split: if_splits)
  have same: "seen_after c (plcSet\<lparr>set_Status := x\<rparr>) = seen_after c plcSet" for x
    by (intro ext) (simp add: seen_after_def split: sum.splits)
  obtain s2' e2' where b2': "builtStatus order2 c stored = (s2', e2')" by fastforce
  from builtStatus_states(3) [OF refl b1] builtStatus_states(3) [OF refl b2'] assms(3,4)
  have "s1 \<noteq> s2'" by (auto simp: same st)
  with assms(2) b2' show ?thesis by (simp add: processPolicySet_def st)
qed

theorem status_order_spurious_update_witness:
  "\<exists>c stored evs. processPolicySet (\<lambda>m. m) c ex_set = (True, stored, evs) \<and> fst (processPolicySet rev c stored)"
proof -
  let ?pl = "\<lambda>b. \<lparr>pl_PlacementBinding = b, pl_PlacementRule = [], pl_Placement = ''pl'', pl_PolicySet = ''s'',
      pl_Exclusions = []\<rparr>"
  let ?root = "ex_root\<lparr>p_Status := PolicyStatus_zero\<lparr>st_Placement := Some [?pl ''b1'', ?pl ''b2'']\<rparr>\<rparr>"
  let ?c = "ex_reader\<lparr>Get_Policy := \<lambda>_. Inr ?root\<rparr>"
  have f: "map snd (fold (seen_after ?c ex_set) (pss_Policies (set_Spec ex_set)) []) =
      [plcPlacementToSetPlacement (?pl ''b1''), plcPlacementToSetPlacement (?pl ''b2'')]"
    by (simp add: seen_after_def aggregate_placements_def ex_objects)
  obtain status evs where b: "builtStatus (\<lambda>m. m) ?c ex_set = (status, evs)" by fastforce
  from builtStatus_states(3) [OF refl b] f have "set_Status ex_set \<noteq> status" by (auto simp: ex_set_def)
  then obtain stored where s: "processPolicySet (\<lambda>m. m) ?c ex_set = (True, stored, evs)"
    using b by (simp add: processPolicySet_def ex_set_def)
  have "map snd (rev m) = rev (map snd m)" for m :: "(string \<times> PolicySetStatusPlacement) list"
    by (simp add: rev_map)
  with status_order_spurious_update [OF s _ refl, of rev] f s show ?thesis
    by (auto simp: plcPlacementToSetPlacement_def ex_set_def)
qed

end
