(* ===== verification/Webhooks.thy ===== *)
theory Webhooks
  imports Event_Handlers
begin

text \<open>
  The validating webhooks \<^verbatim>\<open>api/v1/policy_webhook.go\<close> and
  \<^verbatim>\<open>api/v1beta1/policyset_webhook.go\<close>. What a policy template's JSON says (its kind and whether
  \<^verbatim>\<open>spec.remediationAction\<close> is set) is a parameter.
\<close>

section \<open>Policies\<close>

text \<open>
  \<^verbatim>\<open>utf8.RuneCountInString\<close> of a valid UTF-8 string (the JSON decoder produces no other): the bytes
  that do not continue a character.
\<close>

definition RuneCountInString :: "string \<Rightarrow> nat" where
  "RuneCountInString s = length (filter (\<lambda>c. \<not> (128 \<le> (of_char c :: nat) \<and> (of_char c :: nat) < 192)) s)"

definition errName :: goerr where
  "errName = Msg ''the combined length of the policy namespace and name cannot exceed 62 characters''"

definition errRemediation :: goerr where
  "errRemediation =
     Msg ''RemediationAction field of the policy and policy template cannot both be unset''"

definition validateName :: "Policy \<Rightarrow> goerr option" where
  "validateName p =
     (if map_has (p_Labels p) RootPolicyLabel then None
      else if RuneCountInString (p_Name p) + RuneCountInString (p_Namespace p) > 62 then Some errName
      else None)"

record object_json =
  oj_Kind :: "string \<Rightarrow> string"
  oj_hasRemediationAction :: "string \<Rightarrow> bool"

definition validateRemediationAction :: "object_json \<Rightarrow> Policy \<Rightarrow> goerr option" where
  "validateRemediationAction oj p =
     (if ps_RemediationAction (p_Spec p) \<noteq> [] then None
      else if list_ex (\<lambda>obj. oj_Kind oj (pt_ObjectDefinition obj) = ''ConfigurationPolicy'' \<and>
                          \<not> oj_hasRemediationAction oj (pt_ObjectDefinition obj))
                (ps_PolicyTemplates (p_Spec p))
      then Some errRemediation else None)"

definition Policy_ValidateCreate :: "object_json \<Rightarrow> Policy \<Rightarrow> goerr option" where
  "Policy_ValidateCreate oj policy =
     (case validateName policy of
        Some e \<Rightarrow> Some e
      | None \<Rightarrow> validateRemediationAction oj policy)"

definition Policy_ValidateUpdate :: "object_json \<Rightarrow> Policy \<Rightarrow> Policy \<Rightarrow> goerr option" where
  "Policy_ValidateUpdate oj old policy = validateRemediationAction oj policy"

definition Policy_ValidateDelete :: "Policy \<Rightarrow> goerr option" where
  "Policy_ValidateDelete policy = None"

section \<open>Policy sets\<close>

definition errInvalidExclusionPolicy :: goerr where
  "errInvalidExclusionPolicy = Msg ''policy in spec.exclusions is not listed in spec.policies''"

definition errDuplicateExclusionPolicy :: goerr where
  "errDuplicateExclusionPolicy = Msg ''policy in spec.exclusions has a duplicate entry''"

text \<open>The loop's variables: \<^verbatim>\<open>exclusionSeen\<close>, the duplicates and the invalid names; the two maps of
  names already reported have the same keys as the two lists.\<close>

definition check_exclusion ::
  "string list \<Rightarrow> PolicySetExclusion \<Rightarrow> string list \<times> string list \<times> string list \<Rightarrow>
   string list \<times> string list \<times> string list" where
  "check_exclusion policiesInSet exclusion st =
     (case st of (exclusionSeen, duplicatePolicyNames, invalidPolicyNames) \<Rightarrow>
      let policyName = ex_PolicyName exclusion;
          (exclusionSeen, duplicatePolicyNames) =
            (if policyName \<in> set exclusionSeen then (exclusionSeen, add_key policyName duplicatePolicyNames)
             else (add_key policyName exclusionSeen, duplicatePolicyNames))
      in if policyName \<in> set policiesInSet then (exclusionSeen, duplicatePolicyNames, invalidPolicyNames)
         else (exclusionSeen, duplicatePolicyNames, add_key policyName invalidPolicyNames))"

definition validateExclusions :: "PolicySet \<Rightarrow> goerr option" where
  "validateExclusions s =
     (if pss_Exclusions (set_Spec s) = [] then None
      else
        case fold (check_exclusion (pss_Policies (set_Spec s))) (pss_Exclusions (set_Spec s)) ([], [], []) of
          (_, duplicatePolicyNames, invalidPolicyNames) \<Rightarrow>
            errors_Join
              (if duplicatePolicyNames \<noteq> []
               then Some (Wrapped (Join duplicatePolicyNames '', '') errDuplicateExclusionPolicy) else None)
              (if invalidPolicyNames \<noteq> []
               then Some (Wrapped (Join invalidPolicyNames '', '') errInvalidExclusionPolicy) else None))"

definition PolicySet_ValidateCreate :: "PolicySet \<Rightarrow> goerr option" where
  "PolicySet_ValidateCreate policySet = validateExclusions policySet"

definition PolicySet_ValidateUpdate :: "PolicySet \<Rightarrow> PolicySet \<Rightarrow> goerr option" where
  "PolicySet_ValidateUpdate old policySet = validateExclusions policySet"

definition PolicySet_ValidateDelete :: "PolicySet \<Rightarrow> goerr option" where
  "PolicySet_ValidateDelete policySet = None"

section \<open>Lemmas\<close>

lemma RuneCount_ascii:
  assumes "\<forall>c \<in> set s. (of_char c :: nat) < 128" shows "RuneCountInString s = length s"
proof -
  from assms have "filter (\<lambda>c. \<not> (128 \<le> (of_char c :: nat) \<and> (of_char c :: nat) < 192)) s = s"
    by (intro filter_True) auto
  then show ?thesis by (simp add: RuneCountInString_def)
qed

lemma RuneCount_le: "RuneCountInString s \<le> length s"
  by (simp add: RuneCountInString_def)

lemma errors_Join_None: "errors_Join a b = None \<longleftrightarrow> a = None \<and> b = None"
  by (cases a; cases b) simp_all

lemma fold_check_exclusion:
  assumes "fold (check_exclusion ps) exs (seen, dups, invalid) = (seen', dups', invalid')"
  shows "set seen' = set seen \<union> ex_PolicyName ` set exs"
    and "dups' = [] \<longleftrightarrow> dups = [] \<and> distinct (map ex_PolicyName exs) \<and>
           set seen \<inter> ex_PolicyName ` set exs = {}"
    and "invalid' = [] \<longleftrightarrow> invalid = [] \<and> ex_PolicyName ` set exs \<subseteq> set ps"
  using assms
proof (atomize (full), induction exs arbitrary: seen dups invalid)
  case Nil
  then show ?case by simp
next
  case (Cons ex exs)
  obtain s1 d1 i1 where one: "check_exclusion ps ex (seen, dups, invalid) = (s1, d1, i1)"
    by (metis prod_cases3)
  have nonempty: "add_key k ks \<noteq> []" for k :: string and ks
    by (auto simp: add_key_def)
  from one have s1: "set s1 = insert (ex_PolicyName ex) (set seen)"
    and d1: "d1 = [] \<longleftrightarrow> dups = [] \<and> ex_PolicyName ex \<notin> set seen"
    and i1: "i1 = [] \<longleftrightarrow> invalid = [] \<and> ex_PolicyName ex \<in> set ps"
    by (auto simp: check_exclusion_def Let_def nonempty split: if_splits)
  from Cons.prems one have "fold (check_exclusion ps) exs (s1, d1, i1) = (seen', dups', invalid')" by simp
  from Cons.IH [OF this] s1 d1 i1 show ?case by auto
qed

text \<open>A policy set is accepted exactly when every exclusion names a policy of the set, each once.\<close>

lemma validateExclusions_None:
  "validateExclusions s = None \<longleftrightarrow>
     distinct (map ex_PolicyName (pss_Exclusions (set_Spec s))) \<and>
     ex_PolicyName ` set (pss_Exclusions (set_Spec s)) \<subseteq> set (pss_Policies (set_Spec s))"
proof (cases "fold (check_exclusion (pss_Policies (set_Spec s))) (pss_Exclusions (set_Spec s)) ([], [], [])")
  case (fields seen dups invalid)
  from fold_check_exclusion [OF fields] fields show ?thesis
    by (auto simp: validateExclusions_def errors_Join_None)
qed

text \<open>On an accepted policy set the exclusion \<^verbatim>\<open>getPolicySetDiffs\<close> looks at decides the excluded
  clusters.\<close>

lemma map_of_exclusion_map_unique:
  assumes "distinct (map ex_PolicyName (pss_Exclusions (set_Spec s)))"
  shows "map_of (exclusion_map s) p = Some ex \<longleftrightarrow>
    ex \<in> set (pss_Exclusions (set_Spec s)) \<and> ex_PolicyName ex = p"
proof -
  have "find (\<lambda>ex. ex_PolicyName ex = p) xs = Some ex \<longleftrightarrow> ex \<in> set xs \<and> ex_PolicyName ex = p"
    if "distinct (map ex_PolicyName xs)" for xs
    using that by (induction xs) (auto simp: image_iff)
  from this [of "rev (pss_Exclusions (set_Spec s))"] assms show ?thesis
    by (simp add: map_of_exclusion_map rev_map [symmetric])
qed

lemma excluded_from_exclusion_map:
  assumes "distinct (map ex_PolicyName (pss_Exclusions (set_Spec s)))"
  shows "set (ExcludedClustersForPolicy (Some s) p) =
    (case map_of (exclusion_map s) p of None \<Rightarrow> {} | Some ex \<Rightarrow> set (ex_ClusterNames ex))"
proof -
  note iff = map_of_exclusion_map_unique [OF assms]
  show ?thesis
  proof (cases "map_of (exclusion_map s) p")
    case None
    then show ?thesis using iff [of p] by (auto simp: set_ExcludedClustersForPolicy)
  next
    case (Some ex)
    then have "ex' = ex" if "ex' \<in> set (pss_Exclusions (set_Spec s))" "ex_PolicyName ex' = p" for ex'
      using iff [of p ex'] that by simp
    with Some iff [of p ex] show ?thesis by (auto simp: set_ExcludedClustersForPolicy)
  qed
qed

section \<open>Properties\<close>

text \<open>The webhook accepts the exclusions of a policy set exactly when every exclusion names a policy
  of the set and no policy has two exclusions.\<close>

theorem accepted_exclusions:
  "validateExclusions s = None \<longleftrightarrow>
     distinct (map ex_PolicyName (pss_Exclusions (set_Spec s))) \<and>
     ex_PolicyName ` set (pss_Exclusions (set_Spec s)) \<subseteq> set (pss_Policies (set_Spec s))"
  by (rule validateExclusions_None)

text \<open>A root policy that the webhook admits, with a name and namespace in ASCII, has a full name of
  at most 63 bytes, so it fits into the value of the root policy label of its replicas.\<close>

theorem accepted_name_fits_label:
  assumes "Policy_ValidateCreate oj p = None" and "\<not> map_has (p_Labels p) RootPolicyLabel"
    and "\<forall>ch \<in> set (p_Name p @ p_Namespace p). (of_char ch :: nat) < 128"
  shows "length (FullNameForPolicy p) \<le> 63"
proof -
  from assms(3) have "RuneCountInString (p_Name p) = length (p_Name p)"
    "RuneCountInString (p_Namespace p) = length (p_Namespace p)"
    by (simp_all add: RuneCount_ascii)
  moreover from assms(1,2) have "RuneCountInString (p_Name p) + RuneCountInString (p_Namespace p) \<le> 62"
    by (simp add: Policy_ValidateCreate_def validateName_def split: if_splits)
  ultimately show ?thesis by (simp add: FullNameForPolicy_def)
qed

theorem accepted_name_fits_label_witness:
  "length (FullNameForPolicy ex_root) \<le> 63"
  using accepted_name_fits_label [of "\<lparr>oj_Kind = \<lambda>_. [], oj_hasRemediationAction = \<lambda>_. True\<rparr>" ex_root]
  by (simp add: Policy_ValidateCreate_def validateName_def validateRemediationAction_def
      RuneCountInString_def ex_objects)

text \<open>C23. When both versions of a policy set pass the webhook, an update enqueues a request for every
  policy whose membership in the set or whose excluded clusters changed.\<close>

theorem policyset_diff_complete:
  assumes "validateExclusions old = None" and "validateExclusions new = None"
    and "(p \<in> set (pss_Policies (set_Spec old))) \<noteq> (p \<in> set (pss_Policies (set_Spec new))) \<or>
      set (ExcludedClustersForPolicy (Some old) p) \<noteq> set (ExcludedClustersForPolicy (Some new) p)"
  shows "nn (set_Namespace new) p \<in> set (EnqueueRequestsFromPolicySet_Update old new)"
proof -
  have "p \<in> set (getPolicySetDiffs old new)"
    using assms excluded_from_exclusion_map [of old p] excluded_from_exclusion_map [of new p]
    by (auto simp: set_getPolicySetDiffs validateExclusions_None)
  then show ?thesis by (simp add: EnqueueRequestsFromPolicySet_Update_def)
qed

theorem policyset_diff_complete_witness:
  "nn ''ns'' ''p'' \<in> set (EnqueueRequestsFromPolicySet_Update
     (ex_set\<lparr>set_Spec := (set_Spec ex_set)\<lparr>pss_Exclusions := []\<rparr>\<rparr>) ex_set)"
  using policyset_diff_complete [of "ex_set\<lparr>set_Spec := (set_Spec ex_set)\<lparr>pss_Exclusions := []\<rparr>\<rparr>" ex_set "''p''"]
  by (simp add: validateExclusions_def check_exclusion_def ExcludedClustersForPolicy_def ex_objects Let_def)

end
