(* ===== verification/Metrics.thy ===== *)
theory Metrics
  imports Root_Reconcile
begin

text \<open>
  \<^verbatim>\<open>controllers/policymetrics/policymetrics_controller.go\<close>: the gauge
  \<^verbatim>\<open>policy_governance_info\<close>, one value per policy.
\<close>

record promLabels =
  pm_type :: string
  pm_policy :: string
  pm_policy_namespace :: string
  pm_cluster_namespace :: string

type_synonym gauge = "(promLabels, int) fmap"

definition policy_labels :: "bool \<Rightarrow> Request \<Rightarrow> promLabels option" where
  "policy_labels inClusterNs request =
     (if inClusterNs then
        (case Cut (nn_Name request) (CHR ''.'') of
           (policyNs, policyName, found) \<Rightarrow>
             if \<not> found then None
             else Some \<lparr>pm_type = ''propagated'', pm_policy = policyName, pm_policy_namespace = policyNs,
                        pm_cluster_namespace = nn_Namespace request\<rparr>)
      else Some \<lparr>pm_type = ''root'', pm_policy = nn_Name request, pm_policy_namespace = nn_Namespace request,
                 pm_cluster_namespace = ''<null>''\<rparr>)"

definition status_value :: "ComplianceState \<Rightarrow> int" where
  "status_value s =
     (if s = Compliant then 0 else if s = NonCompliant then 1 else if s = Pending then -1 else -1)"

text \<open>\<^verbatim>\<open>strings.SplitN(name, ".", 2)\<close> with at least two parts is \<^verbatim>\<open>strings.Cut\<close> at the first dot.
  The gauge vector has the four labels, so looking up its metric does not fail.\<close>

definition Metric_Reconcile ::
  "client_reader \<Rightarrow> Request \<Rightarrow> gauge \<Rightarrow> (ReconcileResult \<times> goerr option) \<times> gauge" where
  "Metric_Reconcile c request g =
     (case IsInClusterNamespace c (nn_Namespace request) of
        Inl e \<Rightarrow> ((Result_zero, Some e), g)
      | Inr inClusterNs \<Rightarrow>
          (case policy_labels inClusterNs request of
             None \<Rightarrow> ((Result_zero, None), g)
           | Some labels \<Rightarrow>
               (case Get_Policy c request of
                  Inl e \<Rightarrow>
                    if IsNotFound e then ((Result_zero, None), fmdrop labels g)
                    else ((Result_zero, Some e), g)
                | Inr pol \<Rightarrow>
                    if ps_Disabled (p_Spec pol) then ((Result_zero, None), fmdrop labels g)
                    else ((Result_zero, None),
                          fmupd labels (status_value (st_ComplianceState (p_Status pol))) g))))"

lemma policy_labels_inj:
  assumes "policy_labels b r = Some l" and "policy_labels b' r' = Some l"
  shows "r = r'"
proof (cases b; cases b')
  assume b: b b'
  show ?thesis
  proof (cases rule: Cut_cases [of "nn_Name r" "CHR ''.''"])
    case f: (found x y)
    show ?thesis
    proof (cases rule: Cut_cases [of "nn_Name r'" "CHR ''.''"])
      case (found x' y')
      with f b assms show ?thesis by (auto simp: policy_labels_def)
    next
      case missing
      with b assms show ?thesis by (simp add: policy_labels_def)
    qed
  next
    case missing
    with b assms show ?thesis by (simp add: policy_labels_def)
  qed
qed (use assms in \<open>auto simp: policy_labels_def split: prod.splits if_splits\<close>)

text \<open>After a reconcile of a policy that can be read, its gauge is 0 when it is Compliant, 1 when it
  is NonCompliant and -1 otherwise, there is no gauge when it is disabled or gone, and the gauges of
  all other policies are untouched.\<close>

theorem gauge_exact:
  assumes "Metric_Reconcile c r g = ((res, None), g')" and "policy_labels b r = Some l"
    and "IsInClusterNamespace c (nn_Namespace r) = Inr b"
  shows "fmlookup g' l =
      (case Get_Policy c r of
         Inl _ \<Rightarrow> None
       | Inr p \<Rightarrow> if ps_Disabled (p_Spec p) then None else Some (status_value (st_ComplianceState (p_Status p)))) \<and>
    (\<forall>b' r' l'. policy_labels b' r' = Some l' \<longrightarrow> r' \<noteq> r \<longrightarrow> fmlookup g' l' = fmlookup g l')"
  using assms
  by (auto simp: Metric_Reconcile_def dest: policy_labels_inj [OF assms(2)] split: sum.splits if_splits)

theorem gauge_exact_witness:
  "fmlookup (snd (Metric_Reconcile ex_reader (nn ''c1'' ''ns.p'') fmempty))
     \<lparr>pm_type = ''propagated'', pm_policy = ''p'', pm_policy_namespace = ''ns'', pm_cluster_namespace = ''c1''\<rparr> = Some 1"
proof -
  have l: "policy_labels True (nn ''c1'' ''ns.p'') =
      Some \<lparr>pm_type = ''propagated'', pm_policy = ''p'', pm_policy_namespace = ''ns'', pm_cluster_namespace = ''c1''\<rparr>"
    by (simp add: policy_labels_def Cut_def)
  have n: "IsInClusterNamespace ex_reader (nn_Namespace (nn ''c1'' ''ns.p'')) = Inr True"
    by (simp add: IsInClusterNamespace_def ex_reader_def)
  obtain g' where m: "Metric_Reconcile ex_reader (nn ''c1'' ''ns.p'') fmempty = ((Result_zero, None), g')"
    using l n by (simp add: Metric_Reconcile_def) (simp add: ex_reader_def ex_objects)
  from gauge_exact [OF m l n] m show ?thesis
    by (simp add: ex_reader_def ex_objects) (simp add: status_value_def)
qed

end
