(* ===== verification/Convergence.thy ===== *)
theory Convergence
  imports Replicated_Reconcile
begin

text \<open>
  The replicated policy controller converges: a first reconcile creates the replica of a placed policy,
  and a second one that reads the created replica back writes no policy at all. The theory composes the
  reconciler with the cluster decision, the builder of replicas, the template processing and the cache
  of versions, for policies without hub templates.
\<close>

section \<open>Policies without hub templates\<close>

text \<open>What is written for such a policy: the built replica without the update trigger.\<close>

definition drop_trigger :: "Policy \<Rightarrow> Policy" where
  "drop_trigger plc = plc\<lparr>p_ObjectMeta := (p_ObjectMeta plc)\<lparr>om_Annotations :=
     Some (fmdrop TriggerUpdateAnnotation (raw_map (p_Annotations plc)))\<rparr>\<rparr>"

definition no_hub_templates :: "'r template_env \<Rightarrow> Policy \<Rightarrow> bool" where
  "no_hub_templates te plc \<longleftrightarrow>
     (\<forall>t \<in> set (ps_PolicyTemplates (p_Spec plc)). \<not> tm_HasTemplate te (pt_ObjectDefinition t)) \<and>
     ps_HubTemplateOptions (p_Spec plc) = None \<and>
     fmlookup (raw_map (p_Annotations plc)) DisableTemplatesAnnotation = None"

text \<open>The requested replica is wanted: its root policy is placed on the cluster and gives \<open>desired\<close>.\<close>

definition replicable ::
  "('k, 'r) reconciler \<Rightarrow> 'k \<Rightarrow> Request \<Rightarrow> Policy \<Rightarrow> Policy \<Rightarrow> bool" where
  "replicable R k request root desired \<longleftrightarrow>
     (let c = api_read (rc_api R) k in
      \<exists>rootName rootNS dec. ParseRootPolicyLabel (nn_Name request) = Inr (rootName, rootNS) \<and>
        Get_Policy c (nn rootNS rootName) = Inr root \<and> \<not> ps_Disabled (p_Spec root) \<and>
        singleClusterDecision c root (nn_Namespace request) = Inr dec \<and> dec_Cluster dec \<noteq> [] \<and>
        fst (buildReplicatedPolicy c root dec) = Inr desired)"

definition watch_call :: "('k, 'r) reconciler \<Rightarrow> Request \<Rightarrow> Policy \<Rightarrow> Policy \<Rightarrow> 'k \<Rightarrow> goerr option \<times> 'k" where
  "watch_call R request root desired k =
     (let oid = object_id R (p_TypeMeta desired) (nn_Namespace request) (nn_Name request);
          objs = getPolicySetDependencies root
      in if objs \<noteq> [] then AddOrUpdateWatcher (rc_api R) oid objs k else RemoveWatcher (rc_api R) oid k)"

lemma processTemplates_none:
  assumes "no_hub_templates te plc" and "\<forall>w. tm_StartQueryBatch te (re_default env) w = None"
  shows "\<exists>t'. processTemplates a cr env te denylist plc cl root t h = (None, drop_trigger plc, t', h)"
proof -
  have "fst (GetResolver env w defaultSANamespacedName t) = Inr (re_default env)" for w
    by (simp add: GetResolver_def Let_def split: option.splits)
  with assms show ?thesis
    by (simp add: processTemplates_def getTemplateResolverOpts_def no_hub_templates_def process_loop_no_templates
        drop_trigger_def Let_def case_prod_unfold)
qed

lemma drop_trigger_simps [simp]:
  "p_Spec (drop_trigger plc) = p_Spec plc" "p_Labels (drop_trigger plc) = p_Labels plc"
  "p_TypeMeta (drop_trigger plc) = p_TypeMeta plc"
  "raw_map (p_Annotations (drop_trigger plc)) = fmdrop TriggerUpdateAnnotation (raw_map (p_Annotations plc))"
  by (simp_all add: drop_trigger_def raw_map_def)

text \<open>An initialization vector that the stored replica has is one that was written.\<close>

lemma keep_iv_stored:
  assumes "equivalentReplicatedPolicies (drop_trigger desired) p" and "p_Annotations desired \<noteq> None"
  shows "keep_iv (Some p) desired = desired"
proof (cases "fmlookup (raw_map (p_Annotations p)) IVAnnotation")
  case (Some iv)
  have "raw_map (p_Annotations p) = fmdrop TriggerUpdateAnnotation (raw_map (p_Annotations desired))"
    using assms(1) by (simp add: equivalentReplicatedPolicies_def map_sem_eq_def split: if_splits)
  with Some have "fmlookup (raw_map (p_Annotations desired)) IVAnnotation = Some iv"
    by (simp split: if_splits)
  then have "fmupd IVAnnotation iv (raw_map (p_Annotations desired)) = raw_map (p_Annotations desired)"
    by (intro fmap_ext) simp
  with Some assms(2) show ?thesis by (auto simp: keep_iv_def raw_map_def)
qed (simp add: keep_iv_def)

section \<open>One reconcile\<close>

text \<open>Up to the write of the policy.\<close>

lemma reconcile_request_wanted:
  assumes "replicable R (pr_world st) request root desired" and "no_hub_templates (rc_template R) desired"
    and "\<forall>w. tm_StartQueryBatch (rc_template R) (re_default (rc_resolver R)) w = None"
    and "keep_iv existing desired = desired" and "watch_call R request root desired (pr_world st) = (werr, k1)"
  shows "\<exists>t root' cl. reconcile_request R request existing stale st =
    (let st1 = set_world k1 (st\<lparr>pr_resolvers := t\<rparr>) in
     case existing of
       None \<Rightarrow> create_replica R request root' (drop_trigger desired) cl werr st1
     | Some p \<Rightarrow> update_replica R request root' (drop_trigger desired) p cl None werr st1)"
proof -
  let ?c = "api_read (rc_api R) (pr_world st)"
  from assms(1) obtain rootName rootNS dec where
    p: "ParseRootPolicyLabel (nn_Name request) = Inr (rootName, rootNS)" "Get_Policy ?c (nn rootNS rootName) = Inr root"
    "\<not> ps_Disabled (p_Spec root)" "singleClusterDecision ?c root (nn_Namespace request) = Inr dec" "dec_Cluster dec \<noteq> []"
    "fst (buildReplicatedPolicy ?c root dec) = Inr desired"
    by (auto simp: replicable_def Let_def)
  obtain root' where b: "buildReplicatedPolicy ?c root dec = (Inr desired, root')"
    using p(6) by (cases "buildReplicatedPolicy ?c root dec") simp
  obtain t where t: "processTemplates (rc_api R) (rc_crypto R) (rc_resolver R) (rc_template R) (rc_denylist R) desired
      (dec_Cluster dec) root' (pr_resolvers st) (pr_hub st) = (None, drop_trigger desired, t, pr_hub st)"
    using processTemplates_none [OF assms(2,3)] by blast
  have o: "ps_HubTemplateOptions (p_Spec desired) = None" using assms(2) by (simp add: no_hub_templates_def)
  have w: "update_watches R (object_id R (p_TypeMeta desired) (nn_Namespace request) (nn_Name request))
      (getPolicySetDependencies root) (st\<lparr>pr_resolvers := t\<rparr>) = (werr, set_world k1 (st\<lparr>pr_resolvers := t\<rparr>))"
    using assms(5) by (simp add: update_watches_def watch_call_def Let_def split: if_splits)
  have "reconcile_request R request existing stale st = replicate_to_cluster R request existing root rootNS dec st"
    using p by (simp add: reconcile_request_def Let_def)
  also have "\<dots> = (let st1 = set_world k1 (st\<lparr>pr_resolvers := t\<rparr>) in
     case existing of
       None \<Rightarrow> create_replica R request root' (drop_trigger desired) (dec_Cluster dec) werr st1
     | Some p \<Rightarrow> update_replica R request root' (drop_trigger desired) p (dec_Cluster dec) None werr st1)"
    by (simp add: replicate_to_cluster_def b assms(4) t o w Let_def)
  finally show ?thesis by blast
qed

section \<open>Properties\<close>

text \<open>C13. The propagator converges: when the replica of a placed policy without hub templates is missing,
  one reconcile creates it, and as soon as the created replica can be read back and the hub still wants
  the same replica, the next reconcile changes the hub by nothing but the call that sets the dynamic
  watches: it neither creates, updates nor deletes a policy.\<close>

theorem replica_converges:
  fixes R :: "('k, 'r) reconciler"
  assumes "replicable R (pr_world st) request root desired"
    and "Get_Policy (api_read (rc_api R) (pr_world st)) request = Inl (ApiStatus NotFound)"
    and "no_hub_templates (rc_template R) desired"
    and "\<forall>w. tm_StartQueryBatch (rc_template R) (re_default (rc_resolver R)) w = None"
    and "watch_call R request root desired (pr_world st) = (None, k1)"
    and "Create_Policy (rc_api R) (drop_trigger desired) k1 = (Inr created, k2)"
    and "equivalentReplicatedPolicies (drop_trigger desired) created"
    and "Get_Policy (api_read (rc_api R) k2) request = Inr created"
    and "replicable R k2 request root desired"
    and "watch_call R request root desired k2 = (None, k3)"
  shows "\<exists>st1 st2. ReplicatedPolicy_Reconcile R request st = ((Result_zero, None), st1) \<and> pr_world st1 = k2 \<and>
    ReplicatedPolicy_Reconcile R request st1 = ((Result_zero, None), st2) \<and> pr_world st2 = k3 \<and>
    fmlookup (pr_versions st2) (rsrcVersKey (nn_Namespace request) (nn_Name request)) = Some (p_ResourceVersion created)"
proof -
  let ?key = "rsrcVersKey (nn_Namespace request) (nn_Name request)"
  have "keep_iv None desired = desired" by (simp add: keep_iv_def)
  from reconcile_request_wanted [OF assms(1,3,4) this assms(5), of False] obtain t root1 cl1 where
    first: "ReplicatedPolicy_Reconcile R request st =
      create_replica R request root1 (drop_trigger desired) cl1 None (set_world k1 (st\<lparr>pr_resolvers := t\<rparr>))"
    using assms(2) by (auto simp: ReplicatedPolicy_Reconcile_def Let_def)
  obtain out st1 where st1: "create_replica R request root1 (drop_trigger desired) cl1 None (set_world k1 (st\<lparr>pr_resolvers := t\<rparr>)) = (out, st1)"
    by fastforce
  have "Create_Policy (rc_api R) (drop_trigger desired) (pr_world (set_world k1 (st\<lparr>pr_resolvers := t\<rparr>))) = (Inr created, k2)"
    using assms(6) by simp
  note c = create_replica_version [OF this st1]
  have "p_ResourceVersion created \<noteq> deletedMarker (p_ResourceVersion created)" by (simp add: deletedMarker_def)
  then have fresh: "ReplicatedPolicy_Reconcile R request st1 = reconcile_request R request (Some created) False st1"
    using reconcile_fresh [of R st1 request created] c assms(8) by (simp add: safeReadLoad_def)
  have "p_Annotations desired \<noteq> None"
    using assms(1) by (auto simp: replicable_def Let_def elim: buildReplicatedPolicy_Inr)
  from keep_iv_stored [OF assms(7) this] have "keep_iv (Some created) desired = desired" .
  from reconcile_request_wanted [of R st1, OF _ assms(3,4) this, of request root None k3 False] assms(9,10) c(2) obtain t2 root2 cl2 where
    "reconcile_request R request (Some created) False st1 =
      update_replica R request root2 (drop_trigger desired) created cl2 None None (set_world k3 (st1\<lparr>pr_resolvers := t2\<rparr>))"
    by auto
  then have "ReplicatedPolicy_Reconcile R request st1 = ((Result_zero, None), (set_world k3 (st1\<lparr>pr_resolvers := t2\<rparr>))\<lparr>pr_versions :=
      set_version (snd (safeWriteLoad (pr_versions st1) ?key)) ?key (p_ResourceVersion created)\<rparr>)"
    using assms(7) fresh by (simp add: update_replica_def Let_def)
  then show ?thesis using first st1 c by (auto simp: set_version_def)
qed

text \<open>A hub that serves the created replicas back.\<close>

definition ex_growing :: "ex_write list \<Rightarrow> client_reader" where
  "ex_growing k = ex_reader\<lparr>List_PlacementBindings := \<lambda>_. Inr [ex_pb],
     Get_Policy := \<lambda>n. if n = nn ''ns'' ''p'' then Inr ex_root
       else (case find (\<lambda>w. case w of Created _ \<Rightarrow> True | _ \<Rightarrow> False) k of
               Some (Created p) \<Rightarrow> Inr (ex_version p)
             | _ \<Rightarrow> Inl (ApiStatus NotFound))\<rparr>"

definition ex_growing_reconciler :: "(ex_write list, nat) reconciler" where
  "ex_growing_reconciler = (ex_reconciler ex_reader)\<lparr>rc_api := (ex_api ex_reader)\<lparr>api_read := ex_growing\<rparr>\<rparr>"

definition ex_dec :: clusterDecision where
  "ex_dec = \<lparr>dec_Cluster = ''c1'', dec_PolicyOverrides = \<lparr>bo_RemediationAction = []\<rparr>\<rparr>"

lemma ex_replicable:
  "\<exists>desired. fst (buildReplicatedPolicy ex_reader ex_root ex_dec) = Inr desired \<and>
     no_hub_templates ex_templates desired \<and> (\<forall>k. replicable ex_growing_reconciler k (nn ''c1'' ''ns.p'') ex_root desired)"
proof -
  obtain desired where d: "fst (buildReplicatedPolicy ex_reader ex_root ex_dec) = Inr desired"
    by (simp add: buildReplicatedPolicy_def canonicalizeDependencies_def ex_reader_def ex_dec_def ex_objects Let_def)
  have g: "api_read (rc_api ex_growing_reconciler) k = ex_growing k" for k by (simp add: ex_growing_reconciler_def)
  have "fst (buildReplicatedPolicy (ex_growing k) ex_root ex_dec) = Inr desired" for k
    using d by (simp add: buildReplicatedPolicy_def canonicalizeDependencies_def ex_growing_def ex_reader_def ex_dec_def ex_objects Let_def)
  moreover have "singleClusterDecision (ex_growing k) ex_root ''c1'' = Inr ex_dec" for k
    by (simp add: singleClusterDecision_def isSingleClusterInDecisions_def HasValidPlacementRef_def
        EqualFold_def Enforce_def ex_growing_def clusterDecision_zero_def ex_reader_def ex_dec_def ex_objects Let_def)
  moreover have "Get_Policy (ex_growing k) (nn ''ns'' ''p'') = Inr ex_root" for k by (simp add: ex_growing_def)
  moreover have "\<not> ps_Disabled (p_Spec ex_root)" "dec_Cluster ex_dec \<noteq> []" by (simp_all add: ex_objects ex_dec_def)
  ultimately have "replicable ex_growing_reconciler k (nn ''c1'' ''ns.p'') ex_root desired" for k
    unfolding replicable_def Let_def g
    by (intro exI [of _ "''p''"] exI [of _ "''ns''"] exI [of _ ex_dec]) (simp add: ex_parse)
  moreover have "no_hub_templates ex_templates desired"
    using d by (auto simp: buildReplicatedPolicy_def canonicalizeDependencies_def keep_metadata_def no_hub_templates_def
        DisableTemplatesAnnotation_def ManagedClusterUIDAnnotation_def argoCDCompareOptionsAnnotation_def SchemeGroup_def
        raw_map_def ex_reader_def ex_dec_def ex_objects Let_def)
  ultimately show ?thesis using d by blast
qed

theorem replica_converges_witness:
  "\<exists>st1 st2 p. ReplicatedPolicy_Reconcile ex_growing_reconciler (nn ''c1'' ''ns.p'') (ex_propagator fmempty) = ((Result_zero, None), st1) \<and>
     pr_world st1 = [Unwatched, Created p] \<and>
     ReplicatedPolicy_Reconcile ex_growing_reconciler (nn ''c1'' ''ns.p'') st1 = ((Result_zero, None), st2) \<and>
     pr_world st2 = [Unwatched, Created p, Unwatched]"
proof -
  let ?R = ex_growing_reconciler and ?req = "nn ''c1'' ''ns.p''"
  obtain desired where n: "no_hub_templates ex_templates desired" and r: "\<And>k. replicable ?R k ?req ex_root desired"
    using ex_replicable by blast
  let ?p = "drop_trigger desired"
  have w: "watch_call ?R ?req ex_root desired k = (None, k @ [Unwatched])" for k
    by (simp add: watch_call_def getPolicySetDependencies_def ex_growing_reconciler_def ex_reconciler_def ex_api_def ex_objects Let_def)
  have e: "equivalentReplicatedPolicies ?p (ex_version ?p)" by (simp add: equivalentReplicatedPolicies_def ex_version_def)
  have "\<exists>st1 st2. ReplicatedPolicy_Reconcile ?R ?req (ex_propagator fmempty) = ((Result_zero, None), st1) \<and>
      pr_world st1 = [Unwatched, Created ?p] \<and> ReplicatedPolicy_Reconcile ?R ?req st1 = ((Result_zero, None), st2) \<and>
      pr_world st2 = [Unwatched, Created ?p, Unwatched] \<and>
      fmlookup (pr_versions st2) (rsrcVersKey (nn_Namespace ?req) (nn_Name ?req)) = Some (p_ResourceVersion (ex_version ?p))"
    by (rule replica_converges [of ?R "ex_propagator fmempty" ?req ex_root desired "[Unwatched]" "ex_version ?p", OF r _ _ _ _ _ e _ r])
      (use n w in \<open>simp_all add: ex_growing_reconciler_def ex_reconciler_def ex_api_def ex_growing_def ex_propagator_def ex_templates_def\<close>)
  then show ?thesis by blast
qed

end
