(* ===== verification/Token_Refresh.thy ===== *)
theory Token_Refresh
  imports Complex_Main Template_Resolvers Encryption
begin

text \<open>
  The goroutine that \<^verbatim>\<open>GetToken\<close> of \<^verbatim>\<open>controllers/propagator/template_utils.go\<close> starts to keep the token
  of a service account fresh, with \<^verbatim>\<open>getUserKubeConfig\<close>, \<^verbatim>\<open>GetWatchCount\<close> and \<^verbatim>\<open>WaitForShutdown\<close>.

  The goroutine loops over the times at which its deadline context is done. Each time is an input of
  the model (a \<open>wake\<close>), with the results of the calls the loop makes then, so the loop is a state
  machine over the wakes and a run is a list of them. The minutes of the configuration and the random
  number are rationals: the source computes with \<^verbatim>\<open>float64\<close>, which is exact for whole minutes, and
  \<^verbatim>\<open>rand.Float64\<close> times the range may be rounded up to the range itself, so the random factor is
  taken from the closed interval from 0 to 1.
\<close>

section \<open>Durations\<close>

definition Minute :: Duration where
  "Minute = 60 * Second"

text \<open>\<^verbatim>\<open>time.Duration(f)\<close> cuts the fraction off.\<close>

definition to_Duration :: "rat \<Rightarrow> Duration" where
  "to_Duration f = (if 0 \<le> f then \<lfloor>f\<rfloor> else - \<lfloor>- f\<rfloor>)"

text \<open>\<^verbatim>\<open>Duration.Round\<close>: to the nearest multiple, halves away from zero, saturating on overflow.\<close>

definition Round :: "Duration \<Rightarrow> Duration \<Rightarrow> Duration" where
  "Round d m =
     (if m \<le> 0 then d
      else if d < 0 then
        let r = (- d) mod m in
        if r + r < m then d + r
        else let d1 = wrap64 (d - m + r) in if d1 < d then d1 else - (2 ^ 63)
      else
        let r = d mod m in
        if r + r < m then d - r
        else let d1 = wrap64 (d + m - r) in if d < d1 then d1 else 2 ^ 63 - 1)"

section \<open>The refresh loop\<close>

text \<open>\<open>tc_OnFailedRefresh\<close> says whether the callback is defined.\<close>

record TokenRefreshConfig =
  tc_ExpirationSeconds :: int
  tc_MinRefreshMins :: rat
  tc_MaxRefreshMins :: rat
  tc_OnFailedRefresh :: bool

text \<open>The configuration in \<^verbatim>\<open>initResolver\<close>.\<close>

definition tokenConfig :: TokenRefreshConfig where
  "tokenConfig = \<lparr>tc_ExpirationSeconds = 7200, tc_MinRefreshMins = 5, tc_MaxRefreshMins = 10, tc_OnFailedRefresh = True\<rparr>"

definition minRefreshBuffer :: "TokenRefreshConfig \<Rightarrow> Duration" where
  "minRefreshBuffer cfg = to_Duration (tc_MinRefreshMins cfg * of_int Minute)"

definition maxJitterMins :: "TokenRefreshConfig \<Rightarrow> rat" where
  "maxJitterMins cfg = (tc_MaxRefreshMins cfg - tc_MinRefreshMins cfg) * of_int Minute"

definition refreshTime :: "TokenRefreshConfig \<Rightarrow> rat \<Rightarrow> int \<Rightarrow> int" where
  "refreshTime cfg rand expirationTimestamp =
     (let jitter = Round (to_Duration (rand * maxJitterMins cfg)) Second
      in expirationTimestamp - minRefreshBuffer cfg - jitter)"

text \<open>
  What the goroutine owns: the contents of the token file (\<open>None\<close> when it is gone) and how often it
  removed the file, the expiration of the token, the deadline it waits for (\<open>None\<close> when it has
  returned), the errors given to the callback, the requests it made with their times, and its calls
  of \<^verbatim>\<open>wg.Done\<close>.
\<close>

record refresh =
  rf_file :: "string option"
  rf_removals :: nat
  rf_expiration :: int
  rf_deadline :: "int option"
  rf_failures :: "goerr list"
  rf_requests :: "(int \<times> int) list"
  rf_wgDone :: nat

text \<open>
  The context is done: it was canceled, or the deadline has passed at time \<open>now\<close>. In that case the
  token request and the write of the file have the given results, and \<open>rand\<close> is the random number
  of the next round. A failed write may have left anything in the file.
\<close>

datatype wake =
    Canceled
  | Deadline (wk_now: int) (wk_token: "goerr + string \<times> int") (wk_write: "goerr option") (wk_left: string) (wk_rand: rat)

definition refresh_return :: "refresh \<Rightarrow> refresh" where
  "refresh_return st = st\<lparr>rf_file := None, rf_removals := rf_removals st + 1, rf_deadline := None, rf_wgDone := rf_wgDone st + 1\<rparr>"

definition refresh_failed :: "TokenRefreshConfig \<Rightarrow> goerr \<Rightarrow> refresh \<Rightarrow> refresh" where
  "refresh_failed cfg err st =
     refresh_return (if tc_OnFailedRefresh cfg then st\<lparr>rf_failures := rf_failures st @ [err]\<rparr> else st)"

text \<open>Up to the wait for the deadline, and the rest of a round.\<close>

definition refresh_wait :: "TokenRefreshConfig \<Rightarrow> rat \<Rightarrow> refresh \<Rightarrow> refresh" where
  "refresh_wait cfg rand st = st\<lparr>rf_deadline := Some (refreshTime cfg rand (rf_expiration st))\<rparr>"

definition refresh_wake :: "TokenRefreshConfig \<Rightarrow> wake \<Rightarrow> refresh \<Rightarrow> refresh" where
  "refresh_wake cfg w st =
     (if rf_deadline st = None then st
      else
        (case w of
           Canceled \<Rightarrow> refresh_return st
         | Deadline now token write left rand \<Rightarrow>
             let st = st\<lparr>rf_requests := rf_requests st @ [(now, rf_expiration st)]\<rparr> in
             (case token of
                Inl err \<Rightarrow> refresh_failed cfg err st
              | Inr (tk, expirationTimestamp) \<Rightarrow>
                  (case write of
                     Some err \<Rightarrow> refresh_failed cfg err (st\<lparr>rf_file := Some left\<rparr>)
                   | None \<Rightarrow> refresh_wait cfg rand (st\<lparr>rf_file := Some tk, rf_expiration := expirationTimestamp\<rparr>)))))"

definition refresh_start :: "TokenRefreshConfig \<Rightarrow> string \<Rightarrow> int \<Rightarrow> rat \<Rightarrow> refresh" where
  "refresh_start cfg token expirationTimestamp rand =
     refresh_wait cfg rand
       \<lparr>rf_file = Some token, rf_removals = 0, rf_expiration = expirationTimestamp, rf_deadline = None,
        rf_failures = [], rf_requests = [], rf_wgDone = 0\<rparr>"

definition refresh_run :: "TokenRefreshConfig \<Rightarrow> wake list \<Rightarrow> refresh \<Rightarrow> refresh" where
  "refresh_run cfg = fold (refresh_wake cfg)"

section \<open>Shutdown, watches and client configuration\<close>

text \<open>
  \<^verbatim>\<open>WaitForShutdown\<close> returns when the counter of the wait group is zero: every goroutine that was added
  is done.
\<close>

definition shutdown_complete :: "refresh list \<Rightarrow> bool" where
  "shutdown_complete loops \<longleftrightarrow> sum_list (map rf_wgDone loops) = length loops"

text \<open>The counts of the library are a parameter; \<open>accounts\<close> is the order of the map.\<close>

definition GetWatchCount ::
  "('r \<Rightarrow> 64 word) \<Rightarrow> 'r resolver_env \<Rightarrow> NamespacedName list \<Rightarrow> 'r resolvers \<Rightarrow> 64 word" where
  "GetWatchCount watches env accounts t =
     fold (\<lambda>sa watchCount.
             case tr_TemplateResolvers t sa of
               None \<Rightarrow> watchCount
             | Some a \<Rightarrow>
                 (case wr_resolver (tr_objs t a) of
                    None \<Rightarrow> watchCount
                  | Some r \<Rightarrow> if wr_canceled (tr_objs t a) then watchCount else watchCount + watches r)) accounts 0
     + watches (re_default env)"

record TLSClientConfig =
  tls_Insecure :: bool
  tls_ServerName :: string
  tls_CertFile :: string
  tls_KeyFile :: string
  tls_CAFile :: string
  tls_CertData :: string
  tls_KeyData :: string
  tls_CAData :: string

record rest_Config =
  cfg_Host :: string
  cfg_APIPath :: string
  cfg_Username :: string
  cfg_Password :: string
  cfg_BearerToken :: string
  cfg_BearerTokenFile :: string
  cfg_TLSClientConfig :: TLSClientConfig

definition getUserKubeConfig :: "rest_Config \<Rightarrow> string \<Rightarrow> rest_Config" where
  "getUserKubeConfig config tokenFile =
     (let userConfig =
            \<lparr>cfg_Host = cfg_Host config, cfg_APIPath = cfg_APIPath config, cfg_Username = [], cfg_Password = [],
             cfg_BearerToken = [], cfg_BearerTokenFile = [],
             cfg_TLSClientConfig =
               \<lparr>tls_Insecure = tls_Insecure (cfg_TLSClientConfig config),
                tls_ServerName = tls_ServerName (cfg_TLSClientConfig config),
                tls_CertFile = [], tls_KeyFile = [],
                tls_CAFile = tls_CAFile (cfg_TLSClientConfig config), tls_CertData = [], tls_KeyData = [],
                tls_CAData = tls_CAData (cfg_TLSClientConfig config)\<rparr>\<rparr>
      in userConfig\<lparr>cfg_BearerTokenFile := tokenFile\<rparr>)"

section \<open>The deadline\<close>

lemma Round_bounds:
  assumes "0 \<le> d" and "d \<le> n * m" and "0 < m" and "n * m < 2 ^ 63"
  shows "0 \<le> Round d m" and "Round d m \<le> n * m"
proof -
  have r: "0 \<le> d mod m" "d mod m < m" "d mod m \<le> d" using assms by (simp_all add: zmod_le_nonneg_dividend)
  have up: "d + m - d mod m \<le> n * m" if "\<not> d mod m + d mod m < m"
  proof -
    have "d mod m \<noteq> 0" using that assms(3) by auto
    then have "d < n * m" using assms(2) by (metis mod_mult_self2_is_0 mult.commute order_less_le)
    then have "(d div m) * m < n * m" using r by (simp add: minus_mod_eq_div_mult [symmetric])
    then have "d div m < n" using assms(3) by simp
    then have "(d div m + 1) * m \<le> n * m" using assms(3) by (simp add: mult_right_mono)
    moreover have "d + m - d mod m = (d div m + 1) * m" by (simp add: algebra_simps minus_mod_eq_div_mult [symmetric])
    ultimately show ?thesis by simp
  qed
  have down: "d - d mod m \<le> n * m" using r(1) assms(2) by simp
  show "0 \<le> Round d m" and "Round d m \<le> n * m"
    using r up down assms by (auto simp: Round_def Let_def wrap64_id)
qed

text \<open>The configuration has whole minutes, and the durations stay far from overflow.\<close>

definition whole_minutes :: "TokenRefreshConfig \<Rightarrow> int \<Rightarrow> int \<Rightarrow> bool" where
  "whole_minutes cfg a b \<longleftrightarrow>
     tc_MinRefreshMins cfg = of_int a \<and> tc_MaxRefreshMins cfg = of_int b \<and> 0 \<le> a \<and> a \<le> b \<and> b \<le> 10 ^ 6"

lemma whole_minutes_tokenConfig: "whole_minutes tokenConfig 5 10"
  by (simp add: whole_minutes_def tokenConfig_def)

lemma refreshTime_window:
  assumes "whole_minutes cfg a b" and "0 \<le> rand" and "rand \<le> 1"
  shows "expiration - b * Minute \<le> refreshTime cfg rand expiration" and "refreshTime cfg rand expiration \<le> expiration - a * Minute"
proof -
  let ?x = "rand * maxJitterMins cfg"
  have "to_Duration (of_int k) = k" for k by (simp add: to_Duration_def flip: of_int_minus)
  from assms(1) this [of "a * Minute"] have m: "maxJitterMins cfg = of_int ((b - a) * Minute)" "0 \<le> (b - a) * Minute"
    "minRefreshBuffer cfg = a * Minute"
    by (simp_all add: whole_minutes_def maxJitterMins_def minRefreshBuffer_def Minute_def Second_def)
  have x: "0 \<le> ?x" "?x \<le> of_int ((b - a) * Minute)"
    unfolding m(1) using assms(2,3) m(2) by (auto intro: mult_left_le_one_le simp flip: of_int_0_le_iff [where 'a = rat])
  have "0 \<le> to_Duration ?x" using x(1) by (simp add: to_Duration_def)
  moreover have "to_Duration ?x \<le> ((b - a) * 60) * Second"
    using floor_mono [OF x(2)] x(1) unfolding floor_of_int by (simp add: to_Duration_def Minute_def algebra_simps)
  moreover have "((b - a) * 60) * Second < 2 ^ 63" "0 < Second" using assms(1) by (auto simp: whole_minutes_def Second_def)
  ultimately have "0 \<le> Round (to_Duration ?x) Second" "Round (to_Duration ?x) Second \<le> ((b - a) * 60) * Second"
    using Round_bounds by blast+
  then show "expiration - b * Minute \<le> refreshTime cfg rand expiration" and "refreshTime cfg rand expiration \<le> expiration - a * Minute"
    by (simp_all add: refreshTime_def m(3) Minute_def algebra_simps)
qed

section \<open>Runs\<close>

text \<open>A wake after which the loop goes on, and the token it leaves in the file.\<close>

fun renewed :: "wake \<Rightarrow> (string \<times> int) option" where
  "renewed (Deadline now (Inr tk) None left rand) = Some tk"
| "renewed _ = None"

fun wake_error :: "wake \<Rightarrow> goerr option" where
  "wake_error (Deadline now (Inl err) write left rand) = Some err"
| "wake_error (Deadline now (Inr tk) write left rand) = write"
| "wake_error Canceled = None"

lemma refresh_wake_renewed:
  "rf_deadline st \<noteq> None \<Longrightarrow> renewed w = Some (tk, ex) \<Longrightarrow>
     refresh_wake cfg w st = refresh_wait cfg (wk_rand w)
       (st\<lparr>rf_requests := rf_requests st @ [(wk_now w, rf_expiration st)], rf_file := Some tk, rf_expiration := ex\<rparr>)"
  by (cases w rule: renewed.cases; cases "rf_deadline st") (simp_all add: refresh_wake_def)

lemma refresh_wake_ends:
  assumes "rf_deadline st \<noteq> None" and "renewed w = None"
  shows "rf_deadline (refresh_wake cfg w st) = None" and "rf_file (refresh_wake cfg w st) = None"
    and "rf_removals (refresh_wake cfg w st) = rf_removals st + 1" and "rf_wgDone (refresh_wake cfg w st) = rf_wgDone st + 1"
    and "rf_failures (refresh_wake cfg w st) =
      rf_failures st @ (if tc_OnFailedRefresh cfg then case wake_error w of None \<Rightarrow> [] | Some err \<Rightarrow> [err] else [])"
proof -
  from assms(1) obtain t where t: "rf_deadline st = Some t" by blast
  have w: "refresh_wake cfg w st = (case wake_error w of
      None \<Rightarrow> refresh_return st
    | Some err \<Rightarrow> refresh_failed cfg err
        (st\<lparr>rf_requests := rf_requests st @ [(wk_now w, rf_expiration st)],
            rf_file := if isl (wk_token w) then rf_file st else Some (wk_left w)\<rparr>))"
  proof (cases w)
    case (Deadline now token wr left rand)
    with assms(2) t show ?thesis by (cases token; cases wr) (auto simp: refresh_wake_def)
  qed (simp add: refresh_wake_def t)
  note defs = refresh_return_def refresh_failed_def
  show "rf_deadline (refresh_wake cfg w st) = None" by (simp add: w defs split: option.splits)
  show "rf_file (refresh_wake cfg w st) = None" by (simp add: w defs split: option.splits)
  show "rf_removals (refresh_wake cfg w st) = rf_removals st + 1" by (simp add: w defs split: option.splits)
  show "rf_wgDone (refresh_wake cfg w st) = rf_wgDone st + 1" by (simp add: w defs split: option.splits)
  show "rf_failures (refresh_wake cfg w st) =
      rf_failures st @ (if tc_OnFailedRefresh cfg then case wake_error w of None \<Rightarrow> [] | Some err \<Rightarrow> [err] else [])"
    by (simp add: w defs split: option.splits)
qed

lemma refresh_run_returned: "rf_deadline st = None \<Longrightarrow> refresh_run cfg ws st = st"
  unfolding refresh_run_def by (induction ws) (simp_all add: refresh_wake_def)

text \<open>
  What a run must have done: it goes on as long as every wake renews the token, with the newest token
  in the file, and the first wake that does not ends it.
\<close>

definition refresh_outcome :: "TokenRefreshConfig \<Rightarrow> string \<times> int \<Rightarrow> wake list \<Rightarrow> refresh \<Rightarrow> bool" where
  "refresh_outcome cfg issued ws st =
     (case find (\<lambda>w. renewed w = None) ws of
        None \<Rightarrow>
          let newest = last (issued # map (the \<circ> renewed) ws) in
          rf_deadline st \<noteq> None \<and> rf_file st = Some (fst newest) \<and> rf_expiration st = snd newest \<and>
          rf_removals st = 0 \<and> rf_wgDone st = 0 \<and> rf_failures st = []
      | Some w \<Rightarrow>
          rf_deadline st = None \<and> rf_file st = None \<and> rf_removals st = 1 \<and> rf_wgDone st = 1 \<and>
          rf_failures st = (if tc_OnFailedRefresh cfg then (case wake_error w of None \<Rightarrow> [] | Some err \<Rightarrow> [err]) else []))"

lemma refresh_outcome_Cons:
  "renewed w = Some tk \<Longrightarrow> refresh_outcome cfg issued (w # ws) st = refresh_outcome cfg tk ws st"
  unfolding refresh_outcome_def by (simp add: Let_def split: option.split)

lemma refresh_run_outcome:
  assumes "rf_deadline st \<noteq> None" "rf_file st = Some (fst tk)" "rf_expiration st = snd tk" "rf_removals st = 0"
    "rf_wgDone st = 0" "rf_failures st = []"
  shows "refresh_outcome cfg tk ws (refresh_run cfg ws st)"
  using assms
proof (induction ws arbitrary: st tk)
  case Nil
  then show ?case by (simp add: refresh_run_def refresh_outcome_def)
next
  case (Cons w ws)
  have run: "refresh_run cfg (w # ws) st = refresh_run cfg ws (refresh_wake cfg w st)" by (simp add: refresh_run_def)
  show ?case
  proof (cases "renewed w")
    case None
    with refresh_wake_ends [OF Cons.prems(1) None, of cfg] Cons.prems show ?thesis
      by (simp add: run refresh_run_returned refresh_outcome_def)
  next
    case (Some tk')
    obtain t e where tk': "tk' = (t, e)" by fastforce
    note step = refresh_wake_renewed [OF Cons.prems(1) Some [unfolded tk'], of cfg]
    have "refresh_outcome cfg tk' ws (refresh_run cfg ws (refresh_wake cfg w st))"
      by (rule Cons.IH) (use Cons.prems in \<open>simp_all add: step refresh_wait_def tk'\<close>)
    with refresh_outcome_Cons [OF Some] show ?thesis by (simp add: run)
  qed
qed

lemma start_outcome:
  "refresh_outcome cfg (token, expiration) ws (refresh_run cfg ws (refresh_start cfg token expiration rand))"
  by (rule refresh_run_outcome) (simp_all add: refresh_start_def refresh_wait_def)

text \<open>The times at which a run wakes up: not before the deadline, and at most \<open>lag\<close> late.\<close>

fun on_time :: "TokenRefreshConfig \<Rightarrow> int \<Rightarrow> wake list \<Rightarrow> refresh \<Rightarrow> bool" where
  "on_time cfg lag [] st \<longleftrightarrow> True"
| "on_time cfg lag (w # ws) st \<longleftrightarrow>
     (case (w, rf_deadline st) of
        (Deadline now _ _ _ rand, Some deadline) \<Rightarrow> deadline \<le> now \<and> now \<le> deadline + lag \<and> 0 \<le> rand \<and> rand \<le> 1
      | _ \<Rightarrow> True) \<and> on_time cfg lag ws (refresh_wake cfg w st)"

definition deadline_in_window :: "int \<Rightarrow> int \<Rightarrow> refresh \<Rightarrow> bool" where
  "deadline_in_window a b st \<longleftrightarrow>
     (\<forall>d. rf_deadline st = Some d \<longrightarrow> rf_expiration st - b * Minute \<le> d \<and> d \<le> rf_expiration st - a * Minute)"

lemma requests_in_window:
  assumes "whole_minutes cfg a b" and "on_time cfg lag ws st" and "deadline_in_window a b st"
    and "\<forall>(now, ex) \<in> set (rf_requests st). ex - b * Minute \<le> now \<and> now \<le> ex - a * Minute + lag"
  shows "\<forall>(now, ex) \<in> set (rf_requests (refresh_run cfg ws st)). ex - b * Minute \<le> now \<and> now \<le> ex - a * Minute + lag"
  using assms(2-)
proof (induction ws arbitrary: st)
  case Nil
  then show ?case by (simp add: refresh_run_def)
next
  case (Cons w ws)
  have run: "refresh_run cfg (w # ws) st = refresh_run cfg ws (refresh_wake cfg w st)" by (simp add: refresh_run_def)
  have "deadline_in_window a b (refresh_wake cfg w st) \<and>
      (\<forall>(now, ex) \<in> set (rf_requests (refresh_wake cfg w st)). ex - b * Minute \<le> now \<and> now \<le> ex - a * Minute + lag)"
  proof (cases "rf_deadline st")
    case None
    with Cons.prems show ?thesis by (simp add: refresh_wake_def)
  next
    case (Some d)
    with Cons.prems(2) have d: "rf_expiration st - b * Minute \<le> d" "d \<le> rf_expiration st - a * Minute"
      by (simp_all add: deadline_in_window_def)
    show ?thesis
    proof (cases w)
      case Canceled
      with Cons.prems(3) Some show ?thesis by (simp add: refresh_wake_def refresh_return_def deadline_in_window_def)
    next
      case (Deadline now token wr left rand)
      with Cons.prems(1) Some have t: "d \<le> now" "now \<le> d + lag" "0 \<le> rand" "rand \<le> 1" by simp_all
      have reqs: "rf_requests (refresh_wake cfg w st) = rf_requests st @ [(now, rf_expiration st)]"
        by (simp add: Deadline Some refresh_wake_def refresh_failed_def refresh_return_def refresh_wait_def Let_def split: sum.splits option.splits prod.splits)
      have "deadline_in_window a b (refresh_wake cfg w st)"
        using refreshTime_window [OF assms(1) t(3,4)]
        by (simp add: Deadline Some refresh_wake_def refresh_failed_def refresh_return_def refresh_wait_def deadline_in_window_def
            Let_def split: sum.splits option.splits prod.splits)
      with Cons.prems(3) d t reqs show ?thesis by auto
    qed
  qed
  with Cons.IH [of "refresh_wake cfg w st"] Cons.prems(1) show ?case by (simp add: run)
qed

section \<open>Properties\<close>

text \<open>C32. The refresh loop goes on exactly as long as every request and every write succeeds, with the
  newest token in the file. At the first wake that is a cancellation or a failure it returns: the token
  file is removed exactly once, the wait group is told exactly once, and the callback gets the error of
  the failure, and nothing for a cancellation; later wakes change nothing.\<close>

theorem refresh_loop_ends:
  "refresh_outcome cfg (token, expiration) ws (refresh_run cfg ws (refresh_start cfg token expiration rand))"
  by (rule start_outcome)

text \<open>C33. With the configuration of the propagator every renewal is requested between ten and five
  minutes before the token in the file expires, later only by the delay with which the goroutine wakes
  up: a delay below five minutes never leaves an expired token in use.\<close>

theorem token_renewed_in_time:
  assumes "0 \<le> rand" and "rand \<le> 1" and "on_time tokenConfig lag ws (refresh_start tokenConfig token expiration rand)"
    and "lag < 5 * Minute"
    and "(now, expires) \<in> set (rf_requests (refresh_run tokenConfig ws (refresh_start tokenConfig token expiration rand)))"
  shows "expires - 10 * Minute \<le> now \<and> now \<le> expires - 5 * Minute + lag \<and> now < expires"
proof -
  have "deadline_in_window 5 10 (refresh_start tokenConfig token expiration rand)"
    using refreshTime_window [OF whole_minutes_tokenConfig assms(1,2)]
    by (simp add: deadline_in_window_def refresh_start_def refresh_wait_def)
  from requests_in_window [OF whole_minutes_tokenConfig assms(3) this] assms(4,5) show ?thesis
    by (fastforce simp: refresh_start_def refresh_wait_def)
qed

theorem token_renewed_in_time_witness:
  "(7200 - 300) * Second < 7200 * Second \<and>
   (\<exists>now expires. (now, expires) \<in> set (rf_requests (refresh_run tokenConfig
      [Deadline ((7200 - 300) * Second) (Inr (''t2'', 14000 * Second)) None [] 0, Canceled]
      (refresh_start tokenConfig ''t1'' (7200 * Second) 0))) \<and> now < expires)"
proof -
  let ?st = "refresh_start tokenConfig ''t1'' (7200 * Second) 0"
  let ?ws = "[Deadline ((7200 - 300) * Second) (Inr (''t2'', 14000 * Second)) None [] 0, Canceled]"
  note defs = refresh_start_def refresh_wait_def refresh_wake_def refresh_return_def refreshTime_def tokenConfig_def
    minRefreshBuffer_def maxJitterMins_def to_Duration_def Round_def Minute_def Second_def
  have o: "on_time tokenConfig 0 ?ws ?st" by (simp add: defs)
  have r: "((7200 - 300) * Second, 7200 * Second) \<in> set (rf_requests (refresh_run tokenConfig ?ws ?st))"
    by (simp add: refresh_run_def defs)
  from token_renewed_in_time [OF _ _ o _ r] r show ?thesis by (fastforce simp: Minute_def Second_def)
qed

text \<open>When the controller's context is canceled, every refresh loop that was started, whatever happened
  to it before, has returned: the wait of \<^verbatim>\<open>WaitForShutdown\<close> ends, and no token file is left.\<close>

theorem shutdown_terminates:
  assumes "loops = map (\<lambda>(cfg, token, expiration, rand, ws).
      refresh_run cfg (ws @ [Canceled]) (refresh_start cfg token expiration rand)) started"
  shows "shutdown_complete loops \<and> (\<forall>st \<in> set loops. rf_file st = None \<and> rf_removals st = 1 \<and> rf_deadline st = None)"
proof -
  have some: "find (\<lambda>w. renewed w = None) (ws @ [Canceled]) \<noteq> None" for ws by (induction ws) auto
  have finished: "rf_file st = None \<and> rf_removals st = 1 \<and> rf_deadline st = None \<and> rf_wgDone st = 1"
    if "refresh_outcome cfg tk (ws @ [Canceled]) st" for cfg tk ws st
    using that some [of ws] by (auto simp: refresh_outcome_def split: option.splits)
  have all: "\<forall>st \<in> set loops. rf_file st = None \<and> rf_removals st = 1 \<and> rf_deadline st = None \<and> rf_wgDone st = 1"
  proof
    fix st assume "st \<in> set loops"
    then obtain cfg token expiration rand ws where
      "st = refresh_run cfg (ws @ [Canceled]) (refresh_start cfg token expiration rand)" unfolding assms by auto
    with finished [OF start_outcome [of cfg token expiration "ws @ [Canceled]" rand]]
    show "rf_file st = None \<and> rf_removals st = 1 \<and> rf_deadline st = None \<and> rf_wgDone st = 1" by simp
  qed
  then have "map rf_wgDone loops = map (\<lambda>_. 1) loops" by (intro map_cong refl) blast
  then have "sum_list (map rf_wgDone loops) = length loops" by (simp only: sum_list_triv) simp
  with all show ?thesis by (simp add: shutdown_complete_def)
qed

theorem shutdown_terminates_witness:
  "shutdown_complete [refresh_run tokenConfig [Deadline 0 (Inl (ApiStatus NotFound)) None [] 0, Canceled]
     (refresh_start tokenConfig ''t'' 0 0), refresh_run tokenConfig [Canceled] (refresh_start tokenConfig ''u'' 0 0)]"
  using shutdown_terminates [OF refl, of "[(tokenConfig, ''t'', 0, 0, [Deadline 0 (Inl (ApiStatus NotFound)) None [] 0]),
    (tokenConfig, ''u'', 0, 0, [])]"] by simp

end
