(* ===== verification/Manager_Startup.thy ===== *)
theory Manager_Startup
  imports Replication Webhooks Token_Refresh
begin

text \<open>
  \<^verbatim>\<open>main.go\<close> and \<^verbatim>\<open>tlsconfig.go\<close>: the flags, the environment variables, the options of the manager, the
  order in which the parts are set up, and the ways in which the start ends. The libraries the start
  calls (the TLS helpers, the manager, the set-up of each controller, the API server) are parameters
  (\<open>startup_env\<close>); a set-up is a value of \<open>part\<close> with the arguments that \<^verbatim>\<open>main\<close> passes. Logging is left
  out, and the goroutines run after the start that is modelled here.
\<close>

section \<open>Flags and environment\<close>

record flags =
  fl_metricsAddr :: string
  fl_secureMetrics :: bool
  fl_enableLeaderElection :: bool
  fl_probeAddr :: string
  fl_keyRotationDays :: "32 word"
  fl_keyRotationMaxConcurrency :: "16 word"
  fl_policyMetricsMaxConcurrency :: "16 word"
  fl_policyStatusMaxConcurrency :: "16 word"
  fl_rootPolicyMaxConcurrency :: "16 word"
  fl_replPolicyMaxConcurrency :: "16 word"
  fl_enableWebhooks :: bool
  fl_disablePlacementRule :: bool
  fl_disablePlacementRule_Changed :: bool
  fl_templateFunctionDenyList :: "string list"
  fl_tlsMinVersion :: string
  fl_tlsCipherSuites :: string

definition default_flags :: flags where
  "default_flags =
     \<lparr>fl_metricsAddr = '':8383'', fl_secureMetrics = False, fl_enableLeaderElection = True, fl_probeAddr = '':8081'',
      fl_keyRotationDays = 30, fl_keyRotationMaxConcurrency = 10, fl_policyMetricsMaxConcurrency = 5,
      fl_policyStatusMaxConcurrency = 5, fl_rootPolicyMaxConcurrency = 2, fl_replPolicyMaxConcurrency = 10,
      fl_enableWebhooks = True, fl_disablePlacementRule = False, fl_disablePlacementRule_Changed = False,
      fl_templateFunctionDenyList = [], fl_tlsMinVersion = [], fl_tlsCipherSuites = []\<rparr>"

section \<open>Parts of the manager\<close>

text \<open>\<open>'p\<close> is the type of a TLS profile of the API server.\<close>

datatype 'p part =
    TLSProfileWatcher 'p
  | DynamicWatcher
  | RootPolicySpec "16 word"
  | DefaultResolver
  | PolicyMetrics "16 word"
  | PolicyAutomationCtrl
  | PolicySetCtrl bool
  | EncryptionKeysCtrl "32 word" "16 word"
  | RootPolicyStatusCtrl "16 word" bool
  | PolicyWebhook
  | PolicySetWebhook
  | HealthzCheck
  | ReadyzCheck
  | PlacementRefIndex
  | ReplicatedPolicyCtrl "16 word" "string list" bool

text \<open>The TLS options of the servers: Go's defaults, from the flags, or from the profile.\<close>

datatype ('t, 'p) tls_opts = GoDefaults | FromFlags 't | FromProfile 'p

record ('t, 'p) manager_options =
  mo_MetricsBindAddress :: string
  mo_MetricsSecure :: "('t, 'p) tls_opts option"
  mo_HealthProbeBindAddress :: string
  mo_LeaderElection :: bool
  mo_WebhookServer :: "('t, 'p) tls_opts option"

text \<open>
  \<open>su_ConfigFromFlags\<close> may return a nil configuration. \<open>su_setup\<close> is the error of setting a part up,
  \<open>su_GetCRD\<close> that of reading the definition of PlacementRules.
\<close>

record ('t, 'p) startup_env =
  su_LookupEnv :: "string \<Rightarrow> string option"
  su_ParseFloat :: "string \<Rightarrow> goerr + rat"
  su_Atoi :: "string \<Rightarrow> goerr + int"
  su_ConfigFromFlags :: "string \<Rightarrow> string \<Rightarrow> goerr + 't option"
  su_ClientNew :: "goerr option"
  su_FetchAPIServerTLSProfile :: "goerr + 'p"
  su_IsNoMatchError :: "goerr \<Rightarrow> bool"
  su_zeroProfile :: 'p
  su_NewManager :: "rat \<times> int \<Rightarrow> ('t, 'p) manager_options \<Rightarrow> goerr option"
  su_setup :: "'p part \<Rightarrow> goerr option"
  su_GetCRD :: "goerr option"

section \<open>Environment variables\<close>

definition getWatchNamespace :: "('t, 'p) startup_env \<Rightarrow> goerr + string" where
  "getWatchNamespace env =
     (case su_LookupEnv env ''WATCH_NAMESPACE'' of
        None \<Rightarrow> Inl (Msg ''WATCH_NAMESPACE must be set'')
      | Some ns \<Rightarrow> Inr ns)"

definition reportMetrics :: "('t, 'p) startup_env \<Rightarrow> bool" where
  "reportMetrics env =
     (let metrics = (case su_LookupEnv env ''DISABLE_REPORT_METRICS'' of None \<Rightarrow> [] | Some v \<Rightarrow> v)
      in \<not> EqualFold metrics ''true'')"

text \<open>QPS and burst of the client configuration.\<close>

definition client_limits :: "('t, 'p) startup_env \<Rightarrow> rat \<times> int" where
  "client_limits env =
     (let qps = (case su_LookupEnv env ''CONTROLLER_CONFIG_QPS'' of
                   None \<Rightarrow> 200
                 | Some v \<Rightarrow> (case su_ParseFloat env v of Inl _ \<Rightarrow> 200 | Inr q \<Rightarrow> q));
          burst = (case su_LookupEnv env ''CONTROLLER_CONFIG_BURST'' of
                     None \<Rightarrow> 400
                   | Some v \<Rightarrow> (case su_Atoi env v of Inl _ \<Rightarrow> 400 | Inr b \<Rightarrow> b))
      in (qps, burst))"

section \<open>TLS\<close>

text \<open>The profile, whether it was found, and whether the resource can be watched.\<close>

definition fetchAPIServerTLSProfileSpec :: "('t, 'p) startup_env \<Rightarrow> 'p \<times> bool \<times> bool" where
  "fetchAPIServerTLSProfileSpec env =
     (case su_FetchAPIServerTLSProfile env of
        Inr spec \<Rightarrow> (spec, True, True)
      | Inl err \<Rightarrow>
          if IsNotFound err then (su_zeroProfile env, False, False)
          else if su_IsNoMatchError env err then (su_zeroProfile env, False, False)
          else (su_zeroProfile env, False, True))"

definition readAPIServerTLSProfileSpec :: "('t, 'p) startup_env \<Rightarrow> 'p \<times> bool \<times> bool" where
  "readAPIServerTLSProfileSpec env =
     (case su_ClientNew env of
        Some _ \<Rightarrow> (su_zeroProfile env, False, False)
      | None \<Rightarrow> fetchAPIServerTLSProfileSpec env)"

definition resolveEffectiveTLSConfig ::
  "('t, 'p) startup_env \<Rightarrow> string \<Rightarrow> string \<Rightarrow> ('t, 'p) tls_opts \<times> bool \<times> 'p" where
  "resolveEffectiveTLSConfig env minVersion cipherSuites =
     (let flagCfg = (case su_ConfigFromFlags env minVersion cipherSuites of Inl _ \<Rightarrow> None | Inr c \<Rightarrow> c) in
      case flagCfg of
        Some c \<Rightarrow> (FromFlags c, False, su_zeroProfile env)
      | None \<Rightarrow>
          (case readAPIServerTLSProfileSpec env of
             (spec, found, watchable) \<Rightarrow>
               if \<not> found then (GoDefaults, watchable, su_zeroProfile env)
               else (FromProfile spec, watchable, spec)))"

section \<open>The cache\<close>

text \<open>The transform of policies; managed fields are not part of the model's metadata.\<close>

definition lastAppliedAnnotation :: string where
  "lastAppliedAnnotation = ''kubectl.kubernetes.io/last-applied-configuration''"

definition policy_transform :: "Policy \<Rightarrow> Policy" where
  "policy_transform policy =
     policy\<lparr>p_ObjectMeta := (p_ObjectMeta policy)\<lparr>om_Annotations :=
       map_option (fmdrop lastAppliedAnnotation) (om_Annotations (p_ObjectMeta policy))\<rparr>\<rparr>"

text \<open>
  \<^verbatim>\<open>options.Cache.DefaultNamespaces[ns] = cache.Config{}\<close> for every namespace of a list; the map has not been
  made, so the first assignment panics.
\<close>

definition default_namespaces :: "string \<Rightarrow> goerr + unit option" where
  "default_namespaces namespace =
     (if CHR '','' \<in> set namespace then foldE (\<lambda>ns (m :: unit option). case m of None \<Rightarrow> Inl nil_map | Some _ \<Rightarrow> Inr m) (Split namespace CHR '','') None
      else Inr None)"

definition indexFunc :: "PlacementBinding \<Rightarrow> string list" where
  "indexFunc pb = [ref_Name (pb_PlacementRef pb)]"

section \<open>The start\<close>

datatype startup_end = Exit1 | Panic | Running

text \<open>Set-ups in order, up to the first that fails.\<close>

fun setup_parts :: "('p part \<Rightarrow> goerr option) \<Rightarrow> 'p part list \<Rightarrow> startup_end \<times> 'p part list" where
  "setup_parts setup [] = (Running, [])"
| "setup_parts setup (p # ps) =
     (case setup p of
        Some _ \<Rightarrow> (if p = PlacementRefIndex then Panic else Exit1, [])
      | None \<Rightarrow> (case setup_parts setup ps of (r, qs) \<Rightarrow> (r, p # qs)))"

definition parts_before_crd ::
  "('t, 'p) startup_env \<Rightarrow> flags \<Rightarrow> bool \<Rightarrow> 'p \<Rightarrow> 'p part list" where
  "parts_before_crd env fl watchTLS profile =
     (if watchTLS then [TLSProfileWatcher profile] else []) @
     [DynamicWatcher, RootPolicySpec (fl_rootPolicyMaxConcurrency fl), DefaultResolver] @
     (if reportMetrics env then [PolicyMetrics (fl_policyMetricsMaxConcurrency fl)] else [])"

definition parts_after_crd :: "flags \<Rightarrow> bool \<Rightarrow> 'p part list" where
  "parts_after_crd fl disablePlacementRule =
     [PolicyAutomationCtrl, PolicySetCtrl (\<not> disablePlacementRule),
      EncryptionKeysCtrl (fl_keyRotationDays fl) (fl_keyRotationMaxConcurrency fl),
      RootPolicyStatusCtrl (fl_policyStatusMaxConcurrency fl) (\<not> disablePlacementRule)] @
     (if fl_enableWebhooks fl then [PolicyWebhook, PolicySetWebhook] else []) @
     [HealthzCheck, ReadyzCheck, PlacementRefIndex,
      ReplicatedPolicyCtrl (fl_replPolicyMaxConcurrency fl) (fl_templateFunctionDenyList fl) (\<not> disablePlacementRule)]"

text \<open>The definition of PlacementRules is looked up only when the flag was not given.\<close>

definition check_crd :: "('t, 'p) startup_env \<Rightarrow> flags \<Rightarrow> goerr + bool" where
  "check_crd env fl =
     (if fl_disablePlacementRule_Changed fl then Inr (fl_disablePlacementRule fl)
      else
        (case su_GetCRD env of
           None \<Rightarrow> Inr (fl_disablePlacementRule fl)
         | Some err \<Rightarrow> if \<not> IsNotFound err then Inl err else Inr True))"

definition manager_opts :: "flags \<Rightarrow> ('t, 'p) tls_opts \<Rightarrow> ('t, 'p) manager_options" where
  "manager_opts fl tlsOptsFunc =
     \<lparr>mo_MetricsBindAddress = fl_metricsAddr fl,
      mo_MetricsSecure = (if fl_secureMetrics fl then Some tlsOptsFunc else None),
      mo_HealthProbeBindAddress = fl_probeAddr fl,
      mo_LeaderElection = fl_enableLeaderElection fl,
      mo_WebhookServer = (if fl_enableWebhooks fl then Some tlsOptsFunc else None)\<rparr>"

definition main :: "('t, 'p) startup_env \<Rightarrow> flags \<Rightarrow> startup_end \<times> 'p part list" where
  "main env fl =
     (if fl_keyRotationDays fl < 1 then (Exit1, [])
      else if fl_keyRotationMaxConcurrency fl < 1 then (Exit1, [])
      else
        (case getWatchNamespace env of
           Inl _ \<Rightarrow> (Exit1, [])
         | Inr namespace \<Rightarrow>
             (case resolveEffectiveTLSConfig env (fl_tlsMinVersion fl) (fl_tlsCipherSuites fl) of
                (tlsOptsFunc, watchAPIServer, initialTLSProfileSpec) \<Rightarrow>
                  let tlsOverrideActive = (fl_tlsMinVersion fl \<noteq> [] \<or> fl_tlsCipherSuites fl \<noteq> []) in
                  (case default_namespaces namespace of
                     Inl _ \<Rightarrow> (Panic, [])
                   | Inr _ \<Rightarrow>
                       (case su_NewManager env (client_limits env) (manager_opts fl tlsOptsFunc) of
                          Some _ \<Rightarrow> (Exit1, [])
                        | None \<Rightarrow>
                            (case setup_parts (su_setup env)
                                    (parts_before_crd env fl (watchAPIServer \<and> \<not> tlsOverrideActive) initialTLSProfileSpec) of
                               (Running, ps) \<Rightarrow>
                                 (case check_crd env fl of
                                    Inl _ \<Rightarrow> (Exit1, ps)
                                  | Inr disablePlacementRule \<Rightarrow>
                                      (case setup_parts (su_setup env) (parts_after_crd fl disablePlacementRule) of
                                         (r, qs) \<Rightarrow> (r, ps @ qs)))
                             | (r, ps) \<Rightarrow> (r, ps)))))))"

section \<open>The order of the set-ups\<close>

lemma setup_parts_ok: "\<forall>p \<in> set ps. setup p = None \<Longrightarrow> setup_parts setup ps = (Running, ps)"
  by (induction ps) simp_all

lemma setup_parts_RunningD: "setup_parts setup ps = (Running, qs) \<Longrightarrow> qs = ps \<and> (\<forall>p \<in> set ps. setup p = None)"
  by (induction ps arbitrary: qs) (auto split: option.splits prod.splits if_splits)

lemma default_namespaces_iff: "(\<exists>m. default_namespaces ns = Inr m) \<longleftrightarrow> CHR '','' \<notin> set ns"
proof -
  have "foldE (\<lambda>ns (m :: unit option). case m of None \<Rightarrow> Inl nil_map | Some _ \<Rightarrow> Inr m) xs None = Inl nil_map" if "xs \<noteq> []" for xs :: "string list"
    using that by (cases xs) simp_all
  from this [OF Split_not_Nil, of ns "CHR '',''"] show ?thesis by (simp add: default_namespaces_def)
qed

definition watch_tls :: "('t, 'p) startup_env \<Rightarrow> flags \<Rightarrow> bool" where
  "watch_tls env fl \<longleftrightarrow>
     fst (snd (resolveEffectiveTLSConfig env (fl_tlsMinVersion fl) (fl_tlsCipherSuites fl))) \<and>
     fl_tlsMinVersion fl = [] \<and> fl_tlsCipherSuites fl = []"

abbreviation all_parts :: "('t, 'p) startup_env \<Rightarrow> flags \<Rightarrow> bool \<Rightarrow> 'p part list" where
  "all_parts env fl disable \<equiv>
     parts_before_crd env fl (watch_tls env fl)
       (snd (snd (resolveEffectiveTLSConfig env (fl_tlsMinVersion fl) (fl_tlsCipherSuites fl)))) @
     parts_after_crd fl disable"

text \<open>The conditions of a start, one by one.\<close>

lemma main_RunningI:
  assumes "0 < fl_keyRotationDays fl" and "0 < fl_keyRotationMaxConcurrency fl"
    and "su_LookupEnv env ''WATCH_NAMESPACE'' = Some ns" and "CHR '','' \<notin> set ns"
    and "su_NewManager env (client_limits env)
       (manager_opts fl (fst (resolveEffectiveTLSConfig env (fl_tlsMinVersion fl) (fl_tlsCipherSuites fl)))) = None"
    and "check_crd env fl = Inr disable" and "\<forall>p \<in> set (all_parts env fl disable). su_setup env p = None"
  shows "main env fl = (Running, all_parts env fl disable)"
proof -
  obtain tls watch profile where r: "resolveEffectiveTLSConfig env (fl_tlsMinVersion fl) (fl_tlsCipherSuites fl) = (tls, watch, profile)"
    using prod_cases3 by blast
  obtain m where "default_namespaces ns = Inr m" using assms(4) by (auto simp: default_namespaces_iff [symmetric])
  with assms show ?thesis by (auto simp: main_def r Let_def getWatchNamespace_def watch_tls_def setup_parts_ok)
qed

lemma main_Running:
  assumes "main env fl = (Running, ps)"
  shows "0 < fl_keyRotationDays fl" and "0 < fl_keyRotationMaxConcurrency fl"
    and "\<exists>ns. su_LookupEnv env ''WATCH_NAMESPACE'' = Some ns \<and> CHR '','' \<notin> set ns"
    and "su_NewManager env (client_limits env)
       (manager_opts fl (fst (resolveEffectiveTLSConfig env (fl_tlsMinVersion fl) (fl_tlsCipherSuites fl)))) = None"
    and "\<exists>disable. check_crd env fl = Inr disable \<and> ps = all_parts env fl disable \<and> (\<forall>p \<in> set ps. su_setup env p = None)"
proof -
  obtain tls watch profile where r: "resolveEffectiveTLSConfig env (fl_tlsMinVersion fl) (fl_tlsCipherSuites fl) = (tls, watch, profile)"
    using prod_cases3 by blast
  have "0 < fl_keyRotationDays fl \<and> 0 < fl_keyRotationMaxConcurrency fl \<and>
    (\<exists>ns. su_LookupEnv env ''WATCH_NAMESPACE'' = Some ns \<and> CHR '','' \<notin> set ns) \<and>
    su_NewManager env (client_limits env) (manager_opts fl tls) = None \<and>
    (\<exists>disable. check_crd env fl = Inr disable \<and> ps = all_parts env fl disable \<and> (\<forall>p \<in> set ps. su_setup env p = None))"
    using assms
    by (auto simp: main_def r Let_def getWatchNamespace_def watch_tls_def default_namespaces_iff [symmetric] word_gt_0
        split: if_splits option.splits sum.splits prod.splits startup_end.splits dest!: setup_parts_RunningD)
  then show "0 < fl_keyRotationDays fl" and "0 < fl_keyRotationMaxConcurrency fl"
    and "\<exists>ns. su_LookupEnv env ''WATCH_NAMESPACE'' = Some ns \<and> CHR '','' \<notin> set ns"
    and "su_NewManager env (client_limits env)
       (manager_opts fl (fst (resolveEffectiveTLSConfig env (fl_tlsMinVersion fl) (fl_tlsCipherSuites fl)))) = None"
    and "\<exists>disable. check_crd env fl = Inr disable \<and> ps = all_parts env fl disable \<and> (\<forall>p \<in> set ps. su_setup env p = None)"
    by (simp_all add: r)
qed

section \<open>Properties\<close>


definition ex_startup :: "string \<Rightarrow> (string, string) startup_env" where
  "ex_startup ns =
     \<lparr>su_LookupEnv = (\<lambda>v. if v = ''WATCH_NAMESPACE'' then Some ns else None),
      su_ParseFloat = (\<lambda>_. Inr 1), su_Atoi = (\<lambda>_. Inr 1),
      su_ConfigFromFlags = (\<lambda>v c. if v = ''bad'' then Inl (Msg ''bad'') else if v = [] \<and> c = [] then Inr None else Inr (Some v)),
      su_ClientNew = None, su_FetchAPIServerTLSProfile = Inr ''modern'', su_IsNoMatchError = (\<lambda>_. False), su_zeroProfile = [],
      su_NewManager = (\<lambda>_ _. None), su_setup = (\<lambda>_. None), su_GetCRD = Some (ApiStatus NotFound)\<rparr>"


text \<open>The servers take their TLS options from valid flags, else from the profile of the API server, else
  from Go. A change of the profile is watched only when no flag was given; with flags that are not valid
  the profile is used all the same, but nothing watches it.\<close>

theorem tls_profile_watched:
  assumes "main env fl = (Running, ps)"
    and "su_ConfigFromFlags env (fl_tlsMinVersion fl) (fl_tlsCipherSuites fl) \<in> range Inl \<union> {Inr None}"
    and "su_ClientNew env = None" and "su_FetchAPIServerTLSProfile env = Inr profile"
  shows "fst (resolveEffectiveTLSConfig env (fl_tlsMinVersion fl) (fl_tlsCipherSuites fl)) = FromProfile profile \<and>
    (TLSProfileWatcher p \<in> set ps \<longleftrightarrow> p = profile \<and> fl_tlsMinVersion fl = [] \<and> fl_tlsCipherSuites fl = [])"
proof -
  have r: "resolveEffectiveTLSConfig env (fl_tlsMinVersion fl) (fl_tlsCipherSuites fl) = (FromProfile profile, True, profile)"
    using assms(2-4)
    by (auto simp: resolveEffectiveTLSConfig_def readAPIServerTLSProfileSpec_def fetchAPIServerTLSProfileSpec_def)
  from assms(1) obtain disable where ps: "ps = all_parts env fl disable" using main_Running by blast
  have "TLSProfileWatcher p \<in> set ps \<longleftrightarrow> watch_tls env fl \<and> p = profile"
    unfolding ps by (auto simp: parts_before_crd_def parts_after_crd_def r)
  with r show ?thesis by (auto simp: watch_tls_def)
qed

theorem tls_profile_watched_witness:
  "\<exists>ps. main (ex_startup []) (default_flags\<lparr>fl_tlsMinVersion := ''bad''\<rparr>) = (Running, ps) \<and> TLSProfileWatcher ''modern'' \<notin> set ps \<and>
     fst (resolveEffectiveTLSConfig (ex_startup []) ''bad'' []) = FromProfile ''modern''"
proof -
  let ?fl = "default_flags\<lparr>fl_tlsMinVersion := ''bad''\<rparr>" and ?env = "ex_startup []"
  have "check_crd ?env ?fl = Inr True" by (simp add: check_crd_def ex_startup_def default_flags_def)
  then have m: "main ?env ?fl = (Running, all_parts ?env ?fl True)"
    by (intro main_RunningI [where ns = "[]"]) (simp_all add: ex_startup_def default_flags_def)
  have "su_ConfigFromFlags ?env (fl_tlsMinVersion ?fl) (fl_tlsCipherSuites ?fl) \<in> range Inl \<union> {Inr None}" "su_ClientNew ?env = None"
    "su_FetchAPIServerTLSProfile ?env = Inr ''modern''" by (simp_all add: ex_startup_def)
  from tls_profile_watched [OF m this, of "''modern''"] m show ?thesis by (simp add: default_flags_def)
qed

text \<open>C34. The transform of the policy cache does not change what is replicated: building the replica of a
  root policy read through the cache gives the replica of the policy itself, read through the cache, and
  replicas that are equivalent stay so.\<close>

theorem cache_transform_commutes:
  "fst (buildReplicatedPolicy c (policy_transform plc) dec) =
     map_sum id policy_transform (fst (buildReplicatedPolicy c plc dec)) \<and>
   (equivalentReplicatedPolicies p q \<longrightarrow> equivalentReplicatedPolicies (policy_transform p) (policy_transform q))"
proof -
  have proj: "p_Spec (policy_transform r) = p_Spec r" "p_Labels (policy_transform r) = p_Labels r"
    "p_TypeMeta (policy_transform r) = p_TypeMeta r" "p_Namespace (policy_transform r) = p_Namespace r"
    "p_Name (policy_transform r) = p_Name r" "raw_map (p_Annotations (policy_transform r)) = fmdrop lastAppliedAnnotation (raw_map (p_Annotations r))" for r
    by (simp_all add: policy_transform_def raw_map_def split: option.splits)
  have keep: "keep_metadata r (map_option (fmdrop lastAppliedAnnotation) m) = fmdrop lastAppliedAnnotation (keep_metadata r m)" for r m
    by (rule fmap_ext) (simp add: fmlookup_keep_metadata raw_map_def split: option.splits)
  have keepl: "keep_metadata (policy_transform r) m = keep_metadata r m" for r m by (simp add: keep_metadata_def proj)
  have drop: "fmdrop lastAppliedAnnotation (fmupd ManagedClusterUIDAnnotation u (fmupd argoCDCompareOptionsAnnotation v m)) =
      fmupd ManagedClusterUIDAnnotation u (fmupd argoCDCompareOptionsAnnotation v (fmdrop lastAppliedAnnotation m))" for u v m
    by (rule fmap_ext) (simp add: lastAppliedAnnotation_def ManagedClusterUIDAnnotation_def argoCDCompareOptionsAnnotation_def SchemeGroup_def)
  have "fst (buildReplicatedPolicy c (policy_transform plc) dec) = map_sum id policy_transform (fst (buildReplicatedPolicy c plc dec))"
    by (simp add: buildReplicatedPolicy_def FullNameForPolicy_def keepl proj Let_def split: sum.split) (simp add: policy_transform_def drop keep)
  moreover have "equivalentReplicatedPolicies (policy_transform p) (policy_transform q)" if "equivalentReplicatedPolicies p q"
    using that by (auto simp: equivalentReplicatedPolicies_def map_sem_eq_def proj split: if_splits)
  ultimately show ?thesis by blast
qed

theorem cache_transform_commutes_witness:
  "\<exists>p. equivalentReplicatedPolicies (policy_transform ex_replica) (policy_transform p) \<and> p \<noteq> ex_replica \<and>
     fst (buildReplicatedPolicy ex_reader (policy_transform ex_root) (clusterDecision_zero\<lparr>dec_Cluster := ''c1''\<rparr>)) =
       map_sum id policy_transform (fst (buildReplicatedPolicy ex_reader ex_root (clusterDecision_zero\<lparr>dec_Cluster := ''c1''\<rparr>)))"
proof -
  let ?p = "ex_replica\<lparr>p_Status := PolicyStatus_zero\<rparr>"
  have "equivalentReplicatedPolicies ex_replica ?p" by (simp add: equivalentReplicatedPolicies_def)
  moreover have "?p \<noteq> ex_replica" by (simp add: ex_objects NonCompliant_def)
  ultimately show ?thesis
    using cache_transform_commutes [of ex_reader ex_root "clusterDecision_zero\<lparr>dec_Cluster := ''c1''\<rparr>" ex_replica ?p] by blast
qed

end
