(* ===== verification/Work_Queue.thy ===== *)
theory Work_Queue
  imports Event_Handlers Manager_Startup
begin

text \<open>
  What the watches of a controller owe to its reconciler. A reconciler reads the cache when it
  handles a request; it is up to date when every item it is responsible for is in the work queue or
  was last handled with the value the cache gives now. \<open>watch_coverage\<close> is the contract of a
  controller's event handlers, \<open>queue_step\<close> the work queue over time, and the invariant is proved
  once; the controllers interpret the locale. The theory also has the laws of the informer cache that
  the handlers rely on.
\<close>

section \<open>The cache and its changes\<close>

text \<open>
  What the code relies on of the informer cache: a list returns exactly the objects that match its
  options, in the namespace, by the label or by the index field, and a Get returns the object of
  that name. A change of the cache is an event and the objects before and after it.
\<close>

inductive cache_change :: "'o list \<Rightarrow> 'o event \<Rightarrow> 'o list \<Rightarrow> bool" where
  created: "cache_change (xs @ ys) (CreateEvent x) (xs @ x # ys)"
| updated: "cache_change (xs @ x # ys) (UpdateEvent x x') (xs @ x' # ys)"
| deleted: "cache_change (xs @ x # ys) (DeleteEvent x) (xs @ ys)"

definition placement_of :: "PlacementDecisionObj \<Rightarrow> string option" where
  "placement_of d = fmlookup (raw_map (pd_Labels d)) PlacementLabel"

definition serves_decisions :: "client_reader \<Rightarrow> PlacementDecisionObj list \<Rightarrow> bool" where
  "serves_decisions c ds \<longleftrightarrow>
     (\<forall>ns n. List_PlacementDecisions c [InNamespace ns, MatchingLabels PlacementLabel n] =
        Inr (filter (\<lambda>d. pd_Namespace d = ns \<and> placement_of d = Some n) ds))"

definition serves_bindings :: "client_reader \<Rightarrow> PlacementBinding list \<Rightarrow> bool" where
  "serves_bindings c pbs \<longleftrightarrow>
     (\<forall>ns. List_PlacementBindings c [InNamespace ns] = Inr (filter (\<lambda>pb. pb_Namespace pb = ns) pbs)) \<and>
     (\<forall>ns n. List_PlacementBindings c [InNamespace ns, MatchingFields ''placementRef.name'' n] =
        Inr (filter (\<lambda>pb. pb_Namespace pb = ns \<and> n \<in> set (indexFunc pb)) pbs))"

definition serves_rules :: "client_reader \<Rightarrow> PlacementRuleObj list \<Rightarrow> bool" where
  "serves_rules c rs \<longleftrightarrow> distinct (map (\<lambda>r. nn (plr_Namespace r) (plr_Name r)) rs) \<and>
     (\<forall>k. Get_PlacementRule c k =
        (case find (\<lambda>r. nn (plr_Namespace r) (plr_Name r) = k) rs of
           None \<Rightarrow> Inl (ApiStatus NotFound) | Some r \<Rightarrow> Inr r))"

definition placements_named :: "client_reader \<Rightarrow> bool" where
  "placements_named c \<longleftrightarrow> (\<forall>k pl. Get_Placement c k = Inr pl \<longrightarrow> plo_Name pl = nn_Name k)"

text \<open>The objects of an event of which a property holds before or after it, but not both.\<close>

definition changed :: "('o \<Rightarrow> bool) \<Rightarrow> 'o event \<Rightarrow> bool" where
  "changed P evt =
     (case evt of
        CreateEvent x \<Rightarrow> P x | UpdateEvent x x' \<Rightarrow> P x \<noteq> P x' | DeleteEvent x \<Rightarrow> P x | GenericEvent x \<Rightarrow> False)"

lemma cache_change_changed:
  assumes "cache_change os evt os'" and "list_ex P (filter Q os') \<noteq> list_ex P (filter Q os)"
  shows "changed (\<lambda>x. Q x \<and> P x) evt"
  using assms by (cases rule: cache_change.cases) (auto simp: changed_def list_ex_iff split: if_splits)

lemma find_unique_filter:
  assumes "distinct (map key xs)"
  shows "(case find (\<lambda>x. key x = k) xs of None \<Rightarrow> False | Some x \<Rightarrow> P x) = list_ex P (filter (\<lambda>x. key x = k) xs)"
  using assms
proof (induction xs)
  case Nil
  then show ?case by simp
next
  case (Cons x xs)
  show ?case
  proof (cases "key x = k")
    case True
    with Cons.prems have "filter (\<lambda>x. key x = k) xs = []" by (auto simp: filter_empty_conv image_iff)
    with True show ?thesis by simp
  next
    case False
    with Cons show ?thesis by simp
  qed
qed

section \<open>The root policies of a placement\<close>

lemma GetRootPolicyRequests_serves:
  assumes "serves_bindings c pbs" and "pb \<in> set pbs" and "HasValidPlacementRef pb"
    and "s \<in> set (pb_Subjects pb)" and "subject_names_policy c (pb_Namespace pb) s p"
    and "ref_Kind (pb_PlacementRef pb) = k"
  obtains rs where "GetRootPolicyRequests c (pb_Namespace pb) (ref_Name (pb_PlacementRef pb)) k = Inr rs"
    and "nn (pb_Namespace pb) p \<in> set rs"
proof
  let ?n = "ref_Name (pb_PlacementRef pb)"
  let ?sel = "\<lambda>b. ref_APIGroup (pb_PlacementRef b) = kindGroupMap k \<and> ref_Kind (pb_PlacementRef b) = k \<and>
    ref_Name (pb_PlacementRef b) = ?n"
  let ?bs = "filter (\<lambda>b. pb_Namespace b = pb_Namespace pb \<and> ?n \<in> set (indexFunc b)) pbs"
  show "GetRootPolicyRequests c (pb_Namespace pb) ?n k =
      Inr (concat (map (GetPoliciesInPlacementBinding c) (filter ?sel ?bs)))"
    using assms(1) by (simp add: GetRootPolicyRequests_def serves_bindings_def)
  have "pb \<in> set (filter ?sel ?bs)"
    using assms(2,3,6)
    by (auto simp: indexFunc_def HasValidPlacementRef_def kindGroupMap_def Let_def split: if_splits)
  moreover have "nn (pb_Namespace pb) p \<in> set (GetPoliciesInPlacementBinding c pb)"
    using assms(4,5) by (auto simp: set_GetPoliciesInPlacementBinding)
  ultimately show "nn (pb_Namespace pb) p \<in>
      set (concat (map (GetPoliciesInPlacementBinding c) (filter ?sel ?bs)))" by (simp del: filter_filter) blast
qed

section \<open>The work queue\<close>

text \<open>
  The cache, the requests in the queue, and for every item the value it was last handled with. An
  event changes the cache and adds the handler's requests; a reconcile takes a request and the values
  of the moment. A reconcile that fails returns its error and the request stays in the queue.
\<close>

record ('i, 'v) queue_state =
  hub :: client_reader
  pending :: "Request set"
  acted :: "'i \<Rightarrow> 'v"

inductive queue_step ::
  "(client_reader \<Rightarrow> 'e \<Rightarrow> client_reader \<Rightarrow> bool) \<Rightarrow> (client_reader \<Rightarrow> 'e \<Rightarrow> Request list) \<Rightarrow> ('i \<Rightarrow> Request) \<Rightarrow>
   (client_reader \<Rightarrow> 'i \<Rightarrow> goerr + 'v) \<Rightarrow> ('i, goerr + 'v) queue_state \<Rightarrow> ('i, goerr + 'v) queue_state \<Rightarrow> bool"
  for change handle key value_of where
  event: "change (hub s) evt c' \<Longrightarrow>
    queue_step change handle key value_of s (s\<lparr>hub := c', pending := pending s \<union> set (handle c' evt)\<rparr>)"
| reconcile: "r \<in> pending s \<Longrightarrow> \<forall>i. key i = r \<longrightarrow> (\<exists>v. value_of (hub s) i = Inr v) \<Longrightarrow>
    queue_step change handle key value_of s
      (s\<lparr>pending := pending s - {r}, acted := \<lambda>i. if key i = r then value_of (hub s) i else acted s i\<rparr>)"

inductive queue_run ::
  "(client_reader \<Rightarrow> 'e \<Rightarrow> client_reader \<Rightarrow> bool) \<Rightarrow> (client_reader \<Rightarrow> 'e \<Rightarrow> Request list) \<Rightarrow> ('i \<Rightarrow> Request) \<Rightarrow>
   (client_reader \<Rightarrow> 'i \<Rightarrow> goerr + 'v) \<Rightarrow> ('i, goerr + 'v) queue_state \<Rightarrow> ('i, goerr + 'v) queue_state \<Rightarrow> bool"
  for change handle key value_of where
  start: "queue_run change handle key value_of s s"
| step: "queue_run change handle key value_of s s' \<Longrightarrow> queue_step change handle key value_of s' s'' \<Longrightarrow>
    queue_run change handle key value_of s s''"

definition up_to_date ::
  "('i \<Rightarrow> Request) \<Rightarrow> (client_reader \<Rightarrow> 'i \<Rightarrow> 'v) \<Rightarrow> (client_reader \<Rightarrow> 'i \<Rightarrow> bool) \<Rightarrow> ('i, 'v) queue_state \<Rightarrow> bool" where
  "up_to_date key value_of scope s \<longleftrightarrow>
     (\<forall>i. scope (hub s) i \<longrightarrow> key i \<in> pending s \<or> acted s i = value_of (hub s) i)"

text \<open>
  The contract: the value of an item that an event's handler does not request is the same before and
  after the event.
\<close>

locale watch_coverage =
  fixes change :: "client_reader \<Rightarrow> 'e \<Rightarrow> client_reader \<Rightarrow> bool"
    and handle :: "client_reader \<Rightarrow> 'e \<Rightarrow> Request list"
    and key :: "'i \<Rightarrow> Request"
    and value_of :: "client_reader \<Rightarrow> 'i \<Rightarrow> goerr + 'v"
    and scope :: "client_reader \<Rightarrow> 'i \<Rightarrow> bool"
  assumes unrequested_value:
      "change c evt c' \<Longrightarrow> scope c' i \<Longrightarrow> key i \<notin> set (handle c' evt) \<Longrightarrow> value_of c' i = value_of c i"
    and scope_kept: "change c evt c' \<Longrightarrow> scope c' i = scope c i"
begin

lemma queue_step_up_to_date:
  "queue_step change handle key value_of s s' \<Longrightarrow> up_to_date key value_of scope s \<Longrightarrow> up_to_date key value_of scope s'"
proof (induction rule: queue_step.induct)
  case (event s evt c')
  then show ?case
    using scope_kept [OF event(1)] unrequested_value [OF event(1)] by (auto simp: up_to_date_def) metis+
next
  case (reconcile r s)
  then show ?case by (auto simp: up_to_date_def)
qed

lemma queue_run_up_to_date:
  "queue_run change handle key value_of s s' \<Longrightarrow> up_to_date key value_of scope s \<Longrightarrow> up_to_date key value_of scope s'"
  by (induction rule: queue_run.induct) (auto intro: queue_step_up_to_date)

lemma pending_or_current:
  assumes "queue_run change handle key value_of s s'" and "scope (hub s') i"
    and "\<And>i. scope (hub s) i \<Longrightarrow> key i \<in> pending s \<or> acted s i = value_of (hub s) i"
  shows "key i \<in> pending s' \<or> acted s' i = value_of (hub s') i"
  using queue_run_up_to_date [OF assms(1)] assms(2,3) by (auto simp: up_to_date_def)

end

end
