(* ===== verification/Event_Coverage.thy ===== *)
theory Event_Coverage
  imports Work_Queue
begin

text \<open>
  No missed event: the watches of the replicated policy controller
  (\<^verbatim>\<open>controllers/propagator/replicatedpolicy_setup.go\<close>, \<^verbatim>\<open>SetupWithManager\<close>) and the three event
  handlers they use, composed with the decision the reconciler takes (\<open>singleClusterDecision\<close>). The
  handlers request only the replicated policies that a change can affect; the theory shows for which
  changes that is enough. \<open>watch_handler\<close> is the contract of a handler: what it does not request has the
  same decision before and after. It is interpreted on the handlers of PlacementDecisions,
  PlacementRules and PlacementBindings, and gives the invariant of the work queue
  (\<open>no_stale_decision\<close>). An update of a binding is covered when the policy sets of its subjects
  have no exclusions; \<open>binding_update_missed\<close> shows that it is not in general.
\<close>

section \<open>The handlers and the watches\<close>

definition handlerForDecision :: "client_reader \<Rightarrow> PlacementDecisionObj event \<Rightarrow> Request list" where
  "handlerForDecision c evt =
     (case evt of
        CreateEvent object \<Rightarrow> handlerForDecision_Create c object
      | UpdateEvent objectOld objectNew \<Rightarrow> handlerForDecision_Update c objectOld objectNew
      | DeleteEvent object \<Rightarrow> handlerForDecision_Delete c object
      | GenericEvent object \<Rightarrow> decision_getMappedReplicatedPolicy c object)"

definition handlerForRule :: "client_reader \<Rightarrow> PlacementRuleObj event \<Rightarrow> Request list" where
  "handlerForRule c evt =
     (case evt of
        CreateEvent object \<Rightarrow> handlerForRule_Create c object
      | UpdateEvent objectOld objectNew \<Rightarrow> handlerForRule_Update c objectOld objectNew
      | DeleteEvent object \<Rightarrow> handlerForRule_Delete c object
      | GenericEvent object \<Rightarrow> rule_getMappedReplicatedPolicy c object)"

definition handlerForBinding :: "client_reader \<Rightarrow> PlacementBinding event \<Rightarrow> Request list" where
  "handlerForBinding c evt =
     (case evt of
        CreateEvent object \<Rightarrow> handlerForBinding_Create c object
      | UpdateEvent objectOld objectNew \<Rightarrow> handlerForBinding_Update c objectOld objectNew
      | DeleteEvent object \<Rightarrow> handlerForBinding_Delete c object
      | GenericEvent object \<Rightarrow> binding_getMappedReplicatedPolicy c object)"

text \<open>
  The \<^verbatim>\<open>Watches\<close> of the builder; that of the PlacementRules is added only when \<^verbatim>\<open>plrsEnabled\<close>.
\<close>

datatype hub_event =
    DecisionEvent "PlacementDecisionObj event"
  | BindingEvent "PlacementBinding event"
  | RuleEvent "PlacementRuleObj event"

definition replicatedPolicy_watches :: "bool \<Rightarrow> client_reader \<Rightarrow> hub_event \<Rightarrow> Request list" where
  "replicatedPolicy_watches plrsEnabled c evt =
     (case evt of
        DecisionEvent e \<Rightarrow> handlerForDecision c e
      | BindingEvent e \<Rightarrow> handlerForBinding c e
      | RuleEvent e \<Rightarrow> if plrsEnabled then handlerForRule c e else [])"

section \<open>What a decision depends on\<close>

text \<open>
  What the scans see of a binding: its subfilter, its overrides and whether it finds the cluster. A
  binding that does not find it is skipped.
\<close>

type_synonym binding_view = "SubFilter \<times> BindingOverrides \<times> (goerr + bool)"

definition view :: "client_reader \<Rightarrow> Policy \<Rightarrow> string \<Rightarrow> PlacementBinding \<Rightarrow> binding_view" where
  "view c rootPlc cl pb =
     (pb_SubFilter pb, pb_BindingOverrides pb, isSingleClusterInDecisions c pb (p_Name rootPlc) cl)"

definition views :: "client_reader \<Rightarrow> Policy \<Rightarrow> string \<Rightarrow> PlacementBinding list \<Rightarrow> binding_view list" where
  "views c rootPlc cl pbs = filter (\<lambda>(_, _, r). r \<noteq> Inr False) (map (view c rootPlc cl) pbs)"

definition hub_view :: "client_reader \<Rightarrow> Policy \<Rightarrow> string \<Rightarrow> goerr + binding_view list" where
  "hub_view c rootPlc cl =
     (case List_PlacementBindings c [InNamespace (p_Namespace rootPlc)] of
        Inl e \<Rightarrow> Inl e
      | Inr pbs \<Rightarrow> Inr (views c rootPlc cl pbs))"

fun scan_views :: "string \<Rightarrow> binding_view list \<Rightarrow> bool \<Rightarrow> goerr + clusterDecision option \<times> bool" where
  "scan_views cl [] found = Inr (None, found)"
| "scan_views cl ((sf, ov, r) # vs) found =
     (if sf = Restricted then scan_views cl vs found
      else case r of
             Inl e \<Rightarrow> Inl e
           | Inr False \<Rightarrow> scan_views cl vs found
           | Inr True \<Rightarrow>
               if EqualFold (bo_RemediationAction ov) Enforce
               then Inr (Some \<lparr>dec_Cluster = cl, dec_PolicyOverrides = ov\<rparr>, found)
               else scan_views cl vs True)"

fun scan_restricted_views :: "string \<Rightarrow> binding_view list \<Rightarrow> goerr + clusterDecision option" where
  "scan_restricted_views cl [] = Inr None"
| "scan_restricted_views cl ((sf, ov, r) # vs) =
     (if sf \<noteq> Restricted then scan_restricted_views cl vs
      else case r of
             Inl e \<Rightarrow> Inl e
           | Inr False \<Rightarrow> scan_restricted_views cl vs
           | Inr True \<Rightarrow>
               if EqualFold (bo_RemediationAction ov) Enforce
               then Inr (Some \<lparr>dec_Cluster = cl, dec_PolicyOverrides = ov\<rparr>)
               else scan_restricted_views cl vs)"

lemma views_simps [simp]:
  "views c rootPlc cl [] = []"
  "views c rootPlc cl (pb # pbs) =
     (if isSingleClusterInDecisions c pb (p_Name rootPlc) cl = Inr False then views c rootPlc cl pbs
      else view c rootPlc cl pb # views c rootPlc cl pbs)"
  "views c rootPlc cl (pbs @ pbs') = views c rootPlc cl pbs @ views c rootPlc cl pbs'"
  by (simp_all add: views_def view_def)

lemma scan_unrestricted_views:
  "scan_unrestricted c rootPlc cl pbs found = scan_views cl (views c rootPlc cl pbs) found"
  by (induction pbs arbitrary: found) (auto simp: view_def split: sum.splits bool.splits)

lemma scan_restricted_by_views:
  "scan_restricted c rootPlc cl pbs = scan_restricted_views cl (views c rootPlc cl pbs)"
  by (induction pbs) (auto simp: view_def split: sum.splits bool.splits)

lemma decision_of_hub_view:
  "hub_view c rootPlc cl = hub_view c' rootPlc' cl \<Longrightarrow>
     singleClusterDecision c rootPlc cl = singleClusterDecision c' rootPlc' cl"
  by (auto simp: hub_view_def singleClusterDecision_def scan_unrestricted_views
      scan_restricted_by_views split: sum.splits)

section \<open>Subjects\<close>

lemma subject_found_cong:
  "Get_PolicySet c' = Get_PolicySet c \<Longrightarrow> subject_found c' ns p cl ss = subject_found c ns p cl ss"
proof (induction ss)
  case Nil
  then show ?case by simp
next
  case (Cons s ss)
  then have "GetPolicySet c' ns (sub_Name s) = GetPolicySet c ns (sub_Name s)"
    by (simp add: GetPolicySet_def)
  with Cons show ?case by (simp split: sum.splits)
qed

lemma places_names:
  "subject_places c ns s p cl \<Longrightarrow> subject_names_policy c ns s p"
  by (auto simp: subject_places_def subject_names_policy_def IsPolicyInPolicySet_def split: if_splits)

section \<open>The contract of a watch\<close>

text \<open>
  A handler of the changes \<open>change\<close> covers them when the hub looks the same as before to every
  replicated policy in \<open>scope\<close> that it does not request.
\<close>

locale watch_handler =
  fixes change :: "client_reader \<Rightarrow> 'e \<Rightarrow> client_reader \<Rightarrow> bool"
    and handle :: "client_reader \<Rightarrow> 'e \<Rightarrow> Request list"
    and scope :: "client_reader \<Rightarrow> Policy \<Rightarrow> string \<Rightarrow> bool"
  assumes unrequested:
    "change c evt c' \<Longrightarrow> scope c' rootPlc cl \<Longrightarrow> nn cl (FullNameForPolicy rootPlc) \<notin> set (handle c' evt) \<Longrightarrow>
       hub_view c' rootPlc cl = hub_view c rootPlc cl"
begin

lemma changed_requested:
  "change c evt c' \<Longrightarrow> scope c' rootPlc cl \<Longrightarrow>
   singleClusterDecision c' rootPlc cl \<noteq> singleClusterDecision c rootPlc cl \<Longrightarrow>
     nn cl (FullNameForPolicy rootPlc) \<in> set (handle c' evt)"
  using unrequested decision_of_hub_view by blast

end

text \<open>A handler of placements: the bindings stay as they are.\<close>

locale placement_watch =
  fixes change :: "client_reader \<Rightarrow> 'e \<Rightarrow> client_reader \<Rightarrow> bool"
    and handle :: "client_reader \<Rightarrow> 'e \<Rightarrow> Request list"
  assumes same_bindings: "change c evt c' \<Longrightarrow> List_PlacementBindings c' = List_PlacementBindings c"
    and serving: "change c evt c' \<Longrightarrow> \<exists>pbs. serves_bindings c pbs"
    and covered: "change c evt c' \<Longrightarrow> serves_bindings c' pbs \<Longrightarrow> pb \<in> set pbs \<Longrightarrow>
      isSingleClusterInDecisions c' pb p cl \<noteq> isSingleClusterInDecisions c pb p cl \<Longrightarrow>
        rep_request (nn (pb_Namespace pb) p) cl \<in> set (handle c' evt)"
begin

lemma placement_unrequested:
  assumes "change c evt c'" and "nn cl (FullNameForPolicy rootPlc) \<notin> set (handle c' evt)"
  shows "hub_view c' rootPlc cl = hub_view c rootPlc cl"
proof -
  let ?ns = "p_Namespace rootPlc"
  from serving [OF assms(1)] obtain pbs where pbs: "serves_bindings c pbs" ..
  with same_bindings [OF assms(1)] have pbs': "serves_bindings c' pbs"
    by (simp add: serves_bindings_def)
  have "isSingleClusterInDecisions c' pb (p_Name rootPlc) cl = isSingleClusterInDecisions c pb (p_Name rootPlc) cl"
    if "pb \<in> set pbs" "pb_Namespace pb = ?ns" for pb
    using covered [OF assms(1) pbs' that(1), of "p_Name rootPlc" cl] that(2) assms(2)
    by (auto simp: rep_request_def FullNameForPolicy_def)
  then have "map (view c' rootPlc cl) (filter (\<lambda>pb. pb_Namespace pb = ?ns) pbs) =
      map (view c rootPlc cl) (filter (\<lambda>pb. pb_Namespace pb = ?ns) pbs)"
    by (simp add: view_def)
  then have "views c' rootPlc cl (filter (\<lambda>pb. pb_Namespace pb = ?ns) pbs) =
      views c rootPlc cl (filter (\<lambda>pb. pb_Namespace pb = ?ns) pbs)"
    by (simp only: views_def)
  with pbs pbs' show ?thesis by (simp add: hub_view_def serves_bindings_def)
qed

end

sublocale placement_watch \<subseteq> watch_handler change handle "\<lambda>_ _ _. True"
  by unfold_locales (rule placement_unrequested)

section \<open>Placement decisions\<close>

text \<open>
  The events of PlacementDecisions: the placement label is not empty, an update keeps it and the
  namespace, and the old decisions name no cluster twice.
\<close>

definition decision_event_ok :: "PlacementDecisionObj event \<Rightarrow> bool" where
  "decision_event_ok evt =
     (case evt of
        CreateEvent d \<Rightarrow> placement_of d \<noteq> Some []
      | UpdateEvent d d' \<Rightarrow> placement_of d \<noteq> Some [] \<and> placement_of d' = placement_of d \<and>
          pd_Namespace d' = pd_Namespace d \<and> distinct (pd_Decisions d)
      | DeleteEvent d \<Rightarrow> placement_of d \<noteq> Some []
      | GenericEvent d \<Rightarrow> True)"

definition decision_change :: "client_reader \<Rightarrow> PlacementDecisionObj event \<Rightarrow> client_reader \<Rightarrow> bool" where
  "decision_change c evt c' \<longleftrightarrow>
     (\<exists>ds ds'. cache_change ds evt ds' \<and> serves_decisions c ds \<and> serves_decisions c' ds') \<and>
     c' = c\<lparr>List_PlacementDecisions := List_PlacementDecisions c'\<rparr> \<and>
     (\<exists>pbs. serves_bindings c pbs) \<and> placements_named c \<and> decision_event_ok evt"

lemma map_index_placement: "placement_of d = Some n \<Longrightarrow> map_index (pd_Labels d) PlacementLabel = n"
  by (simp add: placement_of_def map_index_def)

lemma isSingle_decisions_differ:
  assumes "c' = c\<lparr>List_PlacementDecisions := ld\<rparr>" and "serves_decisions c ds" and "serves_decisions c' ds'"
    and "placements_named c"
    and "isSingleClusterInDecisions c' pb p cl \<noteq> isSingleClusterInDecisions c pb p cl"
  obtains n s where "n = [] \<or> n = ref_Name (pb_PlacementRef pb)" and "HasValidPlacementRef pb"
    and "ref_Kind (pb_PlacementRef pb) = Placement_kind"
    and "s \<in> set (pb_Subjects pb)" and "subject_places c' (pb_Namespace pb) s p cl"
    and "list_ex (\<lambda>d. list_ex (\<lambda>x. cd_ClusterName x = cl) (pd_Decisions d))
           (filter (\<lambda>d. pd_Namespace d = pb_Namespace pb \<and> placement_of d = Some n) ds') \<noteq>
         list_ex (\<lambda>d. list_ex (\<lambda>x. cd_ClusterName x = cl) (pd_Decisions d))
           (filter (\<lambda>d. pd_Namespace d = pb_Namespace pb \<and> placement_of d = Some n) ds)"
proof -
  let ?in = "\<lambda>n ds. list_ex (\<lambda>d. list_ex (\<lambda>x. cd_ClusterName x = cl) (pd_Decisions d))
           (filter (\<lambda>d. pd_Namespace d = pb_Namespace pb \<and> placement_of d = Some n) ds)"
  have same: "Get_PlacementRule c' = Get_PlacementRule c" "Get_Placement c' = Get_Placement c"
    "subject_found c' ns p cl ss = subject_found c ns p cl ss" for ns ss
    using subject_found_cong [of c' c] by (simp_all add: assms(1))
  note lists = assms(2,3) [unfolded serves_decisions_def, rule_format]
  let ?pl = "case Get_Placement c (nn (pb_Namespace pb) (ref_Name (pb_PlacementRef pb))) of
      Inl e \<Rightarrow> [] | Inr pl \<Rightarrow> plo_Name pl"
  have "HasValidPlacementRef pb \<and> ref_Kind (pb_PlacementRef pb) = Placement_kind \<and>
      subject_found c (pb_Namespace pb) p cl (pb_Subjects pb) = Inr True \<and> ?in ?pl ds' \<noteq> ?in ?pl ds"
    using assms(5)
    by (auto simp: isSingleClusterInDecisions_def same lists Let_def PlacementObj_zero_def
        split: sum.splits if_splits)
  moreover from this have "subject_found c' (pb_Namespace pb) p cl (pb_Subjects pb) = Inr True"
    by (simp add: same)
  from subject_found_spec [OF this] obtain s where
    "s \<in> set (pb_Subjects pb)" "subject_places c' (pb_Namespace pb) s p cl" by auto
  moreover have "?pl = [] \<or> ?pl = ref_Name (pb_PlacementRef pb)"
    using assms(4) by (simp add: placements_named_def split: sum.splits)
  ultimately show thesis using that by blast
qed

lemma decision_covered:
  assumes "decision_change c evt c'" and "serves_bindings c' pbs" and "pb \<in> set pbs"
    and "isSingleClusterInDecisions c' pb p cl \<noteq> isSingleClusterInDecisions c pb p cl"
  shows "rep_request (nn (pb_Namespace pb) p) cl \<in> set (handlerForDecision c' evt)"
proof -
  let ?n = "ref_Name (pb_PlacementRef pb)"
  let ?at = "\<lambda>d. pd_Namespace d = pb_Namespace pb \<and> placement_of d = Some ?n"
  let ?on = "\<lambda>d. list_ex (\<lambda>x. cd_ClusterName x = cl) (pd_Decisions d)"
  from assms(1) obtain ds ds' where ch: "cache_change ds evt ds'" "serves_decisions c ds" "serves_decisions c' ds'"
    and c': "c' = c\<lparr>List_PlacementDecisions := List_PlacementDecisions c'\<rparr>"
    and ok: "placements_named c" "decision_event_ok evt" by (auto simp: decision_change_def)
  from isSingle_decisions_differ [OF c' ch(2,3) ok(1) assms(4)] obtain n s where
    n: "n = [] \<or> n = ?n" and v: "HasValidPlacementRef pb" "ref_Kind (pb_PlacementRef pb) = Placement_kind"
    and s: "s \<in> set (pb_Subjects pb)" "subject_places c' (pb_Namespace pb) s p cl"
    and d: "list_ex ?on (filter (\<lambda>d. pd_Namespace d = pb_Namespace pb \<and> placement_of d = Some n) ds') \<noteq>
      list_ex ?on (filter (\<lambda>d. pd_Namespace d = pb_Namespace pb \<and> placement_of d = Some n) ds)" by blast
  note diff = cache_change_changed [OF ch(1) d]
  with ok(2) have "n \<noteq> []" by (auto simp: changed_def decision_event_ok_def split: event.splits)
  with n diff have diff: "changed (\<lambda>d. ?at d \<and> ?on d) evt" and "?n \<noteq> []" by auto
  obtain rs where rs: "GetRootPolicyRequests c' (pb_Namespace pb) ?n Placement_kind = Inr rs"
    "nn (pb_Namespace pb) p \<in> set rs"
    by (rule GetRootPolicyRequests_serves [OF assms(2,3) v(1) s(1) places_names [OF s(2)] v(2)])
  have roots: "nn (pb_Namespace pb) p \<in> set (decision_roots c' d)" if "?at d" for d
    using that rs \<open>?n \<noteq> []\<close> by (simp add: decision_roots_def mapDecisionToPolicies_def map_index_placement)
  have single: "rep_request (nn (pb_Namespace pb) p) cl \<in> set (decision_getMappedReplicatedPolicy c' d)"
    if "?at d" "?on d" for d
    using roots [OF that(1)] that(2) by (auto simp: dh.on_event_set list_ex_iff)
  show ?thesis
  proof (cases evt)
    case (UpdateEvent d d')
    with ok(2) have e: "distinct (pd_Decisions d)" "?at d' = ?at d" by (auto simp: decision_event_ok_def)
    with diff UpdateEvent have "?at d'" "?on d \<noteq> ?on d'" by (auto simp: changed_def)
    then obtain x where "cd_ClusterName x = cl" "(x \<in> set (pd_Decisions d')) \<noteq> (x \<in> set (pd_Decisions d))"
      by (auto simp: list_ex_iff)
    with roots [OF \<open>?at d'\<close>] UpdateEvent show ?thesis
      by (auto simp: handlerForDecision_def dh.on_update_set [OF e(1)])
  qed (use diff single in \<open>auto simp: changed_def handlerForDecision_def handlerForDecision_Create_def
        handlerForDecision_Delete_def\<close>)
qed

interpretation dw: placement_watch decision_change handlerForDecision
proof
  show "List_PlacementBindings c' = List_PlacementBindings c" if "decision_change c evt c'" for c evt c'
  proof -
    from that obtain ld where "c' = c\<lparr>List_PlacementDecisions := ld\<rparr>" by (auto simp: decision_change_def)
    then show ?thesis by simp
  qed
  show "\<exists>pbs. serves_bindings c pbs" if "decision_change c evt c'" for c evt c'
    using that by (simp add: decision_change_def)
qed (rule decision_covered)

section \<open>Placement rules\<close>

text \<open>
  The events of PlacementRules: an update keeps name and namespace, the old decisions name no
  cluster twice, and a cluster's namespace has its name.
\<close>

definition rule_event_ok :: "PlacementRuleObj event \<Rightarrow> bool" where
  "rule_event_ok evt =
     (let named = (\<lambda>r. list_all (\<lambda>d. rd_ClusterNamespace d = rd_ClusterName d) (plr_Decisions r)) in
      case evt of
        CreateEvent r \<Rightarrow> named r
      | UpdateEvent r r' \<Rightarrow> named r \<and> named r' \<and> plr_Name r' = plr_Name r \<and>
          plr_Namespace r' = plr_Namespace r \<and> distinct (plr_Decisions r)
      | DeleteEvent r \<Rightarrow> named r
      | GenericEvent r \<Rightarrow> True)"

definition rule_change :: "client_reader \<Rightarrow> PlacementRuleObj event \<Rightarrow> client_reader \<Rightarrow> bool" where
  "rule_change c evt c' \<longleftrightarrow>
     (\<exists>rs rs'. cache_change rs evt rs' \<and> serves_rules c rs \<and> serves_rules c' rs') \<and>
     c' = c\<lparr>Get_PlacementRule := Get_PlacementRule c'\<rparr> \<and>
     (\<exists>pbs. serves_bindings c pbs) \<and> rule_event_ok evt"

lemma isSingle_rule:
  assumes "serves_rules c rs" and "HasValidPlacementRef pb" and "ref_Kind (pb_PlacementRef pb) = PlacementRule_kind"
    and "subject_found c (pb_Namespace pb) p cl (pb_Subjects pb) = Inr True"
  shows "isSingleClusterInDecisions c pb p cl =
    Inr (list_ex (\<lambda>r. list_ex (\<lambda>d. rd_ClusterName d = cl) (plr_Decisions r))
      (filter (\<lambda>r. nn (plr_Namespace r) (plr_Name r) = nn (pb_Namespace pb) (ref_Name (pb_PlacementRef pb))) rs))"
proof -
  have "distinct (map (\<lambda>r. nn (plr_Namespace r) (plr_Name r)) rs)"
    using assms(1) by (simp add: serves_rules_def)
  note find = find_unique_filter [OF this, symmetric]
  have "Get_PlacementRule c k = (case find (\<lambda>r. nn (plr_Namespace r) (plr_Name r) = k) rs of
      None \<Rightarrow> Inl (ApiStatus NotFound) | Some r \<Rightarrow> Inr r)" for k
    using assms(1) by (simp add: serves_rules_def)
  with assms(2-) show ?thesis
    unfolding find
    by (simp add: isSingleClusterInDecisions_def Let_def PlacementRuleObj_zero_def split: option.splits)
qed

lemma rule_covered:
  assumes "rule_change c evt c'" and "serves_bindings c' pbs" and "pb \<in> set pbs"
    and "isSingleClusterInDecisions c' pb p cl \<noteq> isSingleClusterInDecisions c pb p cl"
  shows "rep_request (nn (pb_Namespace pb) p) cl \<in> set (handlerForRule c' evt)"
proof -
  let ?n = "ref_Name (pb_PlacementRef pb)"
  let ?at = "\<lambda>r. nn (plr_Namespace r) (plr_Name r) = nn (pb_Namespace pb) ?n"
  let ?on = "\<lambda>r. list_ex (\<lambda>d. rd_ClusterName d = cl) (plr_Decisions r)"
  from assms(1) obtain rules rules' g where
    ch: "cache_change rules evt rules'" "serves_rules c rules" "serves_rules c' rules'"
    and c': "c' = c\<lparr>Get_PlacementRule := g\<rparr>" and ok: "rule_event_ok evt" unfolding rule_change_def by blast
  have same: "Get_Placement c' = Get_Placement c" "List_PlacementDecisions c' = List_PlacementDecisions c"
    "subject_found c' ns p cl ss = subject_found c ns p cl ss" for ns ss
    using subject_found_cong [of c' c] by (simp_all add: c')
  have v: "HasValidPlacementRef pb" "ref_Kind (pb_PlacementRef pb) = PlacementRule_kind"
    "subject_found c' (pb_Namespace pb) p cl (pb_Subjects pb) = Inr True"
    using assms(4) by (auto simp: isSingleClusterInDecisions_def same Let_def split: sum.splits if_splits)
  from subject_found_spec [OF v(3)] obtain s where
    s: "s \<in> set (pb_Subjects pb)" "subject_places c' (pb_Namespace pb) s p cl" by auto
  from assms(4) have "list_ex ?on (filter ?at rules') \<noteq> list_ex ?on (filter ?at rules)"
    using isSingle_rule [OF ch(2) v(1,2)] isSingle_rule [OF ch(3) v] v(3) by (simp only: same) auto
  note diff = cache_change_changed [OF ch(1) this]
  obtain rs where rs: "GetRootPolicyRequests c' (pb_Namespace pb) ?n PlacementRule_kind = Inr rs"
    "nn (pb_Namespace pb) p \<in> set rs"
    by (rule GetRootPolicyRequests_serves [OF assms(2,3) v(1) s(1) places_names [OF s(2)] v(2)])
  have roots: "nn (pb_Namespace pb) p \<in> set (mapRuleToPolicies c' r)" if "?at r" for r
    using that rs by (simp add: mapRuleToPolicies_def)
  have single: "rep_request (nn (pb_Namespace pb) p) cl \<in> set (rule_getMappedReplicatedPolicy c' r)"
    if "?at r" "?on r" "list_all (\<lambda>d. rd_ClusterNamespace d = rd_ClusterName d) (plr_Decisions r)" for r
    using roots [OF that(1)] that(2,3) by (auto simp: rh.on_event_set list_ex_iff list_all_iff) metis
  show ?thesis
  proof (cases evt)
    case (UpdateEvent r r')
    with ok have e: "distinct (plr_Decisions r)" "?at r' = ?at r"
      "\<forall>d \<in> set (plr_Decisions r) \<union> set (plr_Decisions r'). rd_ClusterNamespace d = rd_ClusterName d"
      by (auto simp: rule_event_ok_def Let_def list_all_iff)
    with diff UpdateEvent have "?at r'" "?on r \<noteq> ?on r'" by (auto simp: changed_def)
    with e(3) obtain x where "rd_ClusterNamespace x = cl" "(x \<in> set (plr_Decisions r')) \<noteq> (x \<in> set (plr_Decisions r))"
      by (auto simp: list_ex_iff)
    with roots [OF \<open>?at r'\<close>] UpdateEvent show ?thesis
      by (auto simp: handlerForRule_def rh.on_update_set [OF e(1)])
  qed (use diff single ok in \<open>auto simp: changed_def handlerForRule_def handlerForRule_Create_def
        handlerForRule_Delete_def rule_event_ok_def Let_def\<close>)
qed

interpretation rw: placement_watch rule_change handlerForRule
proof
  show "List_PlacementBindings c' = List_PlacementBindings c" if "rule_change c evt c'" for c evt c'
  proof -
    from that obtain g where "c' = c\<lparr>Get_PlacementRule := g\<rparr>" by (auto simp: rule_change_def)
    then show ?thesis by simp
  qed
  show "\<exists>pbs. serves_bindings c pbs" if "rule_change c evt c'" for c evt c'
    using that by (simp add: rule_change_def)
qed (rule rule_covered)

section \<open>Placement bindings\<close>

text \<open>
  The cache answers every read that a decision needs, a missing object apart.
\<close>

definition answers :: "client_reader \<Rightarrow> bool" where
  "answers c \<longleftrightarrow>
     (\<forall>k e. Get_PolicySet c k = Inl e \<longrightarrow> IsNotFound e) \<and>
     (\<forall>k e. Get_Placement c k = Inl e \<longrightarrow> IsNotFound e) \<and>
     (\<forall>k e. Get_PlacementRule c k = Inl e \<longrightarrow> IsNotFound e) \<and>
     (\<forall>opts e. List_PlacementDecisions c opts = Inl e \<longrightarrow> IsNotFound e)"

text \<open>
  The events of PlacementBindings. An update keeps the namespace; its policy sets have no
  exclusions, and the placement of the new binding decides no cluster twice.
\<close>

definition exclusion_free :: "client_reader \<Rightarrow> PlacementBinding \<Rightarrow> bool" where
  "exclusion_free c pb \<longleftrightarrow>
     list_all (\<lambda>s. case Get_PolicySet c (nn (pb_Namespace pb) (sub_Name s)) of
                     Inl _ \<Rightarrow> True | Inr ps \<Rightarrow> pss_Exclusions (set_Spec ps) = []) (pb_Subjects pb)"

definition binding_event_ok :: "client_reader \<Rightarrow> PlacementBinding event \<Rightarrow> bool" where
  "binding_event_ok c evt =
     (case evt of
        UpdateEvent pb pb' \<Rightarrow> pb_Namespace pb' = pb_Namespace pb \<and> exclusion_free c pb \<and> exclusion_free c pb' \<and>
          (\<forall>ds. GetDecisions c pb' = Inr ds \<longrightarrow> distinct ds)
      | _ \<Rightarrow> True)"

definition binding_change :: "client_reader \<Rightarrow> PlacementBinding event \<Rightarrow> client_reader \<Rightarrow> bool" where
  "binding_change c evt c' \<longleftrightarrow>
     (\<exists>pbs pbs'. cache_change pbs evt pbs' \<and> serves_bindings c pbs \<and> serves_bindings c' pbs') \<and>
     c' = c\<lparr>List_PlacementBindings := List_PlacementBindings c'\<rparr> \<and>
     answers c \<and> no_unnamed_decisions c \<and> binding_event_ok c evt"

text \<open>The replicated policies a binding's deletion reaches: on the managed clusters, of named policies.\<close>

definition managed_scope :: "client_reader \<Rightarrow> Policy \<Rightarrow> string \<Rightarrow> bool" where
  "managed_scope c rootPlc cl \<longleftrightarrow> p_Name rootPlc \<noteq> [] \<and>
     (\<exists>mcs. List_ManagedClusters c = Inr mcs \<and> cl \<in> mc_Name ` set mcs)"

lemma subject_found_answers:
  "answers c \<Longrightarrow> \<exists>b. subject_found c ns p cl ss = Inr b"
proof (induction ss)
  case Nil
  then show ?case by auto
next
  case (Cons s ss)
  then show ?case
    by (cases rule: GetPolicySet_cases [of c ns "sub_Name s"]) (auto simp: answers_def)
qed

lemma isSingle_answers:
  assumes "answers c"
  obtains b ds where "isSingleClusterInDecisions c pb p cl = Inr b" and "GetDecisions c pb = Inr ds"
proof -
  from subject_found_answers [OF assms] obtain f where
    "subject_found c (pb_Namespace pb) p cl (pb_Subjects pb) = Inr f" by blast
  with assms have "\<exists>b. isSingleClusterInDecisions c pb p cl = Inr b"
    by (auto simp: isSingleClusterInDecisions_def answers_def Let_def split: sum.splits)
  moreover have "\<exists>ds. GetDecisions c pb = Inr ds"
    using assms by (auto simp: GetDecisions_def HasValidPlacementRef_def answers_def Let_def
        split: sum.splits if_splits)
  ultimately show thesis using that by blast
qed

lemma found_named:
  assumes "answers c" and "no_unnamed_decisions c" and "isSingleClusterInDecisions c pb p cl = Inr True"
  shows "IsForPolicyOrPolicySet (Some pb)" and "nn (pb_Namespace pb) p \<in> set (GetPoliciesInPlacementBinding c pb)"
    and "rep_request (nn (pb_Namespace pb) p) cl \<in> set (GetRepPoliciesInPlacementBinding c pb)"
proof -
  from isSingleClusterInDecisions_True [OF assms(3,2)] obtain s ds where
    s: "s \<in> set (pb_Subjects pb)" "subject_places c (pb_Namespace pb) s p cl"
    and ds: "GetDecisions c pb = Inr ds" "cl \<in> set ds" by blast
  show "IsForPolicyOrPolicySet (Some pb)"
    using s by (auto simp: IsForPolicyOrPolicySet_def list_ex_iff subject_places_def)
  show named: "nn (pb_Namespace pb) p \<in> set (GetPoliciesInPlacementBinding c pb)"
    using s(1) places_names [OF s(2)] by (auto simp: set_GetPoliciesInPlacementBinding)
  with ds show "rep_request (nn (pb_Namespace pb) p) cl \<in> set (GetRepPoliciesInPlacementBinding c pb)"
    by (auto simp: set_GetRepPolicies)
qed

lemma requested_found:
  assumes "answers c" and "no_unnamed_decisions c" and "exclusion_free c pb" and "p \<noteq> []"
    and "rep_request (nn (pb_Namespace pb) p) cl \<in> set (GetRepPoliciesInPlacementBinding c pb)"
  shows "isSingleClusterInDecisions c pb p cl = Inr True"
proof -
  obtain b ds where b: "isSingleClusterInDecisions c pb p cl = Inr b" and ds: "GetDecisions c pb = Inr ds"
    by (rule isSingle_answers [OF assms(1)])
  from assms(5) obtain s where s: "s \<in> set (pb_Subjects pb)"
    "subject_names_policy c (pb_Namespace pb) s p" and "cl \<in> set ds"
    by (auto simp: set_GetRepPolicies [OF ds] set_GetPoliciesInPlacementBinding rep_request_def)
  moreover from s assms(3,4) have "subject_places c (pb_Namespace pb) s p cl"
    by (auto simp: subject_names_policy_def subject_places_def exclusion_free_def list_all_iff
        IsPolicyInPolicySet_def ExcludedClustersForPolicy_def split: sum.splits)
  ultimately have b by (auto simp: isSingleClusterInDecisions_iff [OF b assms(2) ds])
  with b show ?thesis by simp
qed

lemma binding_update_covered:
  assumes "answers c" and "no_unnamed_decisions c" and "binding_event_ok c (UpdateEvent pb pb')"
    and "p_Name rootPlc \<noteq> []" and "pb_Namespace pb = p_Namespace rootPlc"
    and "nn cl (FullNameForPolicy rootPlc) \<notin> set (handlerForBinding_Update c pb pb')"
  shows "views c rootPlc cl [pb'] = views c rootPlc cl [pb]"
proof -
  let ?p = "p_Name rootPlc" and ?r = "rep_request (nn (p_Namespace rootPlc) (p_Name rootPlc)) cl"
  let ?reps = "GetRepPoliciesInPlacementBinding c"
  have r: "nn cl (FullNameForPolicy rootPlc) = ?r" by (simp add: rep_request_def FullNameForPolicy_def)
  obtain b ds where b: "isSingleClusterInDecisions c pb ?p cl = Inr b" by (rule isSingle_answers [OF assms(1)])
  obtain b' ds' where b': "isSingleClusterInDecisions c pb' ?p cl = Inr b'" "GetDecisions c pb' = Inr ds'"
    by (rule isSingle_answers [OF assms(1)])
  have ns: "pb_Namespace pb' = p_Namespace rootPlc" and free: "exclusion_free c pb" "exclusion_free c pb'"
    and dist: "distinct (?reps pb')"
    using assms(3,5) b'(2) distinct_GetRepPolicies by (auto simp: binding_event_ok_def)
  note found = found_named [OF assms(1,2)]
  have in_pb: "b \<Longrightarrow> IsForPolicyOrPolicySet (Some pb) \<and> ?r \<in> set (?reps pb)"
    using found [of pb ?p cl] b assms(5) by simp
  have in_pb': "b' \<Longrightarrow> IsForPolicyOrPolicySet (Some pb') \<and> ?r \<in> set (?reps pb')"
    using found [of pb' ?p cl] b' ns by simp
  have out_pb: "\<not> b \<Longrightarrow> ?r \<notin> set (?reps pb)"
    using requested_found [OF assms(1,2) free(1) assms(4), of cl] b assms(5) by auto
  have out_pb': "\<not> b' \<Longrightarrow> ?r \<notin> set (?reps pb')"
    using requested_found [OF assms(1,2) free(2) assms(4), of cl] b' ns by auto
  show ?thesis
  proof (cases "bo_RemediationAction (pb_BindingOverrides pb') \<noteq> bo_RemediationAction (pb_BindingOverrides pb) \<or>
      pb_SubFilter pb' \<noteq> pb_SubFilter pb")
    case True
    with assms(6) in_pb in_pb' have "\<not> b" "\<not> b'"
      unfolding r by (auto simp: handlerForBinding_Update_def Let_def split: if_splits)
    with b b'(1) show ?thesis by simp
  next
    case False
    then have "pb_BindingOverrides pb' = pb_BindingOverrides pb" "pb_SubFilter pb' = pb_SubFilter pb" by simp_all
    moreover have "b = b'"
    proof (rule ccontr)
      assume "b \<noteq> b'"
      with in_pb in_pb' out_pb out_pb' have "?r \<in> set (GetAffectedObjs (?reps pb) (?reps pb'))"
        "IsForPolicyOrPolicySet (Some pb) \<or> IsForPolicyOrPolicySet (Some pb')"
        by (auto simp: gao.affected_set [OF dist])
      with False assms(6) show False unfolding r by (auto simp: handlerForBinding_Update_def Let_def)
    qed
    ultimately show ?thesis using b b'(1) by (simp add: view_def)
  qed
qed

lemma binding_single_covered:
  assumes "answers c" and "no_unnamed_decisions c" and "managed_scope c rootPlc cl"
    and "pb_Namespace pb = p_Namespace rootPlc"
    and "nn cl (FullNameForPolicy rootPlc) \<notin> set (handlerForBinding_Create c pb) \<or>
         nn cl (FullNameForPolicy rootPlc) \<notin> set (handlerForBinding_Delete c pb)"
  shows "views c rootPlc cl [pb] = []"
proof -
  let ?p = "p_Name rootPlc"
  obtain b ds where b: "isSingleClusterInDecisions c pb ?p cl = Inr b" by (rule isSingle_answers [OF assms(1)])
  obtain mcs where mcs: "List_ManagedClusters c = Inr mcs" "cl \<in> mc_Name ` set mcs"
    using assms(3) by (auto simp: managed_scope_def)
  have "\<not> b"
  proof
    assume b
    with b have "isSingleClusterInDecisions c pb ?p cl = Inr True" by simp
    note found = found_named [OF assms(1,2) this]
    then have "rep_request (nn (p_Namespace rootPlc) ?p) cl \<in> set (handlerForBinding_Create c pb)"
      using assms(4) by (simp add: handlerForBinding_Create_def binding_getMappedReplicatedPolicy_def)
    moreover have "rep_request (nn (p_Namespace rootPlc) ?p) cl \<in> set (handlerForBinding_Delete c pb)"
      using found(1,2) mcs assms(4)
      by (auto simp: handlerForBinding_Delete_def set_getAllReplicatedPoliciesForBinding [OF mcs(1)])
    ultimately show False using assms(5) by (simp add: rep_request_def FullNameForPolicy_def)
  qed
  with b show ?thesis by simp
qed

lemma binding_list_cong:
  assumes "c' = c\<lparr>List_PlacementBindings := lb\<rparr>"
  shows "isSingleClusterInDecisions c' = isSingleClusterInDecisions c" and "answers c' = answers c"
    and "no_unnamed_decisions c' = no_unnamed_decisions c" and "binding_event_ok c' = binding_event_ok c"
proof -
  have reads: "Get_PolicySet c' = Get_PolicySet c" "Get_Placement c' = Get_Placement c"
    "Get_PlacementRule c' = Get_PlacementRule c" "List_PlacementDecisions c' = List_PlacementDecisions c"
    by (simp_all add: assms)
  have found: "subject_found c' = subject_found c"
    by (intro ext) (rule subject_found_cong [OF reads(1)])
  show "isSingleClusterInDecisions c' = isSingleClusterInDecisions c"
    by (intro ext) (simp only: isSingleClusterInDecisions_def reads found)
  have decisions: "GetDecisions c' = GetDecisions c" by (intro ext) (simp only: GetDecisions_def reads)
  show "binding_event_ok c' = binding_event_ok c"
    by (intro ext) (simp only: binding_event_ok_def exclusion_free_def reads decisions)
qed (simp_all add: assms answers_def no_unnamed_decisions_def)

lemma binding_unrequested:
  assumes "binding_change c evt c'" and "managed_scope c' rootPlc cl"
    and "nn cl (FullNameForPolicy rootPlc) \<notin> set (handlerForBinding c' evt)"
  shows "hub_view c' rootPlc cl = hub_view c rootPlc cl"
proof -
  from assms(1) obtain pbs pbs' where ch: "cache_change pbs evt pbs'" "serves_bindings c pbs" "serves_bindings c' pbs'"
    and c': "c' = c\<lparr>List_PlacementBindings := List_PlacementBindings c'\<rparr>"
    and ok: "answers c" "no_unnamed_decisions c" "binding_event_ok c evt" by (auto simp: binding_change_def)
  note same = binding_list_cong [OF c']
  note ok' = ok [folded same(2,3,4)]
  have "views c = views c'" by (intro ext) (simp add: views_def view_def [abs_def] same(1))
  moreover have "views c' rootPlc cl (filter (\<lambda>pb. pb_Namespace pb = p_Namespace rootPlc) pbs') =
      views c' rootPlc cl (filter (\<lambda>pb. pb_Namespace pb = p_Namespace rootPlc) pbs)"
    using ch(1)
  proof cases
    case (created xs ys x)
    with assms(3) binding_single_covered [OF ok'(1,2) assms(2), of x] show ?thesis
      by (auto simp: handlerForBinding_def split: if_splits)
  next
    case (deleted xs x ys)
    with assms(3) binding_single_covered [OF ok'(1,2) assms(2), of x] show ?thesis
      by (auto simp: handlerForBinding_def split: if_splits)
  next
    case (updated xs x ys x')
    with ok'(3) have "pb_Namespace x' = pb_Namespace x" by (simp add: binding_event_ok_def)
    moreover have "views c' rootPlc cl [x'] = views c' rootPlc cl [x]" if "pb_Namespace x = p_Namespace rootPlc"
      using assms(2,3) ok'(3) updated(2) that
      by (intro binding_update_covered [OF ok'(1,2)]) (simp_all add: managed_scope_def handlerForBinding_def)
    ultimately show ?thesis using updated by (auto split: if_splits)
  qed
  ultimately show ?thesis using ch(2,3) by (simp add: hub_view_def serves_bindings_def)
qed

interpretation bw: watch_handler binding_change handlerForBinding managed_scope
  by unfold_locales (rule binding_unrequested)

section \<open>All watches\<close>

definition hub_change :: "client_reader \<Rightarrow> hub_event \<Rightarrow> client_reader \<Rightarrow> bool" where
  "hub_change c evt c' =
     (case evt of
        DecisionEvent e \<Rightarrow> decision_change c e c'
      | BindingEvent e \<Rightarrow> binding_change c e c'
      | RuleEvent e \<Rightarrow> rule_change c e c')"

interpretation hw: watch_handler hub_change "replicatedPolicy_watches True" managed_scope
  by unfold_locales
     (auto simp: hub_change_def replicatedPolicy_watches_def split: hub_event.splits
       dest: dw.unrequested rw.unrequested bw.unrequested)

lemma hub_change_managed:
  assumes "hub_change c evt c'"
  shows "managed_scope c' = managed_scope c"
proof -
  have "List_ManagedClusters c' = List_ManagedClusters c"
  proof (cases evt)
    case (DecisionEvent e)
    with assms obtain ld where "c' = c\<lparr>List_PlacementDecisions := ld\<rparr>"
      by (auto simp: hub_change_def decision_change_def)
    then show ?thesis by simp
  next
    case (BindingEvent e)
    with assms obtain lb where "c' = c\<lparr>List_PlacementBindings := lb\<rparr>"
      by (auto simp: hub_change_def binding_change_def)
    then show ?thesis by simp
  next
    case (RuleEvent e)
    with assms obtain g where "c' = c\<lparr>Get_PlacementRule := g\<rparr>"
      by (auto simp: hub_change_def rule_change_def)
    then show ?thesis by simp
  qed
  then show ?thesis by (intro ext) (simp add: managed_scope_def)
qed

section \<open>The work queue\<close>

text \<open>The items are root policies with a cluster; the request is the replicated policy.\<close>

definition replica_request :: "Policy \<times> string \<Rightarrow> Request" where
  "replica_request = (\<lambda>(rootPlc, cl). nn cl (FullNameForPolicy rootPlc))"

definition replica_decision :: "client_reader \<Rightarrow> Policy \<times> string \<Rightarrow> goerr + clusterDecision" where
  "replica_decision c = (\<lambda>(rootPlc, cl). singleClusterDecision c rootPlc cl)"

definition replica_scope :: "client_reader \<Rightarrow> Policy \<times> string \<Rightarrow> bool" where
  "replica_scope c = (\<lambda>(rootPlc, cl). managed_scope c rootPlc cl)"

lemmas replica_item_defs = replica_request_def replica_decision_def replica_scope_def

abbreviation replica_run where
  "replica_run \<equiv> queue_run hub_change (replicatedPolicy_watches True) replica_request replica_decision"

interpretation wq: watch_coverage hub_change "replicatedPolicy_watches True" replica_request
  replica_decision replica_scope
proof
  fix c evt c' i assume ch: "hub_change c evt c'"
  show "replica_decision c' i = replica_decision c i"
    if "replica_scope c' i" "replica_request i \<notin> set (replicatedPolicy_watches True c' evt)"
    using hw.changed_requested [OF ch, of "fst i" "snd i"] that by (auto simp: replica_item_defs split: prod.splits)
  show "replica_scope c' i = replica_scope c i"
    using hub_change_managed [OF ch] by (simp add: replica_scope_def)
qed

text \<open>At the start the queue is empty, no binding is known and nothing is placed.\<close>

definition hub_start :: "(Policy \<times> string, goerr + clusterDecision) queue_state \<Rightarrow> bool" where
  "hub_start s \<longleftrightarrow> serves_bindings (hub s) [] \<and> pending s = {} \<and> acted s = (\<lambda>_. Inr clusterDecision_zero)"

lemma hub_start_decision: "hub_start s \<Longrightarrow> acted s i = replica_decision (hub s) i"
  by (simp add: hub_start_def serves_bindings_def singleClusterDecision_def replica_decision_def split: prod.splits)

section \<open>An example cache\<close>

definition ex_hub :: "PlacementBinding list \<Rightarrow> client_reader" where
  "ex_hub pbs = ex_reader\<lparr>
     List_PlacementBindings := (\<lambda>opts. case opts of
         [InNamespace ns] \<Rightarrow> Inr (filter (\<lambda>pb. pb_Namespace pb = ns) pbs)
       | [InNamespace ns, MatchingFields f n] \<Rightarrow>
           Inr (filter (\<lambda>pb. pb_Namespace pb = ns \<and> n \<in> set (indexFunc pb)) pbs)
       | _ \<Rightarrow> Inr [])\<rparr>"

lemma ex_hub_serves: "serves_bindings (ex_hub pbs) pbs"
  by (simp add: serves_bindings_def ex_hub_def)

lemma ex_hub_answers: "answers (ex_hub pbs)" "no_unnamed_decisions (ex_hub pbs)"
  by (auto simp: answers_def no_unnamed_decisions_def ex_hub_def ex_reader_def split: if_splits)

lemma ex_binding_created: "binding_change (ex_hub []) (CreateEvent ex_pb) (ex_hub [ex_pb])"
  unfolding binding_change_def
proof (intro conjI exI)
  show "cache_change [] (CreateEvent ex_pb) [ex_pb]"
    using cache_change.created [of "[]" "[]" ex_pb] by simp
  show "ex_hub [ex_pb] = ex_hub []\<lparr>List_PlacementBindings := List_PlacementBindings (ex_hub [ex_pb])\<rparr>"
    by (simp add: ex_hub_def)
qed (simp_all add: ex_hub_serves ex_hub_answers binding_event_ok_def)

section \<open>Properties\<close>



text \<open>C36. An update of a PlacementBinding can be missed: when its subject changes from a policy set that
  excludes a cluster to the policy itself, the binding places the policy on the cluster afterwards and
  did not before, but the handler does not request the replicated policy.\<close>

theorem binding_update_missed:
  assumes "pb_Subjects old = [\<lparr>sub_APIGroup = SchemeGroup, sub_Kind = PolicySetKind, sub_Name = sn\<rparr>]"
    and "new = old\<lparr>pb_Subjects := [\<lparr>sub_APIGroup = SchemeGroup, sub_Kind = PolicyKind, sub_Name = p\<rparr>]\<rparr>"
    and "Get_PolicySet c (nn (pb_Namespace old) sn) = Inr ps" and "pss_Policies (set_Spec ps) = [p]"
    and "cl \<in> set (ExcludedClustersForPolicy (Some ps) p)"
    and "isSingleClusterInDecisions c new p cl = Inr True"
  shows "isSingleClusterInDecisions c old p cl = Inr False \<and>
    handlerForBinding c (UpdateEvent old new) = []"
proof
  have "GetPolicySet c (pb_Namespace old) sn = Inr (Some ps)" using assms(3) by (simp add: GetPolicySet_def)
  with assms(1,5) have "subject_found c (pb_Namespace old) p cl (pb_Subjects old) = Inr False" by simp
  then show "isSingleClusterInDecisions c old p cl = Inr False" by (simp add: isSingleClusterInDecisions_def)
  have "GetPoliciesInPlacementBinding c new = GetPoliciesInPlacementBinding c old"
    using assms(1-4) by (simp add: GetPoliciesInPlacementBinding_def add_subject_policies_def)
  moreover have "pb_PlacementRef new = pb_PlacementRef old" "pb_ObjectMeta new = pb_ObjectMeta old"
    using assms(2) by simp_all
  then have "GetDecisions c new = GetDecisions c old"
    by (simp only: GetDecisions_def HasValidPlacementRef_def)
  ultimately have "GetRepPoliciesInPlacementBinding c new = GetRepPoliciesInPlacementBinding c old"
    by (simp only: GetRepPoliciesInPlacementBinding_def)
  moreover have "GetAffectedObjs xs xs = []" for xs :: "Request list"
    using set_GetAffectedObjs [of xs xs] by (auto simp: count_list_0_iff simp flip: set_empty)
  ultimately show "handlerForBinding c (UpdateEvent old new) = []"
    using assms(2) by (simp add: handlerForBinding_def handlerForBinding_Update_def Let_def)
qed

theorem binding_update_missed_witness:
  "isSingleClusterInDecisions ex_reader ex_set_pb ''p'' ''c2'' = Inr False \<and>
   handlerForBinding ex_reader (UpdateEvent ex_set_pb (ex_set_pb\<lparr>pb_Subjects := [ex_subject]\<rparr>)) = []"
  by (rule binding_update_missed [of ex_set_pb "''s''" _ "''p''" ex_reader ex_set "''c2''"])
     (simp_all add: set_ExcludedClustersForPolicy isSingleClusterInDecisions_def HasValidPlacementRef_def Let_def
       ex_reader_def ex_objects)

end
