(* ===== verification/Status_Coverage.thy ===== *)
theory Status_Coverage
  imports Event_Coverage
begin

text \<open>
  The watches of the root policy status controller
  (\<^verbatim>\<open>controllers/rootpolicystatus/root_policy_status_controller.go\<close>, \<^verbatim>\<open>SetupWithManager\<close>) composed with the status
  it computes (\<^verbatim>\<open>controllers/common/common_status_update.go\<close>): in every run the status of a root policy
  is requested or is the one of the cache. Unlike the replicated policy controller, this
  controller maps the old and the new object of an update, so the exclusions of policy sets do not
  matter here.
\<close>

section \<open>The watches\<close>

text \<open>
  \<^verbatim>\<open>handler.EnqueueRequestsFromMapFunc\<close> of the controller runtime is not part of the repository. It is a
  parameter, one for each type of object; what is relied on is its documentation: the mapper is run on
  the object of an event, and on both objects of an update.
\<close>

record map_handlers =
  mh_binding :: "(PlacementBinding \<Rightarrow> Request list) \<Rightarrow> PlacementBinding event \<Rightarrow> Request list"
  mh_decision :: "(PlacementDecisionObj \<Rightarrow> Request list) \<Rightarrow> PlacementDecisionObj event \<Rightarrow> Request list"
  mh_rule :: "(PlacementRuleObj \<Rightarrow> Request list) \<Rightarrow> PlacementRuleObj event \<Rightarrow> Request list"
  mh_policy :: "(Policy \<Rightarrow> Request list) \<Rightarrow> Policy event \<Rightarrow> Request list"

fun event_objects :: "'o event \<Rightarrow> 'o list" where
  "event_objects (CreateEvent x) = [x]"
| "event_objects (UpdateEvent x x') = [x, x']"
| "event_objects (DeleteEvent x) = [x]"
| "event_objects (GenericEvent x) = [x]"

definition maps_all :: "(('o \<Rightarrow> Request list) \<Rightarrow> 'o event \<Rightarrow> Request list) \<Rightarrow> bool" where
  "maps_all h \<longleftrightarrow> (\<forall>m evt. set (h m evt) = (\<Union>x \<in> set (event_objects evt). set (m x)))"

definition handlers_ok :: "map_handlers \<Rightarrow> bool" where
  "handlers_ok H \<longleftrightarrow> maps_all (mh_binding H) \<and> maps_all (mh_decision H) \<and> maps_all (mh_rule H) \<and> maps_all (mh_policy H)"

text \<open>\<^verbatim>\<open>policyStatusPredicate\<close>; a generic event passes a predicate without a \<^verbatim>\<open>GenericFunc\<close>.\<close>

fun policyStatusPredicate :: "Policy event \<Rightarrow> bool" where
  "policyStatusPredicate (CreateEvent p) = False"
| "policyStatusPredicate (UpdateEvent p p') = policyStatus_UpdateFunc p p'"
| "policyStatusPredicate (DeleteEvent p) = False"
| "policyStatusPredicate (GenericEvent p) = True"

datatype status_event = HubEvent hub_event | PolicyEvent "Policy event"

definition rootPolicyStatus_watches :: "map_handlers \<Rightarrow> bool \<Rightarrow> client_reader \<Rightarrow> status_event \<Rightarrow> Request list" where
  "rootPolicyStatus_watches H plrsEnabled c evt =
     (case evt of
        HubEvent (BindingEvent e) \<Rightarrow> mh_binding H (mapBindingToPolicies c) e
      | HubEvent (DecisionEvent e) \<Rightarrow> mh_decision H (mapDecisionToPolicies c) e
      | PolicyEvent e \<Rightarrow>
          if policyStatusPredicate e then mh_policy H (\<lambda>p. MapToRootPolicy c (p_ObjectMeta p)) e else []
      | HubEvent (RuleEvent e) \<Rightarrow> if plrsEnabled then mh_rule H (mapRuleToPolicies c) e else [])"

section \<open>What the status depends on\<close>

text \<open>The status the controller writes for a root policy.\<close>

definition root_status ::
  "client_reader \<Rightarrow> Policy \<Rightarrow> goerr + Placement list \<times> DecisionSet \<times> CompliancePerClusterStatus slice" where
  "root_status c rootPlc =
     (case GetClusterDecisions c rootPlc of
        Inl e \<Rightarrow> Inl e
      | Inr (placements, decisions) \<Rightarrow>
          Inr (placements, decisions, fst (CalculatePerClusterStatus c rootPlc placements decisions)))"

text \<open>What the loops over the bindings see of one; a binding without placements is skipped.\<close>

type_synonym status_view = "SubFilter \<times> string \<times> (goerr + string list \<times> Placement list)"

definition status_views :: "client_reader \<Rightarrow> Policy \<Rightarrow> PlacementBinding list \<Rightarrow> status_view list" where
  "status_views c rootPlc pbs =
     filter (\<lambda>(_, _, r). r \<noteq> Inr ([], []))
       (map (\<lambda>pb. (pb_SubFilter pb, pb_Name pb, GetPolicyPlacementDecisions c rootPlc pb)) pbs)"

fun view_unrestricted :: "status_view \<Rightarrow> Placement list \<times> DecisionSet \<Rightarrow> goerr + Placement list \<times> DecisionSet" where
  "view_unrestricted (sf, name, r) (placements, decisions) =
     (if sf = Restricted then Inr (placements, decisions)
      else case r of
             Inl e \<Rightarrow> Inl e
           | Inr (ds, pls) \<Rightarrow> Inr (placements @ pls, fold (\<lambda>cl. addBinding cl name) ds decisions))"

fun view_restricted :: "status_view \<Rightarrow> Placement list \<times> DecisionSet \<Rightarrow> goerr + Placement list \<times> DecisionSet" where
  "view_restricted (sf, name, r) (placements, decisions) =
     (if sf \<noteq> Restricted then Inr (placements, decisions)
      else case r of
             Inl e \<Rightarrow> Inl e
           | Inr (ds, pls) \<Rightarrow>
               (case fold (note_restricted name) ds (False, decisions) of
                  (found, decisions) \<Rightarrow> Inr (if found then placements @ pls else placements, decisions)))"

lemma status_views_simps [simp]:
  "status_views c rootPlc [] = []"
  "status_views c rootPlc (pb # pbs) =
     (if GetPolicyPlacementDecisions c rootPlc pb = Inr ([], []) then status_views c rootPlc pbs
      else (pb_SubFilter pb, pb_Name pb, GetPolicyPlacementDecisions c rootPlc pb) # status_views c rootPlc pbs)"
  "status_views c rootPlc (pbs @ pbs') = status_views c rootPlc pbs @ status_views c rootPlc pbs'"
  by (simp_all add: status_views_def)

lemma gather_view:
  "gather_unrestricted c rootPlc pb st =
     view_unrestricted (pb_SubFilter pb, pb_Name pb, GetPolicyPlacementDecisions c rootPlc pb) st"
  "gather_restricted c rootPlc pb st =
     view_restricted (pb_SubFilter pb, pb_Name pb, GetPolicyPlacementDecisions c rootPlc pb) st"
  by (cases st; simp add: gather_unrestricted_def gather_restricted_def)+

lemma gather_empty:
  "GetPolicyPlacementDecisions c rootPlc pb = Inr ([], []) \<Longrightarrow> gather_unrestricted c rootPlc pb st = Inr st"
  "GetPolicyPlacementDecisions c rootPlc pb = Inr ([], []) \<Longrightarrow> gather_restricted c rootPlc pb st = Inr st"
  by (cases st; simp add: gather_view)+

lemma foldE_views:
  "foldE (gather_unrestricted c rootPlc) pbs st = foldE view_unrestricted (status_views c rootPlc pbs) st"
  "foldE (gather_restricted c rootPlc) pbs st = foldE view_restricted (status_views c rootPlc pbs) st"
  by (induction pbs arbitrary: st) (auto simp: gather_empty gather_view [symmetric] split: sum.splits)

text \<open>The bindings of the root policy's namespace as it sees them.\<close>

definition root_view :: "client_reader \<Rightarrow> Policy \<Rightarrow> goerr + status_view list" where
  "root_view c rootPlc =
     (case List_PlacementBindings c [InNamespace (p_Namespace rootPlc)] of
        Inl e \<Rightarrow> Inl e | Inr pbs \<Rightarrow> Inr (status_views c rootPlc pbs))"

lemma decisions_of_root_view:
  assumes "root_view c' rootPlc = root_view c rootPlc"
  shows "GetClusterDecisions c' rootPlc = GetClusterDecisions c rootPlc"
  using assms by (auto simp: root_view_def GetClusterDecisions_def foldE_views split: sum.splits)

lemma status_of_root_view:
  assumes "root_view c' rootPlc = root_view c rootPlc" and "Get_Policy c' = Get_Policy c"
  shows "root_status c' rootPlc = root_status c rootPlc"
proof -
  have "cluster_status c' rootPlc rem cl = cluster_status c rootPlc rem cl" for rem cl
    by (simp only: cluster_status_def assms(2))
  then have "CalculatePerClusterStatus c' rootPlc = CalculatePerClusterStatus c rootPlc"
    by (intro ext) (simp only: CalculatePerClusterStatus_def)
  with decisions_of_root_view [OF assms(1)] show ?thesis by (simp only: root_status_def)
qed

text \<open>A binding with placements names the policy.\<close>

lemma foldE_subject_placements_named:
  "foldE (subject_placements c inst pb) ss (f, sets, pls) = Inr (f', sets', pls') \<Longrightarrow>
     pls' \<noteq> pls \<Longrightarrow> \<exists>s \<in> set ss. subject_names_policy c (pb_Namespace pb) s (p_Name inst)"
proof (induction ss arbitrary: f sets pls)
  case Nil
  then show ?case by simp
next
  case (Cons s ss)
  then obtain f1 sets1 pls1 where s: "subject_placements c inst pb s (f, sets, pls) = Inr (f1, sets1, pls1)"
    and rest: "foldE (subject_placements c inst pb) ss (f1, sets1, pls1) = Inr (f', sets', pls')"
    by (auto split: sum.splits)
  show ?case
  proof (cases "pls1 = pls")
    case True
    with Cons.IH [OF rest] Cons.prems(2) show ?thesis by auto
  next
    case False
    with s have "subject_names_policy c (pb_Namespace pb) s (p_Name inst)"
      by (cases rule: GetPolicySet_cases [of c "pb_Namespace pb" "sub_Name s"])
         (auto simp: subject_placements_def subject_names_policy_def IsPolicyInPolicySet_def split: if_splits)
    then show ?thesis by auto
  qed
qed

lemma foldE_subject_placements_answers:
  assumes "answers c"
  shows "\<exists>st'. foldE (subject_placements c inst pb) ss st = Inr st'"
proof (induction ss arbitrary: st)
  case Nil
  then show ?case by (intro exI) simp
next
  case (Cons s ss)
  obtain f sets pls where "st = (f, sets, pls)" by (rule prod_cases3)
  then have "\<exists>st'. subject_placements c inst pb s st = Inr st'"
    using assms by (cases rule: GetPolicySet_cases [of c "pb_Namespace pb" "sub_Name s"])
       (auto simp: subject_placements_def answers_def)
  then obtain st' where "subject_placements c inst pb s st = Inr st'" ..
  with Cons show ?case by simp
qed

lemma not_named_no_placements:
  assumes "answers c"
    and "\<not> (\<exists>s \<in> set (pb_Subjects pb). subject_names_policy c (pb_Namespace pb) s (p_Name rootPlc))"
  shows "GetPolicyPlacementDecisions c rootPlc pb = Inr ([], [])"
proof -
  obtain f sets pls where f: "foldE (subject_placements c rootPlc pb) (pb_Subjects pb) (False, [], []) = Inr (f, sets, pls)"
    using foldE_subject_placements_answers [OF assms(1)] by (metis prod_cases3)
  with foldE_subject_placements_named [OF f] assms(2) have "pls = []" by blast
  with f show ?thesis by (simp add: GetPolicyPlacementDecisions_def)
qed

section \<open>Placements\<close>

text \<open>
  The events of the placement decisions and rules. As the handler maps the old and the new object of an
  update, nothing is asked of them.
\<close>

definition decision_update :: "client_reader \<Rightarrow> PlacementDecisionObj event \<Rightarrow> client_reader \<Rightarrow> bool" where
  "decision_update c evt c' \<longleftrightarrow>
     (\<exists>ds ds'. cache_change ds evt ds' \<and> serves_decisions c ds \<and> serves_decisions c' ds') \<and>
     c' = c\<lparr>List_PlacementDecisions := List_PlacementDecisions c'\<rparr> \<and>
     (\<exists>pbs. serves_bindings c pbs) \<and> placements_named c"

definition rule_update :: "client_reader \<Rightarrow> PlacementRuleObj event \<Rightarrow> client_reader \<Rightarrow> bool" where
  "rule_update c evt c' \<longleftrightarrow>
     (\<exists>rs rs'. cache_change rs evt rs' \<and> serves_rules c rs \<and> serves_rules c' rs') \<and>
     c' = c\<lparr>Get_PlacementRule := Get_PlacementRule c'\<rparr> \<and> (\<exists>pbs. serves_bindings c pbs)"

lemma cache_change_filter:
  assumes "cache_change os evt os'" and "filter Q os' \<noteq> filter Q os"
  shows "\<exists>x \<in> set (event_objects evt). Q x"
  using assms by (cases rule: cache_change.cases) (auto split: if_splits)

lemma find_filter: "find P xs = (case filter P xs of [] \<Rightarrow> None | x # _ \<Rightarrow> Some x)"
  by (induction xs) auto

lemma placements_differ:
  assumes "Get_PolicySet c' = Get_PolicySet c"
    and "GetPolicyPlacementDecisions c' rootPlc pb \<noteq> GetPolicyPlacementDecisions c rootPlc pb"
  obtains s pls where "HasValidPlacementRef pb" and "s \<in> set (pb_Subjects pb)"
    and "subject_names_policy c' (pb_Namespace pb) s (p_Name rootPlc)"
    and "name_placements c' pb pls \<noteq> name_placements c pb pls \<or> GetDecisions c' pb \<noteq> GetDecisions c pb"
proof -
  have "GetPolicySet c' = GetPolicySet c" by (intro ext) (simp only: GetPolicySet_def assms(1))
  then have s: "subject_placements c' rootPlc pb = subject_placements c rootPlc pb"
    by (intro ext) (simp only: subject_placements_def)
  obtain f sets pls where f: "foldE (subject_placements c' rootPlc pb) (pb_Subjects pb) (False, [], []) = Inr (f, sets, pls)"
    and "pls \<noteq> []" "HasValidPlacementRef pb"
    and "name_placements c' pb pls \<noteq> name_placements c pb pls \<or> GetDecisions c' pb \<noteq> GetDecisions c pb"
    using assms(2) by (auto simp: GetPolicyPlacementDecisions_def s split: sum.splits if_splits)
  with foldE_subject_placements_named [OF f] that show thesis by blast
qed

lemma root_view_placements:
  assumes "serves_bindings c pbs" and "List_PlacementBindings c' = List_PlacementBindings c"
    and "\<And>pb. pb \<in> set pbs \<Longrightarrow> pb_Namespace pb = p_Namespace rootPlc \<Longrightarrow>
      GetPolicyPlacementDecisions c' rootPlc pb = GetPolicyPlacementDecisions c rootPlc pb"
  shows "root_view c' rootPlc = root_view c rootPlc"
proof -
  have "map (\<lambda>pb. (pb_SubFilter pb, pb_Name pb, GetPolicyPlacementDecisions c' rootPlc pb))
        (filter (\<lambda>pb. pb_Namespace pb = p_Namespace rootPlc) pbs) =
      map (\<lambda>pb. (pb_SubFilter pb, pb_Name pb, GetPolicyPlacementDecisions c rootPlc pb))
        (filter (\<lambda>pb. pb_Namespace pb = p_Namespace rootPlc) pbs)"
    using assms(3) by simp
  then have "status_views c' rootPlc (filter (\<lambda>pb. pb_Namespace pb = p_Namespace rootPlc) pbs) =
      status_views c rootPlc (filter (\<lambda>pb. pb_Namespace pb = p_Namespace rootPlc) pbs)"
    by (simp only: status_views_def)
  then show ?thesis using assms(1) by (simp add: root_view_def serves_bindings_def assms(2))
qed

text \<open>The decisions of a binding differ after an event only when one of its objects is of the binding's placement.\<close>

lemma decisions_differ:
  assumes "decision_update c evt c'" and "GetDecisions c' pb \<noteq> GetDecisions c pb"
  shows "ref_Kind (pb_PlacementRef pb) = Placement_kind \<and> HasValidPlacementRef pb \<and>
    (\<exists>d \<in> set (event_objects evt). pd_Namespace d = pb_Namespace pb \<and>
       placement_of d = Some (ref_Name (pb_PlacementRef pb)))"
proof -
  let ?n = "ref_Name (pb_PlacementRef pb)"
  let ?at = "\<lambda>d. pd_Namespace d = pb_Namespace pb \<and> placement_of d = Some ?n"
  from assms(1) obtain ds ds' ld where ch: "cache_change ds evt ds'" "serves_decisions c ds" "serves_decisions c' ds'"
    and c': "c' = c\<lparr>List_PlacementDecisions := ld\<rparr>" and named: "placements_named c"
    unfolding decision_update_def by blast
  have same: "Get_Placement c' = Get_Placement c" "Get_PlacementRule c' = Get_PlacementRule c" by (simp_all add: c')
  from assms(2) obtain pl where pl: "Get_Placement c (nn (pb_Namespace pb) ?n) = Inr pl"
    and k: "ref_Kind (pb_PlacementRef pb) = Placement_kind" "HasValidPlacementRef pb"
    by (auto simp: GetDecisions_def same Let_def split: if_splits sum.splits)
  from pl named have "plo_Name pl = ?n" by (auto simp: placements_named_def)
  with assms(2) pl k ch(2,3) have "filter ?at ds' \<noteq> filter ?at ds"
    by (auto simp: GetDecisions_def same Let_def serves_decisions_def split: if_splits)
  from cache_change_filter [OF ch(1) this] k show ?thesis by blast
qed

lemma rules_differ:
  assumes "rule_update c evt c'" and "name_placements c' pb pls \<noteq> name_placements c pb pls \<or> GetDecisions c' pb \<noteq> GetDecisions c pb"
  shows "ref_Kind (pb_PlacementRef pb) = PlacementRule_kind \<and>
    (\<exists>r \<in> set (event_objects evt). nn (plr_Namespace r) (plr_Name r) = nn (pb_Namespace pb) (ref_Name (pb_PlacementRef pb)))"
proof -
  let ?k = "nn (pb_Namespace pb) (ref_Name (pb_PlacementRef pb))"
  let ?at = "\<lambda>r. nn (plr_Namespace r) (plr_Name r) = ?k"
  from assms(1) obtain rs rs' g where ch: "cache_change rs evt rs'" "serves_rules c rs" "serves_rules c' rs'"
    and c': "c' = c\<lparr>Get_PlacementRule := g\<rparr>" unfolding rule_update_def by blast
  have same: "Get_Placement c' = Get_Placement c" "List_PlacementDecisions c' = List_PlacementDecisions c"
    by (simp_all add: c')
  from assms(2) have k: "ref_Kind (pb_PlacementRef pb) = PlacementRule_kind"
    and get: "Get_PlacementRule c' ?k \<noteq> Get_PlacementRule c ?k"
    unfolding GetDecisions_def name_placements_def Let_def same by (auto split: if_splits)
  from get ch(2,3) have "find ?at rs' \<noteq> find ?at rs" by (auto simp: serves_rules_def)
  then have "filter ?at rs' \<noteq> filter ?at rs" by (auto simp: find_filter)
  from cache_change_filter [OF ch(1) this] k show ?thesis by blast
qed

lemma decision_update_covered:
  assumes "decision_update c evt c'" and "serves_bindings c pbs" and "pb \<in> set pbs"
    and "GetPolicyPlacementDecisions c' rootPlc pb \<noteq> GetPolicyPlacementDecisions c rootPlc pb"
  shows "\<exists>d \<in> set (event_objects evt). nn (pb_Namespace pb) (p_Name rootPlc) \<in> set (mapDecisionToPolicies c' d)"
proof -
  from assms(1) obtain ld where c': "c' = c\<lparr>List_PlacementDecisions := ld\<rparr>" unfolding decision_update_def by blast
  have same: "Get_PolicySet c' = Get_PolicySet c" "Get_Placement c' = Get_Placement c"
    "Get_PlacementRule c' = Get_PlacementRule c" "List_PlacementBindings c' = List_PlacementBindings c"
    by (simp_all add: c')
  from placements_differ [OF same(1) assms(4)] obtain s pls where
    s: "HasValidPlacementRef pb" "s \<in> set (pb_Subjects pb)" "subject_names_policy c' (pb_Namespace pb) s (p_Name rootPlc)"
    and d: "name_placements c' pb pls \<noteq> name_placements c pb pls \<or> GetDecisions c' pb \<noteq> GetDecisions c pb" by blast
  have "name_placements c' pb pls = name_placements c pb pls" by (simp only: name_placements_def same)
  with d decisions_differ [OF assms(1), of pb] obtain x where x: "x \<in> set (event_objects evt)"
    "pd_Namespace x = pb_Namespace pb" "placement_of x = Some (ref_Name (pb_PlacementRef pb))"
    and k: "ref_Kind (pb_PlacementRef pb) = Placement_kind" by blast
  have "serves_bindings c' pbs" using assms(2) by (simp add: serves_bindings_def same)
  then obtain rs where "GetRootPolicyRequests c' (pb_Namespace pb) (ref_Name (pb_PlacementRef pb)) Placement_kind = Inr rs"
    "nn (pb_Namespace pb) (p_Name rootPlc) \<in> set rs"
    by (rule GetRootPolicyRequests_serves [OF _ assms(3) s k])
  with x show ?thesis by (intro bexI [of _ x]) (simp_all add: mapDecisionToPolicies_def map_index_placement)
qed

lemma rule_update_covered:
  assumes "rule_update c evt c'" and "serves_bindings c pbs" and "pb \<in> set pbs"
    and "GetPolicyPlacementDecisions c' rootPlc pb \<noteq> GetPolicyPlacementDecisions c rootPlc pb"
  shows "\<exists>r \<in> set (event_objects evt). nn (pb_Namespace pb) (p_Name rootPlc) \<in> set (mapRuleToPolicies c' r)"
proof -
  from assms(1) obtain g where c': "c' = c\<lparr>Get_PlacementRule := g\<rparr>" unfolding rule_update_def by blast
  have same: "Get_PolicySet c' = Get_PolicySet c" "List_PlacementBindings c' = List_PlacementBindings c"
    by (simp_all add: c')
  from placements_differ [OF same(1) assms(4)] obtain s pls where
    s: "HasValidPlacementRef pb" "s \<in> set (pb_Subjects pb)" "subject_names_policy c' (pb_Namespace pb) s (p_Name rootPlc)"
    and d: "name_placements c' pb pls \<noteq> name_placements c pb pls \<or> GetDecisions c' pb \<noteq> GetDecisions c pb" by blast
  from rules_differ [OF assms(1) d] obtain x where x: "x \<in> set (event_objects evt)"
    "nn (plr_Namespace x) (plr_Name x) = nn (pb_Namespace pb) (ref_Name (pb_PlacementRef pb))"
    and k: "ref_Kind (pb_PlacementRef pb) = PlacementRule_kind" by blast
  have "serves_bindings c' pbs" using assms(2) by (simp add: serves_bindings_def same)
  then obtain reqs where "GetRootPolicyRequests c' (pb_Namespace pb) (ref_Name (pb_PlacementRef pb)) PlacementRule_kind = Inr reqs"
    "nn (pb_Namespace pb) (p_Name rootPlc) \<in> set reqs"
    by (rule GetRootPolicyRequests_serves [OF _ assms(3) s k])
  with x show ?thesis by (intro bexI [of _ x]) (simp_all add: mapRuleToPolicies_def)
qed

section \<open>Placement bindings\<close>

definition binding_update :: "client_reader \<Rightarrow> PlacementBinding event \<Rightarrow> client_reader \<Rightarrow> bool" where
  "binding_update c evt c' \<longleftrightarrow>
     (\<exists>pbs pbs'. cache_change pbs evt pbs' \<and> serves_bindings c pbs \<and> serves_bindings c' pbs') \<and>
     c' = c\<lparr>List_PlacementBindings := List_PlacementBindings c'\<rparr> \<and> answers c"

lemma binding_placements_cong:
  assumes "c' = c\<lparr>List_PlacementBindings := lb\<rparr>"
  shows "GetPolicyPlacementDecisions c' rootPlc pb = GetPolicyPlacementDecisions c rootPlc pb"
proof (rule ccontr)
  have reads: "Get_PolicySet c' = Get_PolicySet c" "Get_Placement c' = Get_Placement c"
    "Get_PlacementRule c' = Get_PlacementRule c" "List_PlacementDecisions c' = List_PlacementDecisions c"
    by (simp_all add: assms)
  assume "\<not> ?thesis"
  with placements_differ [OF reads(1)] obtain pls where
    "name_placements c' pb pls \<noteq> name_placements c pb pls \<or> GetDecisions c' pb \<noteq> GetDecisions c pb" by metis
  then show False unfolding name_placements_def GetDecisions_def reads by blast
qed

lemma binding_views:
  assumes "answers c"
    and "\<And>pb. pb \<in> set (event_objects evt) \<Longrightarrow> nn (p_Namespace rootPlc) (p_Name rootPlc) \<notin> set (mapBindingToPolicies c pb)"
    and "cache_change pbs evt pbs'"
  shows "status_views c rootPlc (filter (\<lambda>pb. pb_Namespace pb = p_Namespace rootPlc) pbs') =
    status_views c rootPlc (filter (\<lambda>pb. pb_Namespace pb = p_Namespace rootPlc) pbs)"
proof -
  have skipped: "GetPolicyPlacementDecisions c rootPlc pb = Inr ([], [])"
    if "pb \<in> set (event_objects evt)" "pb_Namespace pb = p_Namespace rootPlc" for pb
    using assms(2) [OF that(1)] that(2)
    by (intro not_named_no_placements [OF assms(1)])
       (auto simp: mapBindingToPolicies_def set_GetPoliciesInPlacementBinding)
  from assms(3) show ?thesis by cases (use skipped in auto)
qed

section \<open>Policies\<close>

text \<open>
  The replicated policies, by name. What is relied on of the API server: the status is a
  subresource, so a policy is created without a status and an update changes the status or the
  generation but not both. What is relied on of the replicated policies: only they have a dot in the
  name, which is their label's value, and they are in cluster namespaces. A replicated policy that is
  deleted with a compliance is not covered: the predicate leaves it to the root policy controller.
\<close>

definition serves_policies :: "client_reader \<Rightarrow> Policy list \<Rightarrow> bool" where
  "serves_policies c ps \<longleftrightarrow>
     (\<forall>k. Get_Policy c k =
        (case find (\<lambda>p. nn (p_Namespace p) (p_Name p) = k) ps of
           None \<Rightarrow> Inl (ApiStatus NotFound) | Some p \<Rightarrow> Inr p))"

definition compliance_of :: "Policy \<Rightarrow> ComplianceState" where
  "compliance_of p = st_ComplianceState (p_Status p)"

definition labelled_replica :: "client_reader \<Rightarrow> Policy \<Rightarrow> bool" where
  "labelled_replica c p \<longleftrightarrow>
     map_index (om_Labels (p_ObjectMeta p)) RootPolicyLabel = p_Name p \<and> IsInClusterNamespace c (p_Namespace p) = Inr True"

definition policy_event_ok :: "client_reader \<Rightarrow> Policy event \<Rightarrow> bool" where
  "policy_event_ok c evt =
     (case evt of
        CreateEvent p \<Rightarrow> compliance_of p = []
      | UpdateEvent p p' \<Rightarrow>
          p_Namespace p' = p_Namespace p \<and> p_Name p' = p_Name p \<and>
          (compliance_of p' = compliance_of p \<or> om_Generation (p_ObjectMeta p) = om_Generation (p_ObjectMeta p')) \<and>
          (CHR ''.'' \<in> set (p_Name p') \<longrightarrow> labelled_replica c p')
      | DeleteEvent p \<Rightarrow> compliance_of p = []
      | GenericEvent p \<Rightarrow> True)"

definition policy_update :: "client_reader \<Rightarrow> Policy event \<Rightarrow> client_reader \<Rightarrow> bool" where
  "policy_update c evt c' \<longleftrightarrow>
     (\<exists>ps ps'. cache_change ps evt ps' \<and> serves_policies c ps \<and> serves_policies c' ps' \<and>
        distinct (map (\<lambda>p. nn (p_Namespace p) (p_Name p)) ps) \<and> distinct (map (\<lambda>p. nn (p_Namespace p) (p_Name p)) ps')) \<and>
     c' = c\<lparr>Get_Policy := Get_Policy c'\<rparr> \<and> policy_event_ok c' evt"

definition compliance_at :: "client_reader \<Rightarrow> NamespacedName \<Rightarrow> ComplianceState" where
  "compliance_at c k = (case Get_Policy c k of Inl _ \<Rightarrow> [] | Inr p \<Rightarrow> compliance_of p)"

lemma cluster_status_compliance:
  assumes "serves_policies c ps"
  shows "cluster_status c rootPlc rem cl =
    (\<lparr>cs_ComplianceState = compliance_at c (nn cl (FullNameForPolicy rootPlc)), cs_ClusterName = cl,
      cs_ClusterNamespace = cl, cs_RemainingBindings = bindings_of rem cl\<rparr>, None)"
  using assms
  by (simp add: cluster_status_def compliance_at_def compliance_of_def FullNameForPolicy_def serves_policies_def Let_def
      split: option.splits)

lemma compliance_at_served:
  assumes "serves_policies c ps" and "distinct (map (\<lambda>p. nn (p_Namespace p) (p_Name p)) ps)"
  shows "compliance_at c k = concat (map compliance_of (filter (\<lambda>p. nn (p_Namespace p) (p_Name p) = k) ps))"
proof -
  have "(case find (\<lambda>p. nn (p_Namespace p) (p_Name p) = k) ps of None \<Rightarrow> [] | Some p \<Rightarrow> compliance_of p) =
      concat (map compliance_of (filter (\<lambda>p. nn (p_Namespace p) (p_Name p) = k) ps))"
    using assms(2)
  proof (induction ps)
    case (Cons p ps)
    then have "nn (p_Namespace p) (p_Name p) = k \<Longrightarrow> filter (\<lambda>p. nn (p_Namespace p) (p_Name p) = k) ps = []"
      by (auto simp: filter_empty_conv image_iff)
    with Cons show ?case by (cases "nn (p_Namespace p) (p_Name p) = k") simp_all
  qed simp
  with assms(1) show ?thesis by (simp add: compliance_at_def serves_policies_def split: option.splits)
qed

lemma policy_event_compliance:
  assumes "policy_event_ok c evt" and "CHR ''.'' \<notin> set (p_Namespace rootPlc)" and "handlers_ok H"
    and "nn (p_Namespace rootPlc) (p_Name rootPlc) \<notin> set (rootPolicyStatus_watches H True c (PolicyEvent evt))"
    and "cache_change ps evt ps'"
  shows "concat (map compliance_of (filter (\<lambda>p. nn (p_Namespace p) (p_Name p) = nn cl (FullNameForPolicy rootPlc)) ps')) =
    concat (map compliance_of (filter (\<lambda>p. nn (p_Namespace p) (p_Name p) = nn cl (FullNameForPolicy rootPlc)) ps))"
  using assms(5)
proof cases
  case (updated xs p ys p')
  have "compliance_of p' = compliance_of p" if k: "nn (p_Namespace p') (p_Name p') = nn cl (FullNameForPolicy rootPlc)"
  proof (rule ccontr)
    assume "compliance_of p' \<noteq> compliance_of p"
    with assms(1) updated(2) k have "policyStatusPredicate evt" "labelled_replica c p'"
      by (auto simp: policy_event_ok_def policyStatus_UpdateFunc_def FullNameForPolicy_def)
    moreover from this k assms(2) have "MapToRootPolicy c (p_ObjectMeta p') = [nn (p_Namespace rootPlc) (p_Name rootPlc)]"
      by (simp add: MapToRootPolicy_def IsReplicatedPolicy_def labelled_replica_def FullNameForPolicy_def
          ParseRootPolicyLabel_append [simplified])
    ultimately show False
      using assms(3,4) updated(2)
      by (simp add: rootPolicyStatus_watches_def handlers_ok_def maps_all_def)
  qed
  with assms(1) updated show ?thesis by (auto simp: policy_event_ok_def)
qed (use assms(1) in \<open>auto simp: policy_event_ok_def\<close>)

section \<open>All watches\<close>

definition status_change :: "map_handlers \<Rightarrow> client_reader \<Rightarrow> status_event \<Rightarrow> client_reader \<Rightarrow> bool" where
  "status_change H c evt c' =
     (handlers_ok H \<and> (case evt of
        HubEvent (DecisionEvent e) \<Rightarrow> decision_update c e c'
      | HubEvent (BindingEvent e) \<Rightarrow> binding_update c e c'
      | HubEvent (RuleEvent e) \<Rightarrow> rule_update c e c'
      | PolicyEvent e \<Rightarrow> policy_update c e c'))"

definition root_request :: "Policy \<Rightarrow> Request" where
  "root_request rootPlc = nn (p_Namespace rootPlc) (p_Name rootPlc)"

definition root_scope :: "client_reader \<Rightarrow> Policy \<Rightarrow> bool" where
  "root_scope c rootPlc \<longleftrightarrow> CHR ''.'' \<notin> set (p_Namespace rootPlc)"

lemma placement_update_status:
  assumes "serves_bindings c pbs" and "List_PlacementBindings c' = List_PlacementBindings c"
    and "Get_Policy c' = Get_Policy c" and "root_request rootPlc \<notin> R"
    and "\<And>pb. pb \<in> set pbs \<Longrightarrow> GetPolicyPlacementDecisions c' rootPlc pb \<noteq> GetPolicyPlacementDecisions c rootPlc pb \<Longrightarrow>
      nn (pb_Namespace pb) (p_Name rootPlc) \<in> R"
  shows "root_status c' rootPlc = root_status c rootPlc"
proof (rule status_of_root_view [OF root_view_placements [OF assms(1,2)] assms(3)])
  show "GetPolicyPlacementDecisions c' rootPlc pb = GetPolicyPlacementDecisions c rootPlc pb"
    if "pb \<in> set pbs" "pb_Namespace pb = p_Namespace rootPlc" for pb
    using assms(4) assms(5) [OF that(1)] that(2) by (auto simp: root_request_def)
qed

lemma binding_update_status:
  assumes "binding_update c evt c'" and "\<And>pb. pb \<in> set (event_objects evt) \<Longrightarrow> root_request rootPlc \<notin> set (mapBindingToPolicies c' pb)"
  shows "root_status c' rootPlc = root_status c rootPlc"
proof -
  from assms(1) obtain pbs pbs' lb where ch: "cache_change pbs evt pbs'" "serves_bindings c pbs" "serves_bindings c' pbs'"
    and c': "c' = c\<lparr>List_PlacementBindings := lb\<rparr>" and a: "answers c" unfolding binding_update_def by blast
  have "answers c'" using a by (simp add: c' answers_def)
  then have "status_views c' rootPlc (filter (\<lambda>pb. pb_Namespace pb = p_Namespace rootPlc) pbs') =
      status_views c' rootPlc (filter (\<lambda>pb. pb_Namespace pb = p_Namespace rootPlc) pbs)"
    using ch(1) assms(2) by (intro binding_views) (simp_all add: root_request_def)
  moreover have "status_views c' = status_views c"
    by (intro ext) (simp only: status_views_def binding_placements_cong [OF c'])
  ultimately have "root_view c' rootPlc = root_view c rootPlc"
    using ch(2,3) by (simp add: root_view_def serves_bindings_def)
  then show ?thesis by (rule status_of_root_view) (simp add: c')
qed

lemma policy_update_status:
  assumes "policy_update c evt c'" and "handlers_ok H" and "root_scope c' rootPlc"
    and "root_request rootPlc \<notin> set (rootPolicyStatus_watches H True c' (PolicyEvent evt))"
  shows "root_status c' rootPlc = root_status c rootPlc"
proof -
  from assms(1) obtain ps ps' g where ch: "cache_change ps evt ps'" "serves_policies c ps" "serves_policies c' ps'"
    and d: "distinct (map (\<lambda>p. nn (p_Namespace p) (p_Name p)) ps)" "distinct (map (\<lambda>p. nn (p_Namespace p) (p_Name p)) ps')"
    and c': "c' = c\<lparr>Get_Policy := g\<rparr>" and ok: "policy_event_ok c' evt" unfolding policy_update_def by blast
  have "compliance_at c' (nn cl (FullNameForPolicy rootPlc)) = compliance_at c (nn cl (FullNameForPolicy rootPlc))" for cl
    unfolding compliance_at_served [OF ch(2) d(1)] compliance_at_served [OF ch(3) d(2)]
    using assms(3,4)
    by (intro policy_event_compliance [OF ok _ assms(2) _ ch(1)]) (simp_all add: root_scope_def root_request_def)
  then have "cluster_status c' rootPlc rem cl = cluster_status c rootPlc rem cl" for rem cl
    by (simp only: cluster_status_compliance [OF ch(2)] cluster_status_compliance [OF ch(3)])
  then have "CalculatePerClusterStatus c' rootPlc = CalculatePerClusterStatus c rootPlc"
    by (intro ext) (simp only: CalculatePerClusterStatus_def)
  moreover have "GetClusterDecisions c' rootPlc = GetClusterDecisions c rootPlc"
    unfolding c' by (rule GetClusterDecisions_reads) simp_all
  ultimately show ?thesis by (simp only: root_status_def)
qed

lemmas mapped_requests = rootPolicyStatus_watches_def handlers_ok_def maps_all_def

lemma status_unrequested:
  assumes "status_change H c evt c'" and "root_scope c' rootPlc"
    and "root_request rootPlc \<notin> set (rootPolicyStatus_watches H True c' evt)"
  shows "root_status c' rootPlc = root_status c rootPlc"
proof -
  from assms(1) have H: "handlers_ok H" by (simp add: status_change_def)
  consider d where "evt = HubEvent (DecisionEvent d)" | b where "evt = HubEvent (BindingEvent b)"
    | r where "evt = HubEvent (RuleEvent r)" | e where "evt = PolicyEvent e"
    by (metis hub_event.exhaust status_event.exhaust)
  then show ?thesis
  proof cases
    case 1
    with assms(1) have u: "decision_update c d c'" by (simp add: status_change_def)
    then obtain pbs ld where pbs: "serves_bindings c pbs" and c': "c' = c\<lparr>List_PlacementDecisions := ld\<rparr>"
      unfolding decision_update_def by blast
    show ?thesis
      by (rule placement_update_status [OF pbs _ _ assms(3)])
         (use c' decision_update_covered [OF u pbs] H 1 in \<open>simp_all add: mapped_requests\<close>)
  next
    case 2
    with assms H show ?thesis by (intro binding_update_status [of c b]) (simp_all add: status_change_def mapped_requests)
  next
    case 3
    with assms(1) have u: "rule_update c r c'" by (simp add: status_change_def)
    then obtain pbs g where pbs: "serves_bindings c pbs" and c': "c' = c\<lparr>Get_PlacementRule := g\<rparr>"
      unfolding rule_update_def by blast
    show ?thesis
      by (rule placement_update_status [OF pbs _ _ assms(3)])
         (use c' rule_update_covered [OF u pbs] H 3 in \<open>simp_all add: mapped_requests\<close>)
  next
    case 4
    with assms H show ?thesis by (intro policy_update_status [of c e]) (simp_all add: status_change_def)
  qed
qed

abbreviation status_run where
  "status_run H \<equiv> queue_run (status_change H) (rootPolicyStatus_watches H True) root_request root_status"

interpretation sq: watch_coverage "status_change H" "rootPolicyStatus_watches H True" root_request root_status root_scope
  for H
  by unfold_locales (rule status_unrequested, assumption+, simp add: root_scope_def)

text \<open>The status is what the reconciler leaves in the root policy.\<close>

lemma RootStatusUpdate_writes_root_status:
  assumes "RootStatusUpdate a rootPlc k = (Inr decisions, rootPlc', k')"
  shows "\<exists>placements cpcs. root_status (api_read a k) rootPlc = Inr (placements, decisions, cpcs) \<and>
    st_Placement (p_Status rootPlc') = Some placements \<and> st_Status (p_Status rootPlc') = cpcs \<and>
    st_ComplianceState (p_Status rootPlc') = CalculateRootCompliance (items cpcs)"
  using assms
  by (auto simp: RootStatusUpdate_def root_status_def Let_def split: sum.splits prod.splits if_splits option.splits)

text \<open>At the start the queue is empty and no binding is known; the status of a policy is empty.\<close>

definition status_start ::
  "(Policy, goerr + Placement list \<times> DecisionSet \<times> CompliancePerClusterStatus slice) queue_state \<Rightarrow> bool" where
  "status_start s \<longleftrightarrow> serves_bindings (hub s) [] \<and> pending s = {} \<and>
     acted s = (\<lambda>p. Inr ([], [], if ps_Disabled (p_Spec p) then None else Some []))"

lemma status_start_current: "status_start s \<Longrightarrow> acted s p = root_status (hub s) p"
  by (simp add: status_start_def serves_bindings_def root_status_def GetClusterDecisions_def
      CalculatePerClusterStatus_def sortDecisionSet_def Let_def)

section \<open>An example\<close>

definition ex_handlers :: map_handlers where
  "ex_handlers =
     \<lparr>mh_binding = (\<lambda>m evt. concat (map m (event_objects evt))), mh_decision = (\<lambda>m evt. concat (map m (event_objects evt))),
      mh_rule = (\<lambda>m evt. concat (map m (event_objects evt))), mh_policy = (\<lambda>m evt. concat (map m (event_objects evt)))\<rparr>"

lemma ex_handlers_ok: "handlers_ok ex_handlers"
  by (simp add: handlers_ok_def maps_all_def ex_handlers_def)

section \<open>Property\<close>



end
