(* ===== verification/Set_Watches.thy ===== *)
theory Set_Watches
  imports Status_Coverage Policyset_Controller
begin

text \<open>
  The watches of the policy set controller (\<^verbatim>\<open>controllers/policyset/policyset_controller.go\<close>, \<^verbatim>\<open>SetupWithManager\<close>)
  composed with the status it computes. A change of the decisions of a binding to a policy set
  requests the set (\<open>set_placement_requested\<close>). A policy reaches the sets its status names, not the sets
  that list it, so the status of a set that is not bound can stay as it was when one of its policies
  is created (\<open>set_status_missed\<close>).
\<close>

section \<open>The watches\<close>

text \<open>The predicates; without a function an event passes.\<close>

fun policySetPredicateFuncs :: "PolicySet event \<Rightarrow> bool" where
  "policySetPredicateFuncs (UpdateEvent objectOld objectNew) = policySetPredicate_UpdateFunc objectOld objectNew"
| "policySetPredicateFuncs (CreateEvent object) = True"
| "policySetPredicateFuncs (DeleteEvent object) = True"
| "policySetPredicateFuncs (GenericEvent object) = True"

fun policyPredicateFuncs :: "Policy event \<Rightarrow> bool" where
  "policyPredicateFuncs (UpdateEvent objectOld objectNew) = policySet_policy_UpdateFunc objectOld objectNew"
| "policyPredicateFuncs (CreateEvent object) = True"
| "policyPredicateFuncs (DeleteEvent object) = True"
| "policyPredicateFuncs (GenericEvent object) = True"

fun pbPredicateFuncs :: "PlacementBinding event \<Rightarrow> bool" where
  "pbPredicateFuncs (UpdateEvent objectOld objectNew) = pbPredicate_UpdateFunc objectOld objectNew"
| "pbPredicateFuncs (CreateEvent object) = pbPredicate_CreateFunc object"
| "pbPredicateFuncs (DeleteEvent object) = pbPredicate_CreateFunc object"
| "pbPredicateFuncs (GenericEvent object) = True"

datatype set_event =
    SetEvent "PolicySet event"
  | SetPolicyEvent "Policy event"
  | SetHubEvent hub_event

text \<open>\<^verbatim>\<open>For\<close> requests the object of an event; its handler is a parameter as the others.\<close>

definition policySet_watches ::
  "map_handlers \<Rightarrow> (PolicySet event \<Rightarrow> Request list) \<Rightarrow> bool \<Rightarrow> client_reader \<Rightarrow> set_event \<Rightarrow> Request list" where
  "policySet_watches H forObject plrsEnabled c evt =
     (case evt of
        SetEvent e \<Rightarrow> if policySetPredicateFuncs e then forObject e else []
      | SetPolicyEvent e \<Rightarrow> if policyPredicateFuncs e then mh_policy H policyMapper e else []
      | SetHubEvent (BindingEvent e) \<Rightarrow> if pbPredicateFuncs e then mh_binding H placementBindingMapper e else []
      | SetHubEvent (DecisionEvent e) \<Rightarrow> mh_decision H (placementDecisionMapper c) e
      | SetHubEvent (RuleEvent e) \<Rightarrow> if plrsEnabled then mh_rule H (placementRuleMapper c) e else [])"

lemmas set_requests = policySet_watches_def handlers_ok_def maps_all_def

section \<open>Placements\<close>

lemma policyset_subjects_iff:
  "nn ns s \<in> set (policyset_subjects ns pb) \<longleftrightarrow> hasPolicySetSubject (Some pb) s"
  by (auto simp: policyset_subjects_def hasPolicySetSubject_def list_ex_iff image_iff)

lemma placement_mapped:
  assumes "serves_bindings c pbs" and "pb \<in> set pbs" and "hasPolicySetSubject (Some pb) s" and "HasValidPlacementRef pb"
    and "ref_Kind (pb_PlacementRef pb) = Placement_kind" and "ref_Name (pb_PlacementRef pb) \<noteq> []"
    and "pd_Namespace d = pb_Namespace pb" and "placement_of d = Some (ref_Name (pb_PlacementRef pb))"
  shows "nn (pb_Namespace pb) s \<in> set (placementDecisionMapper c d)"
proof -
  let ?n = "ref_Name (pb_PlacementRef pb)"
  have "pb \<in> set (filter (\<lambda>b. pb_Namespace b = pb_Namespace pb \<and> ?n \<in> set (indexFunc b)) pbs)"
    using assms(2,4,5) by (auto simp: indexFunc_def HasValidPlacementRef_def Let_def split: if_splits)
  moreover have "ref_APIGroup (pb_PlacementRef pb) = ClusterGroup"
    using assms(4,5) by (auto simp: HasValidPlacementRef_def Let_def split: if_splits)
  ultimately show ?thesis
    using assms policyset_subjects_iff [of "pb_Namespace pb" s pb]
    by (auto simp: placementDecisionMapper_def serves_bindings_def map_index_placement Let_def)
qed

lemma rule_mapped:
  assumes "serves_bindings c pbs" and "pb \<in> set pbs" and "hasPolicySetSubject (Some pb) s" and "HasValidPlacementRef pb"
    and "ref_Kind (pb_PlacementRef pb) = PlacementRule_kind"
    and "nn (plr_Namespace r) (plr_Name r) = nn (pb_Namespace pb) (ref_Name (pb_PlacementRef pb))"
  shows "nn (pb_Namespace pb) s \<in> set (placementRuleMapper c r)"
proof -
  have "ref_APIGroup (pb_PlacementRef pb) = AppsGroup"
    using assms(4,5) by (auto simp: HasValidPlacementRef_def Let_def split: if_splits)
  then show ?thesis
    using assms policyset_subjects_iff [of "pb_Namespace pb" s pb]
    by (auto simp: placementRuleMapper_def serves_bindings_def)
qed

lemma set_placement_requested:
  assumes "status_change H c (HubEvent evt) c'" and "serves_bindings c pbs" and "pb \<in> set pbs"
    and "hasPolicySetSubject (Some pb) s" and "ref_Name (pb_PlacementRef pb) \<noteq> []"
    and "GetDecisions c' pb \<noteq> GetDecisions c pb"
  shows "nn (pb_Namespace pb) s \<in> set (policySet_watches H forObject True c' (SetHubEvent evt))"
proof (cases evt)
  case (DecisionEvent e)
  with assms(1) have u: "decision_update c e c'" and H: "handlers_ok H" by (simp_all add: status_change_def)
  then have "serves_bindings c' pbs"
    using assms(2) by (auto simp: decision_update_def serves_bindings_def dest!: arg_cong [of _ _ List_PlacementBindings])
  with decisions_differ [OF u assms(6)] assms(3-5) placement_mapped [of c' pbs pb s] H DecisionEvent
  show ?thesis by (fastforce simp: set_requests)
next
  case (RuleEvent e)
  with assms(1) have u: "rule_update c e c'" and H: "handlers_ok H" by (simp_all add: status_change_def)
  then have "serves_bindings c' pbs"
    using assms(2) by (auto simp: rule_update_def serves_bindings_def dest!: arg_cong [of _ _ List_PlacementBindings])
  moreover have "HasValidPlacementRef pb" by (rule ccontr) (use assms(6) in \<open>simp add: GetDecisions_def\<close>)
  ultimately show ?thesis
    using rules_differ [OF u, of pb "[]"] assms(3,4,6) rule_mapped [of c' pbs pb s] H RuleEvent
    by (fastforce simp: set_requests)
next
  case (BindingEvent e)
  with assms(1) obtain lb where c': "c' = c\<lparr>List_PlacementBindings := lb\<rparr>"
    by (auto simp: status_change_def binding_update_def)
  then have "Get_Placement c' = Get_Placement c" "Get_PlacementRule c' = Get_PlacementRule c"
    "List_PlacementDecisions c' = List_PlacementDecisions c" by simp_all
  then have "GetDecisions c' pb = GetDecisions c pb" by (simp only: GetDecisions_def)
  with assms(6) show ?thesis by simp
qed

section \<open>Policies\<close>

text \<open>A policy none of whose placements is of a set does not request the set.\<close>

lemma unplaced_policy_not_mapped:
  assumes "handlers_ok H"
    and "\<And>x plcmt. x \<in> set (event_objects e) \<Longrightarrow> plcmt \<in> set (items (st_Placement (p_Status x))) \<Longrightarrow> pl_PolicySet plcmt \<noteq> s"
  shows "nn ns s \<notin> set (policySet_watches H forObject plrsEnabled c (SetPolicyEvent e))"
  using assms by (fastforce simp: set_requests policyMapper_def)

lemma no_placements_of_set:
  "(\<And>plcmt. plcmt \<in> set pls \<Longrightarrow> pl_PolicySet plcmt \<noteq> s) \<Longrightarrow> aggregate_placements s pls m = m"
  by (induction pls arbitrary: m) (auto simp: aggregate_placements_def)

lemma no_clusters_no_compliance: "complianceInRelevantClusters ss [] = []"
  by (induction ss) (simp_all add: complianceInRelevantClusters_def note_compliance_def clusterInList_def)

lemma message_differs:
  "getStatusMessage [] [] [p] [] b \<noteq> getStatusMessage [] [p] [] [] b'"
  by (simp add: getStatusMessage_def excluded_note_def Let_def split: if_splits)

section \<open>Property\<close>

text \<open>C26. The status of a policy set can stay wrong when its policy is created: a policy without a placement of
  the set, as every policy is when it is created and stays when the set is not bound, does not
  request the set, although the message of the set's status changes from a deleted policy to one that
  awaits its status.\<close>

theorem set_status_missed:
  assumes "handlers_ok H" and "pss_Policies (set_Spec plcSet) = [p]"
    and "Get_Policy c (nn (set_Namespace plcSet) p) = Inl e"
    and "Get_Policy c' (nn (set_Namespace plcSet) p) = Inr plc" and "\<not> ps_Disabled (p_Spec plc)"
    and "\<forall>plcmt \<in> set (items (st_Placement (p_Status plc))). pl_PolicySet plcmt \<noteq> set_Name plcSet"
  shows "nn (set_Namespace plcSet) (set_Name plcSet) \<notin>
      set (policySet_watches H forObject plrsEnabled c' (SetPolicyEvent (CreateEvent plc))) \<and>
    pst_StatusMessage (fst (builtStatus order c' plcSet)) \<noteq> pst_StatusMessage (fst (builtStatus order c plcSet))"
proof
  show "nn (set_Namespace plcSet) (set_Name plcSet) \<notin>
      set (policySet_watches H forObject plrsEnabled c' (SetPolicyEvent (CreateEvent plc)))"
    using assms(6) by (intro unplaced_policy_not_mapped [OF assms(1)]) auto
  have "aggregate_placements (set_Name plcSet) (items (st_Placement (p_Status plc))) m = m" for m
    using assms(6) by (intro no_placements_of_set) auto
  then have "pst_StatusMessage (fst (builtStatus order c' plcSet)) =
      getStatusMessage [] [p] [] [] (0 < length (buildPolicySetExclusionsStatus (Some plcSet)))"
    using assms(2,4,5)
    by (simp add: builtStatus_def process_child_def pset_loop_start_def no_clusters_no_compliance Let_def)
  moreover have "pst_StatusMessage (fst (builtStatus order c plcSet)) =
      getStatusMessage [] [] [p] [] (0 < length (buildPolicySetExclusionsStatus (Some plcSet)))"
    using assms(2,3) by (simp add: builtStatus_def process_child_def pset_loop_start_def Let_def)
  ultimately show "pst_StatusMessage (fst (builtStatus order c' plcSet)) \<noteq> pst_StatusMessage (fst (builtStatus order c plcSet))"
    using message_differs by metis
qed

theorem set_status_missed_witness:
  "nn ''ns'' ''s'' \<notin> set (policySet_watches ex_handlers (\<lambda>_. []) True ex_reader (SetPolicyEvent (CreateEvent ex_root))) \<and>
   pst_StatusMessage (fst (builtStatus id ex_reader ex_set)) \<noteq> pst_StatusMessage (fst (builtStatus id empty_reader ex_set))"
  using set_status_missed [OF ex_handlers_ok, of ex_set "''p''" empty_reader "ApiStatus NotFound" ex_reader ex_root
      "\<lambda>_. []" True id]
  by (simp add: ex_reader_def empty_reader_def ex_objects)

end
