(* ===== verification/Decision_Agreement.thy ===== *)
theory Decision_Agreement
  imports Cluster_Decision
begin

text \<open>
  The replicated policy controller decides for one cluster (\<open>singleClusterDecision\<close>), the root policy
  controllers for all of them at once (\<open>GetClusterDecisions\<close>). The theory relates the two loops: what the
  first places the second decides.
\<close>

section \<open>The subject loops\<close>

text \<open>A subject that places the policy leaves a placement in the subject loop of the status update.\<close>

lemma subject_loop_places:
  assumes "foldE (subject_placements c inst pb) ss (f, sets, pls) = Inr (f', sets', pls')"
    and "f \<longrightarrow> pls \<noteq> []"
    and "\<forall>n \<in> set sets. (\<exists>ps. Get_PolicySet c (nn (pb_Namespace pb) n) = Inr ps \<and>
           IsPolicyInPolicySet (Some ps) (p_Name inst)) \<longrightarrow> pls \<noteq> []"
    and "pls \<noteq> [] \<or> (\<exists>s \<in> set ss. subject_places c (pb_Namespace pb) s (p_Name inst) cl)"
  shows "pls' \<noteq> []"
  using assms
proof (induction ss arbitrary: f sets pls)
  case Nil
  then show ?case by simp
next
  case (Cons s ss)
  from Cons.prems(1) obtain f1 sets1 pls1 where
    one: "subject_placements c inst pb s (f, sets, pls) = Inr (f1, sets1, pls1)" and
    rest: "foldE (subject_placements c inst pb) ss (f1, sets1, pls1) = Inr (f', sets', pls')"
    by (auto split: sum.splits)
  have grow: "pls \<noteq> [] \<Longrightarrow> pls1 \<noteq> []"
    using one by (auto simp: subject_placements_def split: if_splits sum.splits)
  have f1: "f1 \<longrightarrow> pls1 \<noteq> []"
    using one Cons.prems(2) by (auto simp: subject_placements_def split: if_splits sum.splits)
  have sets1: "\<forall>n \<in> set sets1. (\<exists>ps. Get_PolicySet c (nn (pb_Namespace pb) n) = Inr ps \<and>
           IsPolicyInPolicySet (Some ps) (p_Name inst)) \<longrightarrow> pls1 \<noteq> []"
    using one Cons.prems(3)
    by (auto simp: subject_placements_def GetPolicySet_def split: if_splits sum.splits)
  have "subject_places c (pb_Namespace pb) s (p_Name inst) cl \<Longrightarrow> pls1 \<noteq> []"
    using one Cons.prems(2,3)
    by (auto simp: subject_placements_def subject_places_def GetPolicySet_def split: if_splits sum.splits)
  with Cons.prems(4) grow
  have "pls1 \<noteq> [] \<or> (\<exists>s \<in> set ss. subject_places c (pb_Namespace pb) s (p_Name inst) cl)" by auto
  from Cons.IH [OF rest f1 sets1 this] show ?case .
qed

lemma foldE_gather_unrestricted_ok:
  "foldE (gather_unrestricted c rootPlc) pbs st = Inr st' \<Longrightarrow> pb \<in> set pbs \<Longrightarrow> pb_SubFilter pb \<noteq> Restricted \<Longrightarrow>
     \<exists>r. GetPolicyPlacementDecisions c rootPlc pb = Inr r"
  by (induction pbs arbitrary: st) (auto simp: gather_unrestricted_def split: sum.splits prod.splits)

lemma placed_policy_decisions:
  assumes "GetPolicyPlacementDecisions c rootPlc pb = Inr r" and "\<not> ps_Disabled (p_Spec rootPlc)"
    and "HasValidPlacementRef pb" and "\<exists>s \<in> set (pb_Subjects pb). subject_places c (pb_Namespace pb) s (p_Name rootPlc) cl"
    and "GetDecisions c pb = Inr ds" and "cl \<in> set ds"
  shows "cl \<in> set (policy_decisions c rootPlc pb)"
proof -
  from assms(1) obtain f sets pls where
    l: "foldE (subject_placements c rootPlc pb) (pb_Subjects pb) (False, [], []) = Inr (f, sets, pls)"
    by (auto simp: GetPolicyPlacementDecisions_def split: sum.splits)
  have "pls \<noteq> []" using subject_loop_places [OF l _ _ disjI2 [OF assms(4)]] by simp
  moreover have "name_placements c pb pls = Inr pls1 \<Longrightarrow> length pls1 = length pls" for pls1
    by (auto simp: name_placements_def Let_def split: sum.splits if_splits)
  ultimately show ?thesis using assms l
    by (fastforce simp: policy_decisions_def GetPolicyPlacementDecisions_def split: sum.splits if_splits)
qed

text \<open>A cluster to which the replicated policy controller places the policy is decided.\<close>

lemma placed_decided:
  assumes "singleClusterDecision c rootPlc cl = Inr dec" and "dec_Cluster dec \<noteq> []"
    and "GetClusterDecisions c rootPlc = Inr (pls, d)" and "\<not> ps_Disabled (p_Spec rootPlc)"
    and "no_unnamed_decisions c"
  shows "dec_Cluster dec = cl" and "cl \<in> decided d"
proof -
  from assms(3) obtain pbs st where l: "List_PlacementBindings c [InNamespace (p_Namespace rootPlc)] = Inr pbs"
    and g: "foldE (gather_unrestricted c rootPlc) pbs ([], []) = Inr st"
    by (auto simp: GetClusterDecisions_def split: sum.splits)
  from singleClusterDecision_cluster [OF assms(1) l] assms(2) obtain pb where
    pb: "pb \<in> set pbs" "pb_SubFilter pb \<noteq> Restricted" "isSingleClusterInDecisions c pb (p_Name rootPlc) cl = Inr True"
    and cl: "dec_Cluster dec = cl"
    by (auto simp: found_on_def split: if_splits)
  note found = isSingleClusterInDecisions_True [OF pb(3) assms(5)]
  obtain r where r: "GetPolicyPlacementDecisions c rootPlc pb = Inr r"
    using foldE_gather_unrestricted_ok [OF g pb(1,2)] by blast
  from found(3) placed_policy_decisions [OF r assms(4) found(1,2)]
  have "cl \<in> set (policy_decisions c rootPlc pb)" by blast
  with pb(1) cl GetClusterDecisions_result(3) [OF assms(3) l, of cl]
  show "dec_Cluster dec = cl" "cl \<in> decided d" by blast+
qed

end
