(* ===== verification/Propagation_Pipeline.thy ===== *)
theory Propagation_Pipeline
  imports Status_Coverage Replicated_Reconcile Decision_Agreement
begin

text \<open>
  The propagation pipeline: the root policy controller
  (\<^verbatim>\<open>controllers/propagator/rootpolicy_setup.go\<close>), the managed cluster controller and the replicated policy
  controller (\<^verbatim>\<open>controllers/propagator/replicatedpolicy_setup.go\<close>) with their watches, their work queues and the
  channel \<^verbatim>\<open>ReplicatedPolicyUpdates\<close> between them, over any interleaving of events and reconciles. What a
  cluster should have is \<open>desired_content\<close>; the pipeline is up to date when every replica was last reconciled
  with the content desired now or a request is on its way in one of the queues. The pipeline does not
  see changes of policy sets: \<open>status_first_orphans\<close> shows a race that loses them.
\<close>

section \<open>The watches\<close>

text \<open>A predicate without a \<^verbatim>\<open>GenericFunc\<close> lets a generic event pass.\<close>

fun rootPolicyNonStatusUpdates :: "Policy event \<Rightarrow> bool" where
  "rootPolicyNonStatusUpdates (CreateEvent p) = rootPolicy_CreateFunc (p_ObjectMeta p)"
| "rootPolicyNonStatusUpdates (DeleteEvent p) = rootPolicy_DeleteFunc (p_ObjectMeta p)"
| "rootPolicyNonStatusUpdates (UpdateEvent p p') = rootPolicy_UpdateFunc (p_ObjectMeta p) (p_ObjectMeta p')"
| "rootPolicyNonStatusUpdates (GenericEvent p) = True"

fun managedClusterLifecycleChanges :: "ManagedCluster event \<Rightarrow> bool" where
  "managedClusterLifecycleChanges (CreateEvent mc) = True"
| "managedClusterLifecycleChanges (DeleteEvent mc) = True"
| "managedClusterLifecycleChanges (UpdateEvent mc mc') = managedCluster_UpdateFunc mc mc'"
| "managedClusterLifecycleChanges (GenericEvent mc) = True"

fun EnqueueRequestsFromPolicySet :: "PolicySet event \<Rightarrow> Request list" where
  "EnqueueRequestsFromPolicySet (CreateEvent s) = EnqueueRequestsFromPolicySet_Create s"
| "EnqueueRequestsFromPolicySet (UpdateEvent s s') = EnqueueRequestsFromPolicySet_Update s s'"
| "EnqueueRequestsFromPolicySet (DeleteEvent s) = EnqueueRequestsFromPolicySet_Delete s"
| "EnqueueRequestsFromPolicySet (GenericEvent s) = mapPolicySetToRequests s"

text \<open>
  The handler of \<^verbatim>\<open>For\<close> (\<^verbatim>\<open>EnqueueRequestForObject\<close>) is the controller runtime's and a parameter; what is
  relied on is its documentation: it requests the object that the event is about.
\<close>

definition enqueues_object :: "('o \<Rightarrow> Request) \<Rightarrow> ('o event \<Rightarrow> Request list) \<Rightarrow> bool" where
  "enqueues_object key F \<longleftrightarrow>
     (\<forall>evt k. (\<forall>x \<in> set (event_objects evt). key x = k) \<longrightarrow> set (F evt) = {k})"

datatype root_event = RootEvent "Policy event" | SetEvent "PolicySet event"

definition rootPolicy_watches :: "(Policy event \<Rightarrow> Request list) \<Rightarrow> root_event \<Rightarrow> Request list" where
  "rootPolicy_watches F evt =
     (case evt of
        RootEvent e \<Rightarrow> if rootPolicyNonStatusUpdates e then F e else []
      | SetEvent e \<Rightarrow> EnqueueRequestsFromPolicySet e)"

definition managedCluster_watches :: "(ManagedCluster event \<Rightarrow> Request list) \<Rightarrow> ManagedCluster event \<Rightarrow> Request list" where
  "managedCluster_watches G evt = (if managedClusterLifecycleChanges evt then G evt else [])"

abbreviation policy_key :: "Policy \<Rightarrow> Request" where
  "policy_key p \<equiv> nn (p_Namespace p) (p_Name p)"

abbreviation cluster_key :: "ManagedCluster \<Rightarrow> Request" where
  "cluster_key mc \<equiv> nn [] (mc_Name mc)"

section \<open>What a cluster should have\<close>

text \<open>
  The content of a replicated policy before the hub templates are resolved: what the comparison of
  replicated policies looks at and the type. The content desired for a root policy on a cluster follows the
  reconciler; no content means no replica.
\<close>

type_synonym replica_content = "TypeMeta \<times> (string, string) fmap \<times> (string, string) fmap \<times> PolicySpec"

definition content_of :: "Policy \<Rightarrow> replica_content" where
  "content_of p = (p_TypeMeta p, raw_map (p_Labels p), raw_map (p_Annotations p), p_Spec p)"

definition desired_content :: "client_reader \<Rightarrow> Request \<Rightarrow> string \<Rightarrow> goerr + replica_content option" where
  "desired_content c key cl =
     (case Get_Policy c key of
        Inl e \<Rightarrow> if IsNotFound e then Inr None else Inl e
      | Inr rootPlc \<Rightarrow>
          if ps_Disabled (p_Spec rootPlc) then Inr None
          else (case singleClusterDecision c rootPlc cl of
                  Inl e \<Rightarrow> Inl e
                | Inr dec \<Rightarrow>
                    if dec_Cluster dec = [] then Inr None
                    else (case fst (buildReplicatedPolicy c rootPlc dec) of
                            Inl e \<Rightarrow> Inl e
                          | Inr rep \<Rightarrow> Inr (Some (content_of rep)))))"

text \<open>A reconcile that returns no error has a desired content.\<close>

lemma reconcile_desired:
  assumes "ReplicatedPolicy_Reconcile R r st = ((res, None), st')"
    and "ParseRootPolicyLabel (nn_Name r) = Inr (rootName, rootNS)"
  shows "\<exists>v. desired_content (api_read (rc_api R) (pr_world st)) (nn rootNS rootName) (nn_Namespace r) = Inr v"
  using assms
  by (auto simp: ReplicatedPolicy_Reconcile_def reconcile_request_def desired_content_def replicate_to_cluster_def
      Let_def split: sum.splits prod.splits if_splits)

section \<open>The pipeline\<close>

text \<open>
  The cache, the three work queues, and for every root policy and cluster the content with which the
  replica was last reconciled. The channel is drained into the queue of the replicated policies.
\<close>

record pipeline =
  pi_hub :: client_reader
  pi_roots :: "Request set"
  pi_clusters :: "Request set"
  pi_replicas :: "Request set"
  pi_acted :: "Request \<times> string \<Rightarrow> replica_content option"

text \<open>What is relied on of the cache: the laws of the watches, and a missing object is the only error.\<close>

definition cache_ok :: "client_reader \<Rightarrow> bool" where
  "cache_ok c \<longleftrightarrow> (\<exists>pbs. serves_bindings c pbs) \<and> answers c \<and> no_unnamed_decisions c \<and>
     gets_policies_by_name c \<and> (\<forall>k e. Get_Policy c k = Inl e \<longrightarrow> IsNotFound e)"

text \<open>
  The events of policies. What is relied on of the API server: an update keeps the name and the type, and
  the generation changes with the spec. What is relied on of the users: only the policies in cluster
  namespaces carry the label of a replicated policy.
\<close>

definition root_event_ok :: "client_reader \<Rightarrow> Policy event \<Rightarrow> bool" where
  "root_event_ok c evt \<longleftrightarrow>
     (\<forall>x \<in> set (event_objects evt). IsInClusterNamespace c (p_Namespace x) = Inr False \<longrightarrow>
        \<not> map_has (p_Labels x) RootPolicyLabel) \<and>
     (\<forall>p p'. evt = UpdateEvent p p' \<longrightarrow> policy_key p' = policy_key p \<and> p_TypeMeta p' = p_TypeMeta p \<and>
        (om_Generation (p_ObjectMeta p') = om_Generation (p_ObjectMeta p) \<longrightarrow> p_Spec p' = p_Spec p))"

definition policy_change :: "client_reader \<Rightarrow> Policy event \<Rightarrow> client_reader \<Rightarrow> bool" where
  "policy_change c evt c' \<longleftrightarrow>
     (\<exists>ps ps'. cache_change ps evt ps' \<and> serves_policies c ps \<and> serves_policies c' ps' \<and>
        distinct (map policy_key ps) \<and> distinct (map policy_key ps')) \<and>
     c' = c\<lparr>Get_Policy := Get_Policy c', List_Policies := List_Policies c'\<rparr> \<and> root_event_ok c evt"

text \<open>An update of a managed cluster; the clusters stay the same.\<close>

definition cluster_change :: "client_reader \<Rightarrow> ManagedCluster event \<Rightarrow> client_reader \<Rightarrow> bool" where
  "cluster_change c evt c' \<longleftrightarrow>
     (\<exists>mc mc' mcs mcs'. evt = UpdateEvent mc mc' \<and> mc_Name mc' = mc_Name mc \<and>
        Get_ManagedCluster c (mc_Name mc) = Inr mc \<and>
        List_ManagedClusters c = Inr mcs \<and> mc_Name ` set mcs' = mc_Name ` set mcs \<and>
        c' = c\<lparr>Get_ManagedCluster := (Get_ManagedCluster c)(mc_Name mc := Inr mc'), List_ManagedClusters := Inr mcs'\<rparr>)"

text \<open>The lists of the cache have every replica that was written, by its label and by its namespace.\<close>

definition caught_up :: "pipeline \<Rightarrow> bool" where
  "caught_up s \<longleftrightarrow>
     (\<forall>key cl. pi_acted s (key, cl) \<noteq> None \<longrightarrow>
        (\<exists>ps. List_Policies (pi_hub s) [MatchingLabels RootPolicyLabel (nn_Namespace key @ ''.'' @ nn_Name key)] = Inr ps \<and>
           (\<exists>p \<in> set ps. policy_key p = rep_request key cl)) \<and>
        (\<exists>ps. List_Policies (pi_hub s) [InNamespace cl] = Inr ps \<and>
           (\<exists>p \<in> set ps. policy_key p = rep_request key cl \<and> map_has (p_Labels p) RootPolicyLabel)))"

text \<open>
  The steps. An event changes the cache and requests what its watch maps it to; a reconcile that returns no
  error takes its request off the queue, and what it sent to the channel is requested; one that fails
  leaves its request. Every request can come at any moment besides (a retry, a resync, the watches of the
  replicated policies themselves, of templates and dependencies).
\<close>

inductive pipeline_step ::
  "('k, 'r) reconciler \<Rightarrow> (Policy event \<Rightarrow> Request list) \<Rightarrow> (ManagedCluster event \<Rightarrow> Request list) \<Rightarrow>
   pipeline \<Rightarrow> pipeline \<Rightarrow> bool" for R F G where
  hub_event: "hub_change (pi_hub s) evt c' \<Longrightarrow> cache_ok c' \<Longrightarrow>
    pipeline_step R F G s (s\<lparr>pi_hub := c', pi_replicas := pi_replicas s \<union> set (replicatedPolicy_watches True c' evt)\<rparr>)"
| policy_event: "policy_change (pi_hub s) e c' \<Longrightarrow> cache_ok c' \<Longrightarrow>
    pipeline_step R F G s (s\<lparr>pi_hub := c', pi_roots := pi_roots s \<union> set (rootPolicy_watches F (RootEvent e))\<rparr>)"
| cluster_event: "cluster_change (pi_hub s) m c' \<Longrightarrow> cache_ok c' \<Longrightarrow>
    pipeline_step R F G s (s\<lparr>pi_hub := c', pi_clusters := pi_clusters s \<union> set (managedCluster_watches G m)\<rparr>)"
| root_reconcile: "key \<in> pi_roots s \<Longrightarrow> caught_up s \<Longrightarrow> api_read (rc_api R) (hub_world h) = pi_hub s \<Longrightarrow>
    hub_updates h = [] \<Longrightarrow> RootPolicy_Reconcile (rc_api R) key h = ((res, None), h') \<Longrightarrow>
    pipeline_step R F G s (s\<lparr>pi_roots := pi_roots s - {key},
      pi_replicas := pi_replicas s \<union> event_request ` set (hub_updates h')\<rparr>)"
| cluster_reconcile: "r \<in> pi_clusters s \<Longrightarrow> caught_up s \<Longrightarrow> api_read (rc_api R) (hub_world h) = pi_hub s \<Longrightarrow>
    hub_updates h = [] \<Longrightarrow> ManagedClusterPolicy_Reconcile (rc_api R) (nn_Name r) h = ((res, None), h') \<Longrightarrow>
    pipeline_step R F G s (s\<lparr>pi_clusters := pi_clusters s - {r},
      pi_replicas := pi_replicas s \<union> event_request ` set (hub_updates h')\<rparr>)"
| replica_reconcile: "r \<in> pi_replicas s \<Longrightarrow> api_read (rc_api R) (pr_world st) = pi_hub s \<Longrightarrow>
    ReplicatedPolicy_Reconcile R r st = ((res, None), st') \<Longrightarrow>
    ParseRootPolicyLabel (nn_Name r) = Inr (rootName, rootNS) \<Longrightarrow>
    desired_content (pi_hub s) (nn rootNS rootName) (nn_Namespace r) = Inr v \<Longrightarrow>
    pipeline_step R F G s (s\<lparr>pi_replicas := pi_replicas s - {r},
      pi_acted := (pi_acted s)((nn rootNS rootName, nn_Namespace r) := v)\<rparr>)"
| replica_rejected: "r \<in> pi_replicas s \<Longrightarrow> ParseRootPolicyLabel (nn_Name r) = Inl err \<Longrightarrow>
    pipeline_step R F G s (s\<lparr>pi_replicas := pi_replicas s - {r}\<rparr>)"
| requested: "pipeline_step R F G s (s\<lparr>pi_roots := pi_roots s \<union> A, pi_clusters := pi_clusters s \<union> B,
      pi_replicas := pi_replicas s \<union> C\<rparr>)"

inductive pipeline_run ::
  "('k, 'r) reconciler \<Rightarrow> (Policy event \<Rightarrow> Request list) \<Rightarrow> (ManagedCluster event \<Rightarrow> Request list) \<Rightarrow>
   pipeline \<Rightarrow> pipeline \<Rightarrow> bool" for R F G where
  start: "pipeline_run R F G s s"
| step: "pipeline_run R F G s s' \<Longrightarrow> pipeline_step R F G s' s'' \<Longrightarrow> pipeline_run R F G s s''"

section \<open>What the desired content depends on\<close>

lemma decision_of_name:
  assumes "p_Name p = p_Name q" and "p_Namespace p = p_Namespace q"
  shows "singleClusterDecision c p cl = singleClusterDecision c q cl"
proof -
  have "views c p cl = views c q cl" by (intro ext) (simp add: views_def view_def [abs_def] assms(1))
  then show ?thesis by (intro decision_of_hub_view) (simp only: hub_view_def assms(2))
qed

lemma decision_cluster:
  assumes "cache_ok c" and "singleClusterDecision c p cl = Inr dec"
  shows "dec_Cluster dec = cl \<or> dec_Cluster dec = []"
proof -
  from assms(1) obtain pbs where "List_PlacementBindings c [InNamespace (p_Namespace p)] = Inr pbs"
    unfolding cache_ok_def serves_bindings_def by blast
  from singleClusterDecision_cluster [OF assms(2) this] show ?thesis by (auto split: if_splits)
qed

lemma canonicalize_cong:
  assumes "Get_PolicySet c' = Get_PolicySet c"
  shows "canonicalizeDependencies c' ds ns = canonicalizeDependencies c ds ns"
    and "canonicalizeTemplates c' ns ts = canonicalizeTemplates c ns ts"
proof -
  have "canonicalizeDependency c' = canonicalizeDependency c"
    by (intro ext) (simp only: canonicalizeDependency_def assms)
  then have deps: "canonicalizeDependencies c' = canonicalizeDependencies c"
    by (intro ext) (simp only: canonicalizeDependencies_def)
  then show "canonicalizeDependencies c' ds ns = canonicalizeDependencies c ds ns" by simp
  show "canonicalizeTemplates c' ns ts = canonicalizeTemplates c ns ts"
    by (induction ts) (simp_all add: deps split: sum.splits)
qed

lemma build_cong:
  assumes "Get_PolicySet c' = Get_PolicySet c" and "Get_ManagedCluster c' (dec_Cluster dec) = Get_ManagedCluster c (dec_Cluster dec)"
  shows "buildReplicatedPolicy c' p dec = buildReplicatedPolicy c p dec"
  by (simp only: buildReplicatedPolicy_def canonicalize_cong [OF assms(1)] assms(2) Let_def)

text \<open>The same root policy up to the representation of its maps and its status has the same content.\<close>

lemma build_content:
  assumes "p_TypeMeta q = p_TypeMeta p" "p_Name q = p_Name p" "p_Namespace q = p_Namespace p" "p_Spec q = p_Spec p"
    and "map_sem_eq (p_Labels p) (p_Labels q)" "map_sem_eq (p_Annotations p) (p_Annotations q)"
  shows "(case fst (buildReplicatedPolicy c q dec) of Inl e \<Rightarrow> Inl e | Inr rep \<Rightarrow> Inr (Some (content_of rep))) =
    (case fst (buildReplicatedPolicy c p dec) of Inl e \<Rightarrow> Inl e | Inr rep \<Rightarrow> Inr (Some (content_of rep)))"
proof -
  have "keep_metadata q (p_Labels q) = keep_metadata p (p_Labels p)"
    "keep_metadata q (p_Annotations q) = keep_metadata p (p_Annotations p)"
    "FullNameForPolicy q = FullNameForPolicy p"
    using assms by (simp_all only: keep_metadata_def map_sem_eq_def FullNameForPolicy_def)
  with assms show ?thesis
    by (simp add: buildReplicatedPolicy_def content_of_def Let_def split: sum.splits)
qed

lemma desired_content_cong:
  assumes "Get_Policy c' key = Get_Policy c key"
    and "\<And>p. Get_Policy c key = Inr p \<Longrightarrow> singleClusterDecision c' p cl = singleClusterDecision c p cl"
    and "\<And>p dec. Get_Policy c key = Inr p \<Longrightarrow> singleClusterDecision c p cl = Inr dec \<Longrightarrow> dec_Cluster dec \<noteq> [] \<Longrightarrow>
      buildReplicatedPolicy c' p dec = buildReplicatedPolicy c p dec"
  shows "desired_content c' key cl = desired_content c key cl"
  using assms by (auto simp: desired_content_def split: sum.splits)

section \<open>The invariant\<close>

text \<open>
  The replicas the invariant speaks of: of a root policy outside the cluster namespaces, whose namespace
  has no dot, on a managed cluster.
\<close>

definition pipeline_scope :: "client_reader \<Rightarrow> Request \<Rightarrow> string \<Rightarrow> bool" where
  "pipeline_scope c key cl \<longleftrightarrow> CHR ''.'' \<notin> set (nn_Namespace key) \<and> nn_Name key \<noteq> [] \<and>
     IsInClusterNamespace c (nn_Namespace key) = Inr False \<and> cl \<noteq> [] \<and>
     (\<exists>mcs. List_ManagedClusters c = Inr mcs \<and> cl \<in> mc_Name ` set mcs)"

definition unplaced :: "client_reader \<Rightarrow> Request \<Rightarrow> string \<Rightarrow> bool" where
  "unplaced c key cl \<longleftrightarrow>
     (\<exists>p dec. policy_key p = key \<and> singleClusterDecision c p cl = Inr dec \<and> dec_Cluster dec = [])"

text \<open>
  A replica is current or a request that revisits it is queued, in one of the three queues; a replica
  whose placement is lost is in the last queue already, as a root policy's reconcile would not find it.
\<close>

definition replica_current :: "pipeline \<Rightarrow> Request \<Rightarrow> string \<Rightarrow> bool" where
  "replica_current s key cl \<longleftrightarrow> rep_request key cl \<in> pi_replicas s \<or>
     desired_content (pi_hub s) key cl = Inr (pi_acted s (key, cl)) \<or> key \<in> pi_roots s \<or>
     (nn [] cl \<in> pi_clusters s \<and> pi_acted s (key, cl) \<noteq> None)"

definition orphan_requested :: "pipeline \<Rightarrow> Request \<Rightarrow> string \<Rightarrow> bool" where
  "orphan_requested s key cl \<longleftrightarrow>
     (pi_acted s (key, cl) \<noteq> None \<longrightarrow> unplaced (pi_hub s) key cl \<longrightarrow> rep_request key cl \<in> pi_replicas s)"

definition pipeline_inv :: "pipeline \<Rightarrow> Request \<Rightarrow> string \<Rightarrow> bool" where
  "pipeline_inv s key cl \<longleftrightarrow> cache_ok (pi_hub s) \<and>
     (pipeline_scope (pi_hub s) key cl \<longrightarrow> replica_current s key cl \<and> orphan_requested s key cl)"

lemmas pipeline_inv_defs = pipeline_inv_def replica_current_def orphan_requested_def

lemma decision_reads:
  assumes "Get_PolicySet c' = Get_PolicySet c" "Get_Placement c' = Get_Placement c"
    "Get_PlacementRule c' = Get_PlacementRule c" "List_PlacementDecisions c' = List_PlacementDecisions c"
    "List_PlacementBindings c' = List_PlacementBindings c"
  shows "singleClusterDecision c' p cl = singleClusterDecision c p cl"
proof -
  have "subject_found c' = subject_found c" by (intro ext) (rule subject_found_cong [OF assms(1)])
  then have "isSingleClusterInDecisions c' = isSingleClusterInDecisions c"
    by (intro ext) (simp only: isSingleClusterInDecisions_def assms)
  then have "views c' = views c" by (intro ext) (simp add: views_def view_def [abs_def])
  then show ?thesis by (intro decision_of_hub_view) (simp only: hub_view_def assms(5))
qed

lemma unplaced_iff:
  assumes "policy_key p = key" and "singleClusterDecision c p cl = Inr dec"
  shows "unplaced c key cl \<longleftrightarrow> dec_Cluster dec = []"
proof
  assume "unplaced c key cl"
  then obtain q dec' where q: "policy_key q = key" "singleClusterDecision c q cl = Inr dec'" "dec_Cluster dec' = []"
    by (auto simp: unplaced_def)
  from q(1) assms(1) have "p_Name q = p_Name p" "p_Namespace q = p_Namespace p" by auto
  from decision_of_name [OF this, of c cl] q assms(2) show "dec_Cluster dec = []" by simp
qed (use assms in \<open>auto simp: unplaced_def\<close>)

text \<open>The desired content in the cases of the reconciler.\<close>

lemma desired_unplaced:
  assumes "cache_ok c" and "desired_content c key cl = Inr (Some v)"
  shows "\<not> unplaced c key cl"
proof -
  from assms(2) obtain p dec where p: "Get_Policy c key = Inr p" "singleClusterDecision c p cl = Inr dec"
    "dec_Cluster dec \<noteq> []"
    by (auto simp: desired_content_def split: sum.splits if_splits)
  with assms(1) have "policy_key p = key" by (auto simp: cache_ok_def gets_policies_by_name_def)
  with p show ?thesis by (simp add: unplaced_iff)
qed

subsection \<open>Placements and bindings\<close>

lemma hub_change_reads:
  assumes "hub_change c evt c'"
  shows "Get_Policy c' = Get_Policy c" "Get_PolicySet c' = Get_PolicySet c" "Get_ManagedCluster c' = Get_ManagedCluster c"
    "List_ManagedClusters c' = List_ManagedClusters c"
proof -
  consider ld where "c' = c\<lparr>List_PlacementDecisions := ld\<rparr>" | lb where "c' = c\<lparr>List_PlacementBindings := lb\<rparr>"
    | g where "c' = c\<lparr>Get_PlacementRule := g\<rparr>"
    using assms unfolding hub_change_def decision_change_def binding_change_def rule_change_def
    by (cases evt) auto
  then have "Get_Policy c' = Get_Policy c \<and> Get_PolicySet c' = Get_PolicySet c \<and>
      Get_ManagedCluster c' = Get_ManagedCluster c \<and> List_ManagedClusters c' = List_ManagedClusters c"
    by cases simp_all
  then show "Get_Policy c' = Get_Policy c" "Get_PolicySet c' = Get_PolicySet c" "Get_ManagedCluster c' = Get_ManagedCluster c"
    "List_ManagedClusters c' = List_ManagedClusters c" by simp_all
qed

lemma hub_event_unrequested:
  assumes "hub_change c evt c'" and "cache_ok c" and "pipeline_scope c' key cl"
    and "rep_request key cl \<notin> set (replicatedPolicy_watches True c' evt)"
  shows "desired_content c' key cl = desired_content c key cl" and "unplaced c' key cl \<longleftrightarrow> unplaced c key cl"
proof -
  note reads = hub_change_reads [OF assms(1)]
  have same: "singleClusterDecision c' p cl = singleClusterDecision c p cl" if "policy_key p = key" for p
  proof -
    have "managed_scope c' p cl" using assms(3) that by (auto simp: managed_scope_def pipeline_scope_def)
    moreover have "nn cl (FullNameForPolicy p) = rep_request key cl"
      using that by (auto simp: rep_request_def FullNameForPolicy_def)
    ultimately show ?thesis using hw.changed_requested [OF assms(1), of p cl] assms(4) by metis
  qed
  have "policy_key p = key" if "Get_Policy c key = Inr p" for p
    using that assms(2) by (auto simp: cache_ok_def gets_policies_by_name_def)
  with same show "desired_content c' key cl = desired_content c key cl"
    by (intro desired_content_cong build_cong) (simp_all add: reads)
  from same show "unplaced c' key cl \<longleftrightarrow> unplaced c key cl" unfolding unplaced_def by metis
qed

subsection \<open>Policies\<close>

lemma served_policy:
  assumes "serves_policies c ps" and "distinct (map policy_key ps)" and "p \<in> set ps"
  shows "Get_Policy c (policy_key p) = Inr p"
proof -
  have "find (\<lambda>q. policy_key q = policy_key p) ps = Some p"
    using assms(2,3) by (induction ps) (auto simp: image_iff)
  with assms(1) show ?thesis by (simp add: serves_policies_def)
qed

lemma unserved_policy:
  assumes "serves_policies c ps" and "key \<notin> policy_key ` set ps"
  shows "Get_Policy c key = Inl (ApiStatus NotFound)"
proof -
  have "find (\<lambda>q. policy_key q = key) ps = None" using assms(2) by (auto simp: find_None_iff)
  with assms(1) show ?thesis by (simp add: serves_policies_def)
qed


lemma policy_change_reads:
  assumes "policy_change c evt c'"
  shows "singleClusterDecision c' = singleClusterDecision c" "buildReplicatedPolicy c' = buildReplicatedPolicy c"
    "IsInClusterNamespace c' = IsInClusterNamespace c" "List_ManagedClusters c' = List_ManagedClusters c"
proof -
  from assms obtain g l where c': "c' = c\<lparr>Get_Policy := g, List_Policies := l\<rparr>" unfolding policy_change_def by blast
  show "singleClusterDecision c' = singleClusterDecision c" by (intro ext decision_reads) (simp_all add: c')
  show "buildReplicatedPolicy c' = buildReplicatedPolicy c" by (intro ext build_cong) (simp_all add: c')
  show "IsInClusterNamespace c' = IsInClusterNamespace c" by (intro ext) (simp add: IsInClusterNamespace_def c')
  show "List_ManagedClusters c' = List_ManagedClusters c" by (simp add: c')
qed

lemma root_event_requested:
  assumes "enqueues_object policy_key F" and "rootPolicyNonStatusUpdates evt"
    and "\<And>x. x \<in> set (event_objects evt) \<Longrightarrow> policy_key x = key"
  shows "key \<in> set (rootPolicy_watches F (RootEvent evt))"
proof -
  have "set (F evt) = {key}" using assms(1,3) unfolding enqueues_object_def by blast
  then show ?thesis using assms(2) by (simp add: rootPolicy_watches_def)
qed

text \<open>An update that the predicate drops leaves the desired content as it is.\<close>

lemma update_same_content:
  assumes "Get_Policy c key = Inr p" "Get_Policy c' key = Inr p'" "policy_key p = key"
    and "root_event_ok c (UpdateEvent p p')" "\<not> non_status_change (p_ObjectMeta p) (p_ObjectMeta p')"
    and "singleClusterDecision c' = singleClusterDecision c" "buildReplicatedPolicy c' = buildReplicatedPolicy c"
  shows "desired_content c' key cl = desired_content c key cl"
proof -
  have same: "p_TypeMeta p' = p_TypeMeta p" "p_Name p' = p_Name p" "p_Namespace p' = p_Namespace p" "p_Spec p' = p_Spec p"
    "map_sem_eq (p_Labels p) (p_Labels p')" "map_sem_eq (p_Annotations p) (p_Annotations p')"
    using assms(4,5) by (auto simp: root_event_ok_def non_status_change_def)
  have "singleClusterDecision c' p' cl = singleClusterDecision c p cl"
    unfolding assms(6) by (rule decision_of_name [OF same(2,3)])
  then show ?thesis
    unfolding desired_content_def assms(1,2,7) sum.case same(4) build_content [OF same] by simp
qed

lemma policy_event_unrequested:
  assumes "policy_change c evt c'" and "pipeline_scope c key cl" and "enqueues_object policy_key F"
    and "key \<notin> set (rootPolicy_watches F (RootEvent evt))"
  shows "desired_content c' key cl = desired_content c key cl"
proof (cases "\<exists>x \<in> set (event_objects evt). policy_key x = key")
  case False
  from assms(1) obtain ps ps' where ps: "cache_change ps evt ps'" "serves_policies c ps" "serves_policies c' ps'"
    unfolding policy_change_def by blast
  from cache_change_filter [OF ps(1), of "\<lambda>p. policy_key p = key"] False
  have "filter (\<lambda>p. policy_key p = key) ps' = filter (\<lambda>p. policy_key p = key) ps" by blast
  then have "Get_Policy c' key = Get_Policy c key" using ps(2,3) by (simp add: serves_policies_def find_filter)
  then show ?thesis by (intro desired_content_cong) (simp_all add: policy_change_reads [OF assms(1)])
next
  case True
  from assms(1) obtain ps ps' where ps: "cache_change ps evt ps'" "serves_policies c ps" "serves_policies c' ps'"
    "distinct (map policy_key ps)" "distinct (map policy_key ps')" and ok: "root_event_ok c evt"
    unfolding policy_change_def by blast
  have ns: "\<not> map_has (p_Labels x) RootPolicyLabel" if "x \<in> set (event_objects evt)" "policy_key x = key" for x
    using ok that assms(2) by (auto simp: root_event_ok_def pipeline_scope_def)
  note req = root_event_requested [OF assms(3), of evt key]
  from ps(1) show ?thesis
  proof cases
    case (created xs ys x)
    with True ns req assms(4) show ?thesis by (simp add: rootPolicy_CreateFunc_def)
  next
    case (deleted xs x ys)
    with True ns req assms(4) show ?thesis by (simp add: rootPolicy_DeleteFunc_def)
  next
    case (updated xs x ys x')
    with True ok have k: "policy_key x = key" "policy_key x' = key" by (auto simp: root_event_ok_def)
    have "\<not> non_status_change (p_ObjectMeta x) (p_ObjectMeta x')"
      using req ns updated(2) k assms(4) by (auto simp: rootPolicy_UpdateFunc_def Let_def)
    moreover have "Get_Policy c key = Inr x" "Get_Policy c' key = Inr x'"
      using served_policy [OF ps(2,4), of x] served_policy [OF ps(3,5), of x'] k updated by auto
    ultimately show ?thesis
      using update_same_content k ok updated(2) policy_change_reads(1,2) [OF assms(1)] by metis
  qed
qed

subsection \<open>Managed clusters\<close>

lemma cluster_change_reads:
  assumes "cluster_change c evt c'"
  shows "singleClusterDecision c' = singleClusterDecision c" "Get_Policy c' = Get_Policy c"
    "IsInClusterNamespace c' = IsInClusterNamespace c" "pipeline_scope c' = pipeline_scope c"
proof -
  from assms obtain mc mc' mcs mcs' where c': "c' = c\<lparr>Get_ManagedCluster := (Get_ManagedCluster c)(mc_Name mc := Inr mc'),
      List_ManagedClusters := Inr mcs'\<rparr>" and mc: "Get_ManagedCluster c (mc_Name mc) = Inr mc"
    and mcs: "List_ManagedClusters c = Inr mcs" "mc_Name ` set mcs' = mc_Name ` set mcs"
    unfolding cluster_change_def by blast
  show "singleClusterDecision c' = singleClusterDecision c" by (intro ext decision_reads) (simp_all add: c')
  show "Get_Policy c' = Get_Policy c" by (simp add: c')
  show ns: "IsInClusterNamespace c' = IsInClusterNamespace c"
    using mc by (intro ext) (simp add: IsInClusterNamespace_def c')
  show "pipeline_scope c' = pipeline_scope c"
    using mcs by (intro ext) (simp add: pipeline_scope_def ns, simp add: c')
qed

lemma cluster_event_unrequested:
  assumes "cluster_change c evt c'" and "cache_ok c" and "enqueues_object cluster_key G"
    and "nn [] cl \<notin> set (managedCluster_watches G evt)"
  shows "desired_content c' key cl = desired_content c key cl"
proof -
  from assms(1) obtain mc mc' mcs' where c': "c' = c\<lparr>Get_ManagedCluster := (Get_ManagedCluster c)(mc_Name mc := Inr mc'),
      List_ManagedClusters := Inr mcs'\<rparr>" and mc: "Get_ManagedCluster c (mc_Name mc) = Inr mc"
    and evt: "evt = UpdateEvent mc mc'" "mc_Name mc' = mc_Name mc"
    unfolding cluster_change_def by blast
  have "set (G evt) = {cluster_key mc}" using assms(3) evt unfolding enqueues_object_def by simp
  with assms(4) evt have uid: "cl = mc_Name mc \<Longrightarrow> mc_UID mc' = mc_UID mc"
    by (auto simp: managedCluster_watches_def managedCluster_UpdateFunc_def)
  have "buildReplicatedPolicy c' p dec = buildReplicatedPolicy c p dec"
    if "singleClusterDecision c p cl = Inr dec" "dec_Cluster dec \<noteq> []" for p dec
  proof -
    have cl: "dec_Cluster dec = cl" using decision_cluster [OF assms(2) that(1)] that(2) by blast
    have set: "Get_PolicySet c' = Get_PolicySet c" by (simp add: c')
    show ?thesis
    proof (cases "cl = mc_Name mc")
      case True
      then have "Get_ManagedCluster c' cl = Inr mc'" "Get_ManagedCluster c cl = Inr mc"
        using mc by (simp_all add: c')
      then show ?thesis
        by (simp only: buildReplicatedPolicy_def Let_def cl canonicalize_cong [OF set] uid [OF True] sum.case)
    qed (intro build_cong set, simp add: c' cl)
  qed
  then show ?thesis using cluster_change_reads(1,2) [OF assms(1)] by (intro desired_content_cong) simp_all
qed

lemma desired_None_cluster:
  assumes "cluster_change c evt c'" and "desired_content c key cl = Inr None"
  shows "desired_content c' key cl = Inr None"
  using assms(2) cluster_change_reads(1,2) [OF assms(1)]
  by (auto simp: desired_content_def split: sum.splits if_splits)


section \<open>The reconciles\<close>

lemma scan_answers:
  assumes "answers c"
  shows "\<exists>r. scan_unrestricted c p cl pbs f = Inr r" and "\<exists>d. scan_restricted c p cl pbs = Inr d"
proof -
  have single: "\<exists>b. isSingleClusterInDecisions c pb n cl = Inr b" for pb n
    using isSingle_answers [OF assms] by metis
  show "\<exists>r. scan_unrestricted c p cl pbs f = Inr r"
  proof (induction pbs arbitrary: f)
    case (Cons pb pbs)
    from single [of pb "p_Name p"] obtain b where "isSingleClusterInDecisions c pb (p_Name p) cl = Inr b" ..
    with Cons show ?case by (cases b) auto
  qed simp
  show "\<exists>d. scan_restricted c p cl pbs = Inr d"
  proof (induction pbs)
    case (Cons pb pbs)
    from single [of pb "p_Name p"] obtain b where "isSingleClusterInDecisions c pb (p_Name p) cl = Inr b" ..
    with Cons show ?case by (cases b) auto
  qed simp
qed

lemma decision_answers:
  assumes "cache_ok c"
  obtains dec where "singleClusterDecision c p cl = Inr dec"
proof -
  from assms obtain pbs where pbs: "List_PlacementBindings c [InNamespace (p_Namespace p)] = Inr pbs" and a: "answers c"
    unfolding cache_ok_def serves_bindings_def by blast
  from scan_answers(1) [OF a] obtain early found where "scan_unrestricted c p cl pbs False = Inr (early, found)"
    by (metis prod.collapse)
  moreover from scan_answers(2) [OF a] obtain d where "scan_restricted c p cl pbs = Inr d" by blast
  ultimately have "\<exists>dec. singleClusterDecision c p cl = Inr dec"
    using pbs by (cases early; cases d; simp add: singleClusterDecision_def Let_def)
  with that show thesis by blast
qed

text \<open>The replicas listed by the label are sent, whatever is sent after them.\<close>

lemma updateExistingReplicas_sends:
  assumes "updateExistingReplicas a full h = (Inr n, h')"
    and "List_Policies (api_read a (hub_world h)) [MatchingLabels RootPolicyLabel full] = Inr ps" and "p \<in> set ps"
  shows "policy_key p \<in> event_request ` set (hub_updates h')"
  using assms by (force simp: updateExistingReplicas_def)

lemma handleRootPolicy_disabled:
  assumes "handleRootPolicy a inst h = (None, h')" and "ps_Disabled (p_Spec inst)"
  obtains n h1 where "updateExistingReplicas a (p_Namespace inst @ ''.'' @ p_Name inst) h = (Inr n, h1)"
    and "set (hub_updates h1) \<subseteq> set (hub_updates h')"
proof -
  obtain r h1 where u: "updateExistingReplicas a (p_Namespace inst @ ''.'' @ p_Name inst) h = (r, h1)" by fastforce
  with assms obtain n where "r = Inr n" by (auto simp: handleRootPolicy_def split: sum.splits)
  with assms u have "set (hub_updates h1) \<subseteq> set (hub_updates h')"
    by (auto simp: handleRootPolicy_def cleanUpOrphaned_updates Let_def split: sum.splits prod.splits if_splits)
  with u \<open>r = Inr n\<close> that show thesis by blast
qed

text \<open>The replicas that were written are sent when the root policy is missing or disabled.\<close>

lemma existing_revisited:
  assumes "updateExistingReplicas a (nn_Namespace key @ ''.'' @ nn_Name key) h = (Inr n, h1)"
    and "api_read a (hub_world h) = pi_hub s" and "caught_up s"
  shows "pi_acted s (key, cl) = None \<or> rep_request key cl \<in> event_request ` set (hub_updates h1)"
proof (cases "pi_acted s (key, cl)")
  case (Some v)
  then have "pi_acted s (key, cl) \<noteq> None" by simp
  with assms(3) obtain ps p where "List_Policies (pi_hub s) [MatchingLabels RootPolicyLabel (nn_Namespace key @ ''.'' @ nn_Name key)] = Inr ps"
    "p \<in> set ps" "policy_key p = rep_request key cl"
    unfolding caught_up_def by blast
  with updateExistingReplicas_sends [OF assms(1), of ps p] assms(2) show ?thesis by simp
qed simp

lemma enabled_revisited:
  assumes "handleRootPolicy a inst h = (None, h')" and "\<not> ps_Disabled (p_Spec inst)"
    and "api_read a (hub_world h) = pi_hub s" and "cache_ok (pi_hub s)"
    and "Get_Policy (pi_hub s) key = Inr inst" and "policy_key inst = key" and "orphan_requested s key cl"
  shows "rep_request key cl \<in> pi_replicas s \<union> event_request ` set (hub_updates h') \<or>
    desired_content (pi_hub s) key cl = Inr (pi_acted s (key, cl))"
proof -
  obtain dec where dec: "singleClusterDecision (pi_hub s) inst cl = Inr dec" by (rule decision_answers [OF assms(4)])
  show ?thesis
  proof (cases "dec_Cluster dec = []")
    case True
    with assms(2,5) dec have "desired_content (pi_hub s) key cl = Inr None" by (simp add: desired_content_def)
    moreover have "unplaced (pi_hub s) key cl" using True unplaced_iff [OF assms(6) dec] by simp
    ultimately show ?thesis using assms(7) by (cases "pi_acted s (key, cl)") (auto simp: orphan_requested_def)
  next
    case False
    have named: "gets_policies_by_name (api_read a (hub_world h))" and unnamed: "no_unnamed_decisions (pi_hub s)"
      using assms(3,4) by (simp_all add: cache_ok_def)
    obtain pls d where g: "GetClusterDecisions (pi_hub s) inst = Inr (pls, d)"
      and u: "map event_request (hub_updates h') = map event_request (hub_updates h) @
        map (\<lambda>cl. nn cl (FullNameForPolicy inst)) (map fst d) @ map (\<lambda>cl. nn cl (FullNameForPolicy inst))
          (filter (\<lambda>cl. bindings_of d cl = []) (map cs_ClusterName (items (st_Status (p_Status inst)))))"
      by (rule handleRootPolicy_enabled [OF assms(1,2) named, unfolded assms(3)])
    from placed_decided(2) [OF dec False g assms(2) unnamed] have "cl \<in> set (map fst d)" by (simp add: decided_def)
    then have "nn cl (FullNameForPolicy inst) \<in> set (map event_request (hub_updates h'))" unfolding u by auto
    moreover have "nn cl (FullNameForPolicy inst) = rep_request key cl"
      using assms(6) by (auto simp: rep_request_def FullNameForPolicy_def)
    ultimately show ?thesis by simp
  qed
qed

lemma root_reconcile_revisits:
  assumes "RootPolicy_Reconcile a key h = ((res, None), h')"
    and "api_read a (hub_world h) = pi_hub s" and "cache_ok (pi_hub s)" and "caught_up s"
    and "pipeline_scope (pi_hub s) key cl" and "orphan_requested s key cl"
  shows "rep_request key cl \<in> pi_replicas s \<union> event_request ` set (hub_updates h') \<or>
    desired_content (pi_hub s) key cl = Inr (pi_acted s (key, cl))"
proof (cases "Get_Policy (pi_hub s) key")
  case (Inl e)
  with assms(3) have e: "IsNotFound e" by (auto simp: cache_ok_def)
  with Inl assms(1,2) obtain n where "updateExistingReplicas a (nn_Namespace key @ ''.'' @ nn_Name key) h = (Inr n, h')"
    by (auto simp: RootPolicy_Reconcile_def Let_def split: prod.splits sum.splits)
  from existing_revisited [OF this assms(2,4), of cl] Inl e show ?thesis by (auto simp: desired_content_def)
next
  case (Inr inst)
  with assms(3) have k: "p_Namespace inst = nn_Namespace key" "p_Name inst = nn_Name key"
    by (auto simp: cache_ok_def gets_policies_by_name_def)
  have h': "handleRootPolicy a inst h = (None, h')"
    using assms(1,2,5) Inr k
    by (auto simp: RootPolicy_Reconcile_def pipeline_scope_def Let_def split: prod.splits option.splits)
  show ?thesis
  proof (cases "ps_Disabled (p_Spec inst)")
    case True
    obtain n h1 where u: "updateExistingReplicas a (nn_Namespace key @ ''.'' @ nn_Name key) h = (Inr n, h1)"
      and sub: "set (hub_updates h1) \<subseteq> set (hub_updates h')"
      by (rule handleRootPolicy_disabled [OF h' True, unfolded k])
    from existing_revisited [OF u assms(2,4), of cl] sub True Inr show ?thesis by (auto simp: desired_content_def)
  next
    case False
    with enabled_revisited [OF h' _ assms(2,3) Inr _ assms(6)] k show ?thesis by simp
  qed
qed

lemma cluster_reconcile_revisits:
  assumes "ManagedClusterPolicy_Reconcile a cl h = ((res, None), h')" and "api_read a (hub_world h) = pi_hub s"
    and "caught_up s" and "pi_acted s (key, cl) \<noteq> None"
  shows "rep_request key cl \<in> event_request ` set (hub_updates h')"
proof -
  from assms(3,4) obtain ps p where "List_Policies (pi_hub s) [InNamespace cl] = Inr ps" "p \<in> set ps"
    "policy_key p = rep_request key cl" "map_has (p_Labels p) RootPolicyLabel" unfolding caught_up_def by blast
  with assms(1,2) show ?thesis by (force simp: ManagedClusterPolicy_Reconcile_def)
qed


section \<open>The invariant holds in every step\<close>

lemma hub_event_inv:
  assumes "hub_change (pi_hub s) evt c'" and "cache_ok c'" and "pipeline_inv s key cl"
  shows "pipeline_inv (s\<lparr>pi_hub := c', pi_replicas := pi_replicas s \<union> set (replicatedPolicy_watches True c' evt)\<rparr>) key cl"
proof -
  have "pipeline_scope c' = pipeline_scope (pi_hub s)"
    by (intro ext) (simp add: pipeline_scope_def IsInClusterNamespace_def hub_change_reads [OF assms(1)])
  with assms(2,3) hub_event_unrequested [OF assms(1), of key cl] show ?thesis
    by (auto simp: pipeline_inv_defs)
qed

lemma policy_event_inv:
  assumes "policy_change (pi_hub s) evt c'" and "cache_ok c'" and "pipeline_inv s key cl" and "enqueues_object policy_key F"
  shows "pipeline_inv (s\<lparr>pi_hub := c', pi_roots := pi_roots s \<union> set (rootPolicy_watches F (RootEvent evt))\<rparr>) key cl"
proof -
  note reads = policy_change_reads [OF assms(1)]
  have "pipeline_scope c' = pipeline_scope (pi_hub s)" by (intro ext) (simp add: pipeline_scope_def reads)
  moreover have "unplaced c' = unplaced (pi_hub s)" by (intro ext) (simp add: unplaced_def reads)
  ultimately show ?thesis
    using assms(2,3) policy_event_unrequested [OF assms(1) _ assms(4), of key cl] by (auto simp: pipeline_inv_defs)
qed

lemma cluster_event_inv:
  assumes "cluster_change (pi_hub s) evt c'" and "cache_ok c'" and "pipeline_inv s key cl" and "enqueues_object cluster_key G"
  shows "pipeline_inv (s\<lparr>pi_hub := c', pi_clusters := pi_clusters s \<union> set (managedCluster_watches G evt)\<rparr>) key cl"
proof -
  note reads = cluster_change_reads [OF assms(1)]
  have u: "unplaced c' = unplaced (pi_hub s)" by (intro ext) (simp add: unplaced_def reads)
  have ok: "cache_ok (pi_hub s)" using assms(3) by (simp add: pipeline_inv_def)
  show ?thesis
  proof (cases "pi_acted s (key, cl)")
    case None
    with assms(2,3) u reads(4) desired_None_cluster [OF assms(1), of key cl] show ?thesis
      by (auto simp: pipeline_inv_defs)
  next
    case (Some v)
    with assms(2,3) u reads(4) cluster_event_unrequested [OF assms(1) ok assms(4), of cl key] show ?thesis
      by (auto simp: pipeline_inv_defs)
  qed
qed

lemma replica_reconcile_inv:
  assumes "ParseRootPolicyLabel (nn_Name r) = Inr (rootName, rootNS)"
    and "desired_content (pi_hub s) (nn rootNS rootName) (nn_Namespace r) = Inr v" and "pipeline_inv s key cl"
  shows "pipeline_inv (s\<lparr>pi_replicas := pi_replicas s - {r},
    pi_acted := (pi_acted s)((nn rootNS rootName, nn_Namespace r) := v)\<rparr>) key cl"
proof (cases "(nn rootNS rootName, nn_Namespace r) = (key, cl)")
  case True
  with assms(2,3) desired_unplaced [of "pi_hub s" key cl] show ?thesis by (auto simp: pipeline_inv_defs)
next
  case False
  have "rep_request key cl \<noteq> r" if "pipeline_scope (pi_hub s) key cl"
  proof
    assume r: "rep_request key cl = r"
    from that have "CHR ''.'' \<notin> set (nn_Namespace key)" by (simp add: pipeline_scope_def)
    from ParseRootPolicyLabel_append [OF this, of "nn_Name key"] assms(1) False r show False
      by (cases key) (auto simp: rep_request_def)
  qed
  with False assms(3) show ?thesis by (auto simp: pipeline_inv_defs)
qed

lemma replica_rejected_inv:
  assumes "ParseRootPolicyLabel (nn_Name r) = Inl err" and "pipeline_inv s key cl"
  shows "pipeline_inv (s\<lparr>pi_replicas := pi_replicas s - {r}\<rparr>) key cl"
proof -
  have "rep_request key cl \<noteq> r" if "pipeline_scope (pi_hub s) key cl"
    using ParseRootPolicyLabel_append [of "nn_Namespace key" "nn_Name key"] that assms(1)
    by (auto simp: rep_request_def pipeline_scope_def)
  with assms(2) show ?thesis by (auto simp: pipeline_inv_defs)
qed

lemma pipeline_step_inv:
  assumes "pipeline_step R F G s s'" and "enqueues_object policy_key F" and "enqueues_object cluster_key G"
    and "pipeline_inv s key cl"
  shows "pipeline_inv s' key cl"
  using assms(1)
proof cases
  case (root_reconcile k h res h')
  show ?thesis
  proof (cases "k = key")
    case True
    with root_reconcile assms(4) root_reconcile_revisits [of "rc_api R" key h res h' s cl] show ?thesis
      by (auto simp: pipeline_inv_defs)
  next
    case False
    with root_reconcile(1) assms(4) show ?thesis by (auto simp: pipeline_inv_defs)
  qed
next
  case (cluster_reconcile r h res h')
  show ?thesis
  proof (cases "r = nn [] cl")
    case True
    with cluster_reconcile assms(4) cluster_reconcile_revisits [of "rc_api R" cl h res h' s key] show ?thesis
      by (auto simp: pipeline_inv_defs)
  next
    case False
    with cluster_reconcile(1) assms(4) show ?thesis by (auto simp: pipeline_inv_defs)
  qed
next
  case (requested A B C)
  with assms(4) show ?thesis by (auto simp: pipeline_inv_defs)
next
  case (hub_event evt c')
  with hub_event_inv [OF _ _ assms(4)] show ?thesis by blast
next
  case (policy_event e c')
  with policy_event_inv [OF _ _ assms(4,2)] show ?thesis by blast
next
  case (cluster_event m c')
  with cluster_event_inv [OF _ _ assms(4,3)] show ?thesis by blast
next
  case (replica_reconcile r st res st' rootName rootNS v)
  with replica_reconcile_inv [OF _ _ assms(4)] show ?thesis by blast
next
  case (replica_rejected r err)
  with replica_rejected_inv [OF _ assms(4)] show ?thesis by blast
qed

lemma pipeline_run_inv:
  assumes "pipeline_run R F G s s'" and "enqueues_object policy_key F" and "enqueues_object cluster_key G"
    and "pipeline_inv s key cl"
  shows "pipeline_inv s' key cl"
  using assms(1,4)
proof (induction rule: pipeline_run.induct)
  case (step s s' s'')
  then show ?case using pipeline_step_inv [OF step.hyps(2) assms(2,3)] by blast
qed

text \<open>At the start the queues are empty, no policy is known and nothing was replicated.\<close>

definition pipeline_start :: "pipeline \<Rightarrow> bool" where
  "pipeline_start s \<longleftrightarrow> cache_ok (pi_hub s) \<and> serves_policies (pi_hub s) [] \<and> pi_acted s = (\<lambda>_. None)"

lemma pipeline_start_inv: "pipeline_start s \<Longrightarrow> pipeline_inv s key cl"
  by (simp add: pipeline_start_def pipeline_inv_defs serves_policies_def desired_content_def)


section \<open>A change of a policy set\<close>

text \<open>The clusters of the status that a status update leaves are the decided ones.\<close>

lemma status_clusters_decided:
  assumes "RootStatusUpdate a inst k = (Inr d, inst', k')" and "\<not> ps_Disabled (p_Spec inst)"
  shows "cs_ClusterName ` set (items (st_Status (p_Status inst'))) = decided d"
proof -
  from RootStatusUpdate_writes_root_status [OF assms(1)] obtain pls cpcs where
    r: "root_status (api_read a k) inst = Inr (pls, d, cpcs)" and s: "st_Status (p_Status inst') = cpcs" by blast
  from r assms(2) have "cpcs = Some (sort_key cs_ClusterName (map (\<lambda>(cl, _).
      fst (cluster_status (api_read a k) inst (computeRemainingBindings inst pls d) cl)) d))"
    by (auto simp: root_status_def CalculatePerClusterStatus_def Let_def comp_def split_def split: sum.splits)
  moreover have "cs_ClusterName (fst (cluster_status c inst rem cl)) = cl" for c rem cl
    by (auto simp: cluster_status_def Let_def split: sum.splits)
  ultimately show ?thesis by (force simp: s decided_def image_iff)
qed

section \<open>Examples\<close>

text \<open>The policy set has lost its policy; the status of the root policy still lists the cluster.\<close>

definition ex_listed :: Policy where
  "ex_listed = ex_root\<lparr>p_Status := PolicyStatus_zero\<lparr>st_Status := Some [\<lparr>cs_ComplianceState = [],
     cs_ClusterName = ''c1'', cs_ClusterNamespace = ''c1'', cs_RemainingBindings = []\<rparr>]\<rparr>\<rparr>"

definition ex_removed :: client_reader where
  "ex_removed = (ex_hub [ex_set_pb])\<lparr>
     Get_Policy := (\<lambda>k. if k = nn ''ns'' ''p'' then Inr ex_listed else Inl (ApiStatus NotFound)),
     Get_PolicySet := (\<lambda>_. Inr (ex_set\<lparr>set_Spec := \<lparr>pss_Policies = [], pss_Exclusions = []\<rparr>\<rparr>))\<rparr>"

definition ex_start :: "'k \<Rightarrow> 'k hub" where
  "ex_start k = \<lparr>hub_world = k, hub_updates = [], hub_events = [], hub_failures = []\<rparr>"

lemma ex_listed_simps [simp]:
  "\<not> ps_Disabled (p_Spec ex_listed)" "om_Name (p_ObjectMeta ex_listed) = ''p''" "om_Namespace (p_ObjectMeta ex_listed) = ''ns''"
  by (simp_all add: ex_listed_def ex_objects)

lemma ex_removed_decisions:
  "om_Namespace (p_ObjectMeta p) = ''ns'' \<Longrightarrow> GetClusterDecisions ex_removed p = Inr ([], [])"
  by (simp add: GetClusterDecisions_def gather_unrestricted_def gather_restricted_def GetPolicyPlacementDecisions_def
      subject_placements_def GetPolicySet_def IsPolicyInPolicySet_def ex_removed_def ex_hub_def ex_objects
      sortDecisionSet_def Let_def)

lemma ex_removed_update:
  assumes "policy_key p = nn ''ns'' ''p''"
  shows "\<exists>inst' k'. RootStatusUpdate (ex_api ex_removed) p k = (Inr [], inst', k') \<and> \<not> ps_Disabled (p_Spec inst') \<and>
    policy_key inst' = nn ''ns'' ''p''"
  using assms
  by (simp add: RootStatusUpdate_def ex_api_def ex_removed_decisions ex_removed_def [symmetric] Let_def)
     (simp add: ex_removed_def)

lemma ex_removed_handled:
  assumes "policy_key p = nn ''ns'' ''p''" and "\<not> ps_Disabled (p_Spec p)"
  shows "\<exists>h'. handleRootPolicy (ex_api ex_removed) p (ex_start k) = (None, h')"
proof -
  from ex_removed_update [OF assms(1), of k] obtain inst' k' where
    "RootStatusUpdate (ex_api ex_removed) p k = (Inr [], inst', k')" by blast
  with assms(2) show ?thesis by (simp add: handleRootPolicy_def ex_start_def Let_def)
qed

text \<open>A hub with a binding, to which the root policy is added.\<close>

definition ex_policies :: "Policy list \<Rightarrow> client_reader" where
  "ex_policies ps = (ex_hub [ex_pb])\<lparr>
     Get_Policy := (\<lambda>k. case find (\<lambda>p. policy_key p = k) ps of None \<Rightarrow> Inl (ApiStatus NotFound) | Some p \<Rightarrow> Inr p),
     List_Policies := (\<lambda>_. Inr [])\<rparr>"

definition ex_pipeline :: "client_reader \<Rightarrow> Request set \<Rightarrow> pipeline" where
  "ex_pipeline c reqs = \<lparr>pi_hub = c, pi_roots = reqs, pi_clusters = {}, pi_replicas = {}, pi_acted = (\<lambda>_. None)\<rparr>"

definition ex_for_policy :: "Policy event \<Rightarrow> Request list" where
  "ex_for_policy evt = [policy_key (last (event_objects evt))]"

definition ex_for_cluster :: "ManagedCluster event \<Rightarrow> Request list" where
  "ex_for_cluster evt = [cluster_key (last (event_objects evt))]"

lemma event_last: "last (event_objects evt) \<in> set (event_objects evt)"
  by (cases evt) auto

lemma ex_enqueues: "enqueues_object policy_key ex_for_policy" "enqueues_object cluster_key ex_for_cluster"
  unfolding enqueues_object_def ex_for_policy_def ex_for_cluster_def using event_last by fastforce+

lemma ex_policies_ok: "cache_ok (ex_policies ps)"
proof -
  have "serves_bindings (ex_policies ps) [ex_pb]"
    using ex_hub_serves [of "[ex_pb]"] by (simp add: ex_policies_def serves_bindings_def)
  moreover have "answers (ex_policies ps)" "no_unnamed_decisions (ex_policies ps)"
    using ex_hub_answers [of "[ex_pb]"] by (simp_all add: ex_policies_def answers_def no_unnamed_decisions_def)
  moreover have "gets_policies_by_name (ex_policies ps)"
    by (auto simp: ex_policies_def gets_policies_by_name_def find_Some_iff split: option.splits)
  ultimately show ?thesis by (auto simp: cache_ok_def ex_policies_def split: option.splits)
qed

lemma ex_root_created: "policy_change (ex_policies []) (CreateEvent ex_root) (ex_policies [ex_root])"
  unfolding policy_change_def
proof (intro conjI exI)
  show "cache_change [] (CreateEvent ex_root) [ex_root]" using cache_change.created [of "[]" "[]" ex_root] by simp
  show "ex_policies [ex_root] = ex_policies []\<lparr>Get_Policy := Get_Policy (ex_policies [ex_root]),
      List_Policies := List_Policies (ex_policies [ex_root])\<rparr>"
    by (simp add: ex_policies_def)
  show "root_event_ok (ex_policies []) (CreateEvent ex_root)" by (simp add: root_event_ok_def ex_objects map_has_def raw_map_def)
qed (simp_all add: serves_policies_def ex_policies_def)

lemma ex_policies_placed: "desired_content (ex_policies [ex_root]) (nn ''ns'' ''p'') ''c1'' \<noteq> Inr None"
proof -
  have "singleClusterDecision (ex_policies [ex_root]) ex_root ''c1'' = Inr (clusterDecision_zero\<lparr>dec_Cluster := ''c1''\<rparr>)"
    by (simp add: singleClusterDecision_def isSingleClusterInDecisions_def HasValidPlacementRef_def
        EqualFold_def Enforce_def ex_policies_def ex_hub_def ex_reader_def ex_objects Let_def)
  moreover have "Get_Policy (ex_policies [ex_root]) (nn ''ns'' ''p'') = Inr ex_root"
    by (simp add: ex_policies_def ex_objects)
  moreover have "\<not> ps_Disabled (p_Spec ex_root)" by (simp add: ex_objects)
  ultimately show ?thesis by (simp add: desired_content_def split: sum.splits)
qed

section \<open>Properties\<close>



text \<open>C37. A race between the two root controllers orphans a replica. When a policy set loses a policy, the
  root policy controller handling the root policy sends requests for the clusters of its status and so
  for the replica to delete. When the root policy status controller runs first, the status lists only
  the clusters still decided, and the root policy controller sends a request for none of the others.\<close>

theorem status_first_orphans:
  assumes "RootStatusUpdate a inst k = (Inr d, inst', k')" and "serves_bindings (api_read a k) pbs"
    and "\<not> ps_Disabled (p_Spec inst)" and "\<not> ps_Disabled (p_Spec inst')"
    and "api_read a (hub_world h) = (api_read a k)\<lparr>Get_Policy := g\<rparr>" and "hub_updates h = []"
    and "handleRootPolicy a inst' h = (None, h')"
    and "api_read a (hub_world h0) = api_read a k" and "hub_updates h0 = []"
    and "handleRootPolicy a inst h0 = (None, h0')"
    and "gets_policies_by_name (api_read a k)" and "gets_policies_by_name (api_read a (hub_world h))"
  shows "event_request ` set (hub_updates h') = (\<lambda>cl. nn cl (FullNameForPolicy inst)) ` decided d \<and>
    event_request ` set (hub_updates h0') = (\<lambda>cl. nn cl (FullNameForPolicy inst)) `
      (decided d \<union> cs_ClusterName ` set (items (st_Status (p_Status inst))))"
proof
  have bs: "List_PlacementBindings (api_read a k) [InNamespace ns] = Inr (filter (\<lambda>pb. pb_Namespace pb = ns) pbs)" for ns
    using assms(2) by (simp add: serves_bindings_def)
  obtain pls where g: "GetClusterDecisions (api_read a k) inst = Inr (pls, d)"
    using RootStatusUpdate_decisions [OF assms(1)] by blast
  note key = RootStatusUpdate_key [OF assms(1,11)]
  show "event_request ` set (hub_updates h0') = (\<lambda>cl. nn cl (FullNameForPolicy inst)) `
      (decided d \<union> cs_ClusterName ` set (items (st_Status (p_Status inst))))"
    using handled_requests [OF assms(10,3) _ assms(9)] assms(8,11) bs g by simp metis
  have "GetClusterDecisions (api_read a (hub_world h)) inst' = Inr (pls, d)"
    unfolding assms(5) g [symmetric] using key assms(3,4) by (intro GetClusterDecisions_reads) simp_all
  moreover have "List_PlacementBindings (api_read a (hub_world h)) [InNamespace (p_Namespace inst')] =
      Inr (filter (\<lambda>pb. pb_Namespace pb = p_Namespace inst') pbs)" using bs by (simp add: assms(5))
  ultimately have "event_request ` set (hub_updates h') = (\<lambda>cl. nn cl (FullNameForPolicy inst')) `
      (decided d \<union> cs_ClusterName ` set (items (st_Status (p_Status inst'))))"
    using handled_requests [OF assms(7,4,12,6)] by (metis Pair_inject sum.inject(2))
  then show "event_request ` set (hub_updates h') = (\<lambda>cl. nn cl (FullNameForPolicy inst)) ` decided d"
    using key by (simp add: status_clusters_decided [OF assms(1,3)] FullNameForPolicy_def)
qed

theorem status_first_orphans_witness:
  "\<exists>d inst' k' h' h0'. RootStatusUpdate (ex_api ex_removed) ex_listed [] = (Inr d, inst', k') \<and>
     handleRootPolicy (ex_api ex_removed) inst' (ex_start k') = (None, h') \<and> event_request ` set (hub_updates h') = {} \<and>
     handleRootPolicy (ex_api ex_removed) ex_listed (ex_start []) = (None, h0') \<and>
     event_request ` set (hub_updates h0') = {nn ''c1'' ''ns.p''}"
proof -
  from ex_removed_update [of ex_listed "[]"] obtain inst' k' where
    u: "RootStatusUpdate (ex_api ex_removed) ex_listed [] = (Inr [], inst', k')"
    and e: "\<not> ps_Disabled (p_Spec inst')" "policy_key inst' = nn ''ns'' ''p''" by auto
  from ex_removed_handled [OF e(2,1)] obtain h' where
    h': "handleRootPolicy (ex_api ex_removed) inst' (ex_start k') = (None, h')" by blast
  from ex_removed_handled [of ex_listed] obtain h0' where
    h0': "handleRootPolicy (ex_api ex_removed) ex_listed (ex_start []) = (None, h0')" by auto
  have s: "serves_bindings (api_read (ex_api ex_removed) k) [ex_set_pb]" for k
    using ex_hub_serves [of "[ex_set_pb]"] by (simp add: ex_api_def ex_removed_def serves_bindings_def)
  have n: "gets_policies_by_name (api_read (ex_api ex_removed) k)" for k
    by (simp add: ex_api_def ex_removed_def gets_policies_by_name_def)
  have "event_request ` set (hub_updates h') = (\<lambda>cl. nn cl (FullNameForPolicy ex_listed)) ` decided [] \<and>
      event_request ` set (hub_updates h0') = (\<lambda>cl. nn cl (FullNameForPolicy ex_listed)) `
        (decided [] \<union> cs_ClusterName ` set (items (st_Status (p_Status ex_listed))))"
    by (rule status_first_orphans [OF u s _ e(1) _ _ h' _ _ h0' n n, of "Get_Policy ex_removed"])
       (simp_all add: ex_api_def ex_start_def)
  moreover have "cs_ClusterName ` set (items (st_Status (p_Status ex_listed))) = {''c1''}" by (simp add: ex_listed_def)
  ultimately show ?thesis using u h' h0' by (auto simp: decided_def FullNameForPolicy_def)
qed

end
