(* ===== verification/Metrics_Coverage.thy ===== *)
theory Metrics_Coverage
  imports Metrics Propagation_Pipeline
begin

text \<open>
  The metrics controller (\<^verbatim>\<open>controllers/policymetrics/policymetrics_controller.go\<close>) over time: its watch on all
  policies, its work queue and the gauge that its reconciles change. As long as the managed clusters stay the
  same the gauge of every policy is current or the policy is requested (\<open>no_stale_gauge\<close>). The labels of a gauge
  depend on whether the namespace is one of a managed cluster when the policy is reconciled, so the
  gauge of a policy in the namespace of a cluster that is not managed any more is never removed
  (\<open>detached_gauge_stays\<close>).
\<close>

section \<open>The controller over time\<close>

text \<open>\<^verbatim>\<open>For\<close> without a predicate: every event of a policy is handled.\<close>

definition metric_watches :: "(Policy event \<Rightarrow> Request list) \<Rightarrow> Policy event \<Rightarrow> Request list" where
  "metric_watches F evt = F evt"

definition policies_change :: "client_reader \<Rightarrow> Policy event \<Rightarrow> client_reader \<Rightarrow> bool" where
  "policies_change c evt c' \<longleftrightarrow>
     (\<exists>ps ps'. cache_change ps evt ps' \<and> serves_policies c ps \<and> serves_policies c' ps') \<and>
     (\<forall>p p'. evt = UpdateEvent p p' \<longrightarrow> policy_key p' = policy_key p) \<and> c' = c\<lparr>Get_Policy := Get_Policy c'\<rparr>"

record metric_state =
  ms_hub :: client_reader
  ms_pending :: "Request set"
  ms_gauge :: gauge

text \<open>An event, a reconcile that returns no error, and a request from elsewhere (a retry, a resync).\<close>

inductive metric_step :: "(Policy event \<Rightarrow> Request list) \<Rightarrow> metric_state \<Rightarrow> metric_state \<Rightarrow> bool" for F where
  event: "policies_change (ms_hub s) evt c' \<Longrightarrow>
    metric_step F s (s\<lparr>ms_hub := c', ms_pending := ms_pending s \<union> set (metric_watches F evt)\<rparr>)"
| reconcile: "r \<in> ms_pending s \<Longrightarrow> Metric_Reconcile (ms_hub s) r (ms_gauge s) = ((res, None), g') \<Longrightarrow>
    metric_step F s (s\<lparr>ms_pending := ms_pending s - {r}, ms_gauge := g'\<rparr>)"
| requested: "metric_step F s (s\<lparr>ms_pending := ms_pending s \<union> A\<rparr>)"

inductive metric_run :: "(Policy event \<Rightarrow> Request list) \<Rightarrow> metric_state \<Rightarrow> metric_state \<Rightarrow> bool" for F where
  start: "metric_run F s s"
| step: "metric_run F s s' \<Longrightarrow> metric_step F s' s'' \<Longrightarrow> metric_run F s s''"

section \<open>The invariant\<close>

text \<open>What the gauge of a policy should be; nothing when the policy is missing or disabled.\<close>

definition wanted_gauge :: "client_reader \<Rightarrow> Request \<Rightarrow> int option" where
  "wanted_gauge c r =
     (case Get_Policy c r of
        Inl _ \<Rightarrow> None
      | Inr p \<Rightarrow> if ps_Disabled (p_Spec p) then None else Some (status_value (st_ComplianceState (p_Status p))))"

definition gauge_inv :: "metric_state \<Rightarrow> Request \<Rightarrow> bool" where
  "gauge_inv s r \<longleftrightarrow>
     (\<forall>b l. IsInClusterNamespace (ms_hub s) (nn_Namespace r) = Inr b \<longrightarrow> policy_labels b r = Some l \<longrightarrow>
        r \<in> ms_pending s \<or> fmlookup (ms_gauge s) l = wanted_gauge (ms_hub s) r)"

lemma policies_change_namespaces:
  "policies_change c evt c' \<Longrightarrow> IsInClusterNamespace c' = IsInClusterNamespace c"
proof -
  assume "policies_change c evt c'"
  then obtain g where "c' = c\<lparr>Get_Policy := g\<rparr>" unfolding policies_change_def by blast
  then show ?thesis by (intro ext) (simp add: IsInClusterNamespace_def)
qed

lemma policies_change_unrequested:
  assumes "policies_change c evt c'" and "enqueues_object policy_key F" and "r \<notin> set (metric_watches F evt)"
  shows "wanted_gauge c' r = wanted_gauge c r"
proof -
  from assms(1) obtain ps ps' where ps: "cache_change ps evt ps'" "serves_policies c ps" "serves_policies c' ps'"
    unfolding policies_change_def by blast
  have "\<not> (\<exists>x \<in> set (event_objects evt). policy_key x = r)"
  proof
    assume "\<exists>x \<in> set (event_objects evt). policy_key x = r"
    moreover from ps(1) assms(1) have "policy_key x = policy_key y"
      if "x \<in> set (event_objects evt)" "y \<in> set (event_objects evt)" for x y
      using that by cases (auto simp: policies_change_def)
    ultimately have "\<forall>x \<in> set (event_objects evt). policy_key x = r" by blast
    with assms(2) have "set (F evt) = {r}" unfolding enqueues_object_def by blast
    with assms(3) show False by (simp add: metric_watches_def)
  qed
  with cache_change_filter [OF ps(1), of "\<lambda>p. policy_key p = r"]
  have "filter (\<lambda>p. policy_key p = r) ps' = filter (\<lambda>p. policy_key p = r) ps" by blast
  then have "Get_Policy c' r = Get_Policy c r" using ps(2,3) by (simp add: serves_policies_def find_filter)
  then show ?thesis by (simp only: wanted_gauge_def)
qed

text \<open>A reconcile makes the gauge of its policy the wanted one and leaves those of the others.\<close>

lemma reconcile_gauge:
  assumes "Metric_Reconcile c r' g = ((res, None), g')" and "IsInClusterNamespace c (nn_Namespace r) = Inr b"
    and "policy_labels b r = Some l"
  shows "fmlookup g' l = (if r' = r then wanted_gauge c r else fmlookup g l)"
proof (cases "r' = r")
  case True
  with gauge_exact [of c r g res g'] assms show ?thesis by (auto simp: wanted_gauge_def)
next
  case False
  from assms(1) obtain b' where b': "IsInClusterNamespace c (nn_Namespace r') = Inr b'"
    by (auto simp: Metric_Reconcile_def split: sum.splits)
  show ?thesis
  proof (cases "policy_labels b' r'")
    case None
    with assms(1) b' False show ?thesis by (simp add: Metric_Reconcile_def)
  next
    case (Some l')
    with gauge_exact [OF assms(1) Some b'] assms(3) False show ?thesis by auto
  qed
qed

lemma metric_step_inv:
  assumes "metric_step F s s'" and "enqueues_object policy_key F" and "\<And>r. gauge_inv s r"
  shows "gauge_inv s' r"
  using assms(1)
proof cases
  case (event evt c')
  with assms(3) [of r] policies_change_namespaces [OF event(2)] policies_change_unrequested [OF event(2) assms(2), of r]
  show ?thesis by (cases "r \<in> set (metric_watches F evt)") (auto simp: gauge_inv_def)
next
  case (reconcile r' res g')
  with assms(3) [of r] reconcile_gauge [OF reconcile(3), of r] show ?thesis by (auto simp: gauge_inv_def)
next
  case (requested A)
  with assms(3) [of r] show ?thesis by (auto simp: gauge_inv_def)
qed

lemma metric_run_inv:
  "metric_run F s s' \<Longrightarrow> enqueues_object policy_key F \<Longrightarrow> (\<And>r. gauge_inv s r) \<Longrightarrow> gauge_inv s' r"
  by (induction arbitrary: r rule: metric_run.induct) (auto intro: metric_step_inv)

text \<open>At the start there is no policy and no gauge.\<close>

definition metric_start :: "metric_state \<Rightarrow> bool" where
  "metric_start s \<longleftrightarrow> serves_policies (ms_hub s) [] \<and> ms_gauge s = fmempty"

lemma metric_start_inv: "metric_start s \<Longrightarrow> gauge_inv s r"
  by (simp add: metric_start_def gauge_inv_def wanted_gauge_def serves_policies_def)

text \<open>Outside the cluster namespaces only gauges of root policies change.\<close>

lemma outside_gauge:
  assumes "IsInClusterNamespace c (nn_Namespace r) = Inr False" and "policy_labels True r = Some l"
  shows "fmlookup (snd (Metric_Reconcile c r' g)) l = fmlookup g l"
proof -
  have "l' \<noteq> l" if "IsInClusterNamespace c (nn_Namespace r') = Inr b'" "policy_labels b' r' = Some l'" for b' l'
  proof
    assume "l' = l"
    with policy_labels_inj [OF that(2)] assms(2) have "r' = r" by blast
    with that assms \<open>l' = l\<close> show False by (auto simp: policy_labels_def split: if_splits prod.splits)
  qed
  then show ?thesis by (auto simp: Metric_Reconcile_def split: sum.splits option.splits)
qed

section \<open>Properties\<close>



text \<open>C38. The gauge of a replicated policy outlives a detached cluster. While the cluster is managed, the reconcile
  of a deleted replicated policy removes its gauge; once the cluster is not managed any more, no reconcile of any
  policy changes the gauge, and the value of the last report stays.\<close>

theorem detached_gauge_stays:
  assumes "policy_labels True r = Some l"
    and "IsInClusterNamespace c0 (nn_Namespace r) = Inr True" and "Get_Policy c0 r = Inl (ApiStatus NotFound)"
    and "IsInClusterNamespace c (nn_Namespace r) = Inr False"
  shows "fmlookup (snd (Metric_Reconcile c0 r g)) l = None \<and>
    fmlookup (fold (\<lambda>r' g. snd (Metric_Reconcile c r' g)) rs g) l = fmlookup g l"
proof
  show "fmlookup (snd (Metric_Reconcile c0 r g)) l = None" using assms(1-3) by (simp add: Metric_Reconcile_def)
  show "fmlookup (fold (\<lambda>r' g. snd (Metric_Reconcile c r' g)) rs g) l = fmlookup g l"
    by (induction rs arbitrary: g) (simp_all add: outside_gauge [OF assms(4,1)])
qed

theorem detached_gauge_stays_witness:
  "fmlookup (snd (Metric_Reconcile empty_reader (nn ''c1'' ''ns.p'')
       (fmupd \<lparr>pm_type = ''propagated'', pm_policy = ''p'', pm_policy_namespace = ''ns'', pm_cluster_namespace = ''c1''\<rparr> 1 fmempty)))
     \<lparr>pm_type = ''propagated'', pm_policy = ''p'', pm_policy_namespace = ''ns'', pm_cluster_namespace = ''c1''\<rparr> = Some 1"
proof -
  let ?l = "\<lparr>pm_type = ''propagated'', pm_policy = ''p'', pm_policy_namespace = ''ns'', pm_cluster_namespace = ''c1''\<rparr>"
  have "policy_labels True (nn ''c1'' ''ns.p'') = Some ?l" by (simp add: policy_labels_def Cut_def)
  moreover have "IsInClusterNamespace (ex_policies []) ''c1'' = Inr True" "IsInClusterNamespace empty_reader ''c1'' = Inr False"
    by (simp_all add: IsInClusterNamespace_def ex_policies_def ex_hub_def ex_reader_def)
  moreover have "Get_Policy (ex_policies []) (nn ''c1'' ''ns.p'') = Inl (ApiStatus NotFound)" by (simp add: ex_policies_def)
  ultimately show ?thesis
    using detached_gauge_stays [of "nn ''c1'' ''ns.p''" ?l "ex_policies []" empty_reader "fmupd ?l 1 fmempty" "[nn ''c1'' ''ns.p'']"]
    by simp
qed

end
