(* ===== verification/Automation.thy ===== *)
theory Automation
  imports Encryption "HOL-Library.Word"
begin

text \<open>
  \<^verbatim>\<open>controllers/automation\<close> and \<^verbatim>\<open>api/v1beta1/policyautomation_types.go\<close>: the controller that
  starts Ansible jobs for the clusters that violate a policy. The clients of PolicyAutomations,
  Ansible jobs and the DNS object, the JSON decoder, \<^verbatim>\<open>time.ParseDuration\<close> and the order in which
  Go iterates over the map of targets are parameters (\<open>automation_env\<close>); times are nanoseconds and
  the RFC 3339 codec is the one of \<open>crypto_env\<close>.

  Shown here: what a job is made of, which violations it reports, and that mode \<^verbatim>\<open>once\<close> starts at
  most one job per generation. The events of mode \<^verbatim>\<open>everyEvent\<close> are in \<open>Automation_Delay\<close>.
\<close>

section \<open>Types\<close>

type_synonym PolicyAutomationMode = string

definition Once :: PolicyAutomationMode where
  "Once = ''once''"

definition EveryEvent :: PolicyAutomationMode where
  "EveryEvent = ''everyEvent''"

definition DisabledMode :: PolicyAutomationMode where
  "DisabledMode = ''disabled''"

definition DefaultPolicyViolationsLimit :: "16 word" where
  "DefaultPolicyViolationsLimit = 1000"

text \<open>\<open>ad_ExtraVars\<close> is the JSON text behind the optional pointer.\<close>

record AutomationDef =
  ad_Type :: string
  ad_Name :: string
  ad_ExtraVars :: "string option"
  ad_TowerSecret :: string
  ad_JobTTL :: "int option"
  ad_PolicyViolationsLimit :: "16 word option"

record PolicyAutomationSpec =
  as_Automation :: AutomationDef
  as_Mode :: PolicyAutomationMode
  as_PolicyRef :: string
  as_EventHook :: string
  as_RescanAfter :: string
  as_DelayAfterRunSeconds :: "64 word"

record ClusterEvent =
  ce_AutomationStartTime :: string
  ce_EventTime :: string

text \<open>The map of events is an association list, in the order in which Go iterates over it.\<close>

record PolicyAutomationStatus =
  pas_ClustersWithEvent :: "(string \<times> ClusterEvent) list"

record PolicyAutomation =
  pa_TypeMeta :: TypeMeta
  pa_ObjectMeta :: ObjectMeta
  pa_Spec :: PolicyAutomationSpec
  pa_Status :: PolicyAutomationStatus

abbreviation pa_Name :: "PolicyAutomation \<Rightarrow> string" where
  "pa_Name pa \<equiv> om_Name (pa_ObjectMeta pa)"

abbreviation pa_Namespace :: "PolicyAutomation \<Rightarrow> string" where
  "pa_Namespace pa \<equiv> om_Namespace (pa_ObjectMeta pa)"

record ReplicatedComplianceHistory =
  rch_LastTimestamp :: string
  rch_Message :: string

record ReplicatedDetailsPerTemplate =
  rdt_ComplianceState :: ComplianceState
  rdt_History :: "ReplicatedComplianceHistory list"

record ReplicatedPolicyStatus =
  rps_ComplianceState :: ComplianceState
  rps_ViolationMessage :: string
  rps_Details :: "ReplicatedDetailsPerTemplate list"

record ViolationContext =
  vc_TargetClusters :: "string slice"
  vc_PolicyName :: string
  vc_PolicyNamespace :: string
  vc_HubCluster :: string
  vc_PolicySets :: "string slice"
  vc_PolicyViolations :: "(string \<times> ReplicatedPolicyStatus) list option"

definition ViolationContext_zero :: ViolationContext where
  "ViolationContext_zero =
     \<lparr>vc_TargetClusters = None, vc_PolicyName = [], vc_PolicyNamespace = [], vc_HubCluster = [],
      vc_PolicySets = None, vc_PolicyViolations = None\<rparr>"

text \<open>A value of \<^verbatim>\<open>extra_vars\<close>: JSON of the user, or a field of the violation context.\<close>

datatype ExtraVar =
    JSONVar string
  | StringVar string
  | StringsVar "string slice"
  | ViolationsVar "(string \<times> ReplicatedPolicyStatus) list option"

record AnsibleJob =
  aj_GenerateName :: string
  aj_Labels :: strmap
  aj_Annotations :: strmap
  aj_OwnerReferences :: "OwnerReference list"
  aj_job_template_name :: string
  aj_tower_auth_secret :: string
  aj_extra_vars :: "(string, ExtraVar) fmap"
  aj_job_ttl :: int

section \<open>Parameters\<close>

text \<open>
  \<open>List_AnsibleJobs\<close> takes the namespace and the value of the automation label, \<open>Get_DNS\<close> is
  \<^verbatim>\<open>spec.baseDomain\<close> of the cluster's DNS object (empty when it is missing there), \<open>au_Unmarshal\<close>
  decodes a JSON object (the result may be a nil map) and \<open>au_order\<close> is the iteration order of a
  map of targets.
\<close>

record 'k automation_env =
  au_api :: "'k api"
  au_crypto :: crypto_env
  Get_PolicyAutomation :: "'k \<Rightarrow> NamespacedName \<Rightarrow> goerr + PolicyAutomation"
  List_PolicyAutomations :: "'k \<Rightarrow> string \<Rightarrow> goerr + PolicyAutomation list"
  Update_PolicyAutomation :: "PolicyAutomation \<Rightarrow> 'k \<Rightarrow> (goerr + PolicyAutomation) \<times> 'k"
  UpdateStatus_PolicyAutomation :: "PolicyAutomation \<Rightarrow> 'k \<Rightarrow> goerr option \<times> 'k"
  List_AnsibleJobs :: "'k \<Rightarrow> string \<Rightarrow> string \<Rightarrow> goerr + AnsibleJob list"
  Create_AnsibleJob :: "string \<Rightarrow> AnsibleJob \<Rightarrow> 'k \<Rightarrow> goerr option \<times> 'k"
  Get_DNS :: "'k \<Rightarrow> goerr + string"
  au_ParseDuration :: "string \<Rightarrow> goerr + Duration"
  au_Unmarshal :: "string \<Rightarrow> goerr + strmap"
  au_order :: "string list \<Rightarrow> string list"

text \<open>What a reconcile keeps: the outside world and the counter of scans.\<close>

record 'k automation_state =
  aus_world :: 'k
  aus_counter :: int

section \<open>Standard library\<close>

fun digits :: "nat \<Rightarrow> string" where
  "digits n = (if n < 10 then [char_of (48 + n)] else digits (n div 10) @ [char_of (48 + n mod 10)])"

declare digits.simps [simp del]

text \<open>\<^verbatim>\<open>strconv.FormatInt(i, 10)\<close>.\<close>

definition FormatInt :: "int \<Rightarrow> string" where
  "FormatInt i = (if i < 0 then ''-'' @ digits (nat (- i)) else digits (nat i))"

definition alphanumeric :: "char \<Rightarrow> bool" where
  "alphanumeric c \<longleftrightarrow>
     (let n = (of_char c :: nat) in 48 \<le> n \<and> n \<le> 57 \<or> 65 \<le> n \<and> n \<le> 90 \<or> 97 \<le> n \<and> n \<le> 122)"

text \<open>
  \<^verbatim>\<open>ReplaceAllString\<close> with the pattern \<^verbatim>\<open>[^a-zA-Z0-9]\<close>: one hyphen for every other rune of the
  UTF-8 string, that is, for every byte that is not a continuation byte.
\<close>

definition replace_special :: "string \<Rightarrow> string" where
  "replace_special s =
     map (\<lambda>c. if alphanumeric c then c else CHR ''-'')
       (filter (\<lambda>c. \<not> (128 \<le> (of_char c :: nat) \<and> (of_char c :: nat) < 192)) s)"

text \<open>\<^verbatim>\<open>time.Time{}\<close>, which a failed \<^verbatim>\<open>time.Parse\<close> returns.\<close>

definition zero_time :: int where
  "zero_time = - 62135596800 * Second"

definition parse_time :: "crypto_env \<Rightarrow> string \<Rightarrow> int \<times> bool" where
  "parse_time cr s = (case cr_Parse cr s of Inl _ \<Rightarrow> (zero_time, False) | Inr t \<Rightarrow> (t, True))"

section \<open>Ansible jobs\<close>

definition PolicyAutomationLabel :: string where
  "PolicyAutomationLabel = SchemeGroup @ ''/policyautomation-name''"

definition PolicyAutomationGeneration :: string where
  "PolicyAutomationGeneration = SchemeGroup @ ''/policyautomation-generation''"

definition PolicyAutomationResouceV :: string where
  "PolicyAutomationResouceV = SchemeGroup @ ''/policyautomation-resource-version''"

definition MatchPAGeneration ::
  "'k automation_env \<Rightarrow> PolicyAutomation \<Rightarrow> int \<Rightarrow> 'k \<Rightarrow> goerr + bool" where
  "MatchPAGeneration env policyAutomation generation k =
     (case List_AnsibleJobs env k (pa_Namespace policyAutomation) (pa_Name policyAutomation) of
        Inl e \<Rightarrow> Inl e
      | Inr jobs \<Rightarrow>
          Inr (list_ex (\<lambda>aj. map_index (aj_Annotations aj) PolicyAutomationGeneration = FormatInt generation) jobs))"

definition MatchPAResourceV ::
  "'k automation_env \<Rightarrow> PolicyAutomation \<Rightarrow> string \<Rightarrow> 'k \<Rightarrow> goerr + bool" where
  "MatchPAResourceV env policyAutomation resourceVersion k =
     (case List_AnsibleJobs env k (pa_Namespace policyAutomation) (pa_Name policyAutomation) of
        Inl e \<Rightarrow> Inl e
      | Inr jobs \<Rightarrow>
          Inr (list_ex (\<lambda>aj. map_index (aj_Annotations aj) PolicyAutomationResouceV = resourceVersion) jobs))"

text \<open>The loop over the fields of the violation context, under the names of their tags.\<close>

definition context_vars :: "ViolationContext \<Rightarrow> (string \<times> ExtraVar) list" where
  "context_vars vc =
     [(''target_clusters'', StringsVar (vc_TargetClusters vc)),
      (''policy_name'', StringVar (vc_PolicyName vc)),
      (''policy_namespace'', StringVar (vc_PolicyNamespace vc)),
      (''hub_cluster'', StringVar (vc_HubCluster vc)),
      (''policy_sets'', StringsVar (vc_PolicySets vc)),
      (''policy_violations'', ViolationsVar (vc_PolicyViolations vc))]"

definition controller_ref :: "TypeMeta \<Rightarrow> ObjectMeta \<Rightarrow> OwnerReference" where
  "controller_ref tm om = \<lparr>or_Kind = tm_Kind tm, or_Name = om_Name om, or_UID = om_UID om\<rparr>"

definition ansible_job ::
  "PolicyAutomation \<Rightarrow> string \<Rightarrow> (string, ExtraVar) fmap \<Rightarrow> AnsibleJob" where
  "ansible_job policyAutomation mode mapExtraVars =
     (let meta = pa_ObjectMeta policyAutomation; automation = as_Automation (pa_Spec policyAutomation) in
      \<lparr>aj_GenerateName = map lower_char (replace_special (om_Name meta) @ ''-'' @ mode @ ''-''),
       aj_Labels = Some (fmupd PolicyAutomationLabel (om_Name meta) fmempty),
       aj_Annotations = Some (fmupd PolicyAutomationResouceV (om_ResourceVersion meta)
         (fmupd PolicyAutomationGeneration (FormatInt (om_Generation meta)) fmempty)),
       aj_OwnerReferences = [controller_ref (pa_TypeMeta policyAutomation) meta],
       aj_job_template_name = ad_Name automation,
       aj_tower_auth_secret = ad_TowerSecret automation,
       aj_extra_vars = mapExtraVars,
       aj_job_ttl = (case ad_JobTTL automation of None \<Rightarrow> 86400 | Some ttl \<Rightarrow> ttl)\<rparr>)"

definition CreateAnsibleJob ::
  "'k automation_env \<Rightarrow> PolicyAutomation \<Rightarrow> string \<Rightarrow> ViolationContext \<Rightarrow> 'k \<Rightarrow> goerr option \<times> 'k" where
  "CreateAnsibleJob env policyAutomation mode violationContext k =
     (case (case ad_ExtraVars (as_Automation (pa_Spec policyAutomation)) of
              None \<Rightarrow> Inr (Some fmempty)
            | Some raw \<Rightarrow> au_Unmarshal env raw) of
        Inl e \<Rightarrow> (Some e, k)
      | Inr None \<Rightarrow> (Some nil_map, k)
      | Inr (Some vars) \<Rightarrow>
          let mapExtraVars = fold (\<lambda>(fieldName, value). fmupd fieldName value)
                               (context_vars violationContext) (fmmap JSONVar vars)
          in Create_AnsibleJob env (pa_Namespace policyAutomation)
               (ansible_job policyAutomation mode mapExtraVars) k)"

section \<open>The violation context\<close>

text \<open>\<^verbatim>\<open>TypeConverter\<close>: through JSON, the fields with the same tags are copied.\<close>

definition to_replicated_status :: "PolicyStatus \<Rightarrow> ReplicatedPolicyStatus" where
  "to_replicated_status st =
     \<lparr>rps_ComplianceState = st_ComplianceState st, rps_ViolationMessage = [],
      rps_Details = map (\<lambda>d. \<lparr>rdt_ComplianceState = dt_ComplianceState d,
        rdt_History = map (\<lambda>h. \<lparr>rch_LastTimestamp = ch_LastTimestamp h, rch_Message = ch_Message h\<rparr>)
                        (dt_History d)\<rparr>) (st_Details st)\<rparr>"

definition violation_status :: "PolicyStatus \<Rightarrow> ReplicatedPolicyStatus" where
  "violation_status st =
     (let rPlcStatus = to_replicated_status st in
      case st_Details st of
        [] \<Rightarrow> rPlcStatus
      | d # _ \<Rightarrow>
          (case dt_History d of
             [] \<Rightarrow> rPlcStatus
           | h # _ \<Rightarrow> rPlcStatus\<lparr>rps_ViolationMessage := ch_Message h\<rparr>))"

text \<open>The loop over the replicated policies, which breaks when the limit is reached.\<close>

fun collect_violations ::
  "nat \<Rightarrow> string list \<Rightarrow> Policy list \<Rightarrow> (string \<times> ReplicatedPolicyStatus) list \<Rightarrow>
   (string \<times> ReplicatedPolicyStatus) list" where
  "collect_violations contextLimit targetList [] violations = violations"
| "collect_violations contextLimit targetList (rPlc # rest) violations =
     (let clusterName = map_index (p_Labels rPlc) ClusterNameLabel in
      if clusterName \<notin> set targetList then collect_violations contextLimit targetList rest violations
      else
        let violations = AList.update clusterName (violation_status (p_Status rPlc)) violations in
        if 0 < contextLimit \<and> length violations = contextLimit then violations
        else collect_violations contextLimit targetList rest violations)"

definition getClusterDNSName :: "'k automation_env \<Rightarrow> 'k \<Rightarrow> goerr + string" where
  "getClusterDNSName env k =
     (case Get_DNS env k of
        Inl e \<Rightarrow> if IsNotFound e then Inr [] else Inl e
      | Inr dnsName \<Rightarrow> Inr dnsName)"

text \<open>The callers use the context and drop the error, so only the context is returned.\<close>

definition getViolationContext ::
  "'k automation_env \<Rightarrow> Policy \<Rightarrow> string list \<Rightarrow> PolicyAutomation \<Rightarrow> 'k \<Rightarrow> ViolationContext" where
  "getViolationContext env policy targetList policyAutomation k =
     (case getClusterDNSName env k of
        Inl _ \<Rightarrow> ViolationContext_zero
      | Inr hubCluster \<Rightarrow>
          let violationContext =
                \<lparr>vc_TargetClusters = Some targetList, vc_PolicyName = p_Name policy,
                 vc_PolicyNamespace = p_Namespace policy, vc_HubCluster = hubCluster,
                 vc_PolicySets = Some (filter (\<lambda>s. s \<noteq> [])
                   (map pl_PolicySet (items (st_Placement (p_Status policy))))),
                 vc_PolicyViolations = None\<rparr>
          in if targetList = [] then violationContext
             else
               (case List_Policies (api_read (au_api env) k)
                       [MatchingLabels RootPolicyLabel (FullNameForPolicy policy)] of
                  Inl _ \<Rightarrow> violationContext
                | Inr replicatedPlcList \<Rightarrow>
                    if replicatedPlcList = [] then violationContext
                    else
                      let contextLimit = unat (case ad_PolicyViolationsLimit (as_Automation (pa_Spec policyAutomation)) of
                                                 None \<Rightarrow> DefaultPolicyViolationsLimit | Some n \<Rightarrow> n)
                      in violationContext\<lparr>vc_PolicyViolations :=
                           Some (collect_violations contextLimit targetList replicatedPlcList [])\<rparr>))"

section \<open>The modes\<close>

definition setOwnerReferences ::
  "'k automation_env \<Rightarrow> PolicyAutomation \<Rightarrow> Policy \<Rightarrow> 'k \<Rightarrow> (goerr + PolicyAutomation) \<times> 'k" where
  "setOwnerReferences env policyAutomation policy k =
     (if list_ex (\<lambda>ownerRef. or_UID ownerRef = om_UID (p_ObjectMeta policy))
           (om_OwnerReferences (pa_ObjectMeta policyAutomation))
      then (Inr policyAutomation, k)
      else Update_PolicyAutomation env
             (policyAutomation\<lparr>pa_ObjectMeta := (pa_ObjectMeta policyAutomation)\<lparr>om_OwnerReferences :=
                [controller_ref (p_TypeMeta policy) (p_ObjectMeta policy)]\<rparr>\<rparr>) k)"

definition RerunAnnotation :: string where
  "RerunAnnotation = SchemeGroup @ ''/rerun''"

type_synonym 'k automation_out = "(ReconcileResult \<times> goerr option) \<times> 'k automation_state"

definition reconcile_rerun ::
  "'k automation_env \<Rightarrow> PolicyAutomation \<Rightarrow> Policy \<Rightarrow> 'k automation_state \<Rightarrow> 'k automation_out" where
  "reconcile_rerun env policyAutomation policy s =
     (case MatchPAResourceV env policyAutomation (om_ResourceVersion (pa_ObjectMeta policyAutomation)) (aus_world s) of
        Inl e \<Rightarrow> ((Result_zero, Some e), s)
      | Inr ajExist \<Rightarrow>
          if ajExist then ((Result_zero, None), s)
          else
            let targetList = FindNonCompliantClustersForPolicy policy;
                violationContext = getViolationContext env policy targetList policyAutomation (aus_world s)
            in (case CreateAnsibleJob env policyAutomation ''manual'' violationContext (aus_world s) of
                  (Some e, k) \<Rightarrow> ((Result_zero, Some e), s\<lparr>aus_world := k\<rparr>)
                | (None, k) \<Rightarrow>
                    let meta = pa_ObjectMeta policyAutomation;
                        policyAutomation = policyAutomation\<lparr>pa_ObjectMeta := meta\<lparr>om_Annotations :=
                          map_option (fmdrop RerunAnnotation) (om_Annotations meta)\<rparr>\<rparr>
                    in (case Update_PolicyAutomation env policyAutomation k of
                          (Inl e, k) \<Rightarrow> ((Result_zero, Some e), s\<lparr>aus_world := k\<rparr>)
                        | (Inr _, k) \<Rightarrow> ((Result_zero, None), s\<lparr>aus_world := k\<rparr>))))"

definition reconcile_scan ::
  "'k automation_env \<Rightarrow> PolicyAutomation \<Rightarrow> Policy \<Rightarrow> 'k automation_state \<Rightarrow> 'k automation_out" where
  "reconcile_scan env policyAutomation policy s =
     (case au_ParseDuration env (as_RescanAfter (pa_Spec policyAutomation)) of
        Inl e \<Rightarrow> ((Result_zero, Some e), s)
      | Inr requeueAfter \<Rightarrow>
          let targetList = FindNonCompliantClustersForPolicy policy;
              (err, k) = (if 0 < length targetList
                          then CreateAnsibleJob env policyAutomation ''scan''
                                 (getViolationContext env policy targetList policyAutomation (aus_world s)) (aus_world s)
                          else (None, aus_world s))
          in (case err of
                Some e \<Rightarrow> ((\<lparr>rr_RequeueAfter = requeueAfter\<rparr>, Some e), s\<lparr>aus_world := k\<rparr>)
              | None \<Rightarrow> ((\<lparr>rr_RequeueAfter = requeueAfter\<rparr>, None),
                         s\<lparr>aus_world := k, aus_counter := wrap64 (aus_counter s + 1)\<rparr>)))"

definition reconcile_once ::
  "'k automation_env \<Rightarrow> PolicyAutomation \<Rightarrow> Policy \<Rightarrow> 'k automation_state \<Rightarrow> 'k automation_out" where
  "reconcile_once env policyAutomation policy s =
     (let targetList = FindNonCompliantClustersForPolicy policy in
      if \<not> 0 < length targetList then ((Result_zero, None), s)
      else
        (case MatchPAGeneration env policyAutomation (om_Generation (pa_ObjectMeta policyAutomation)) (aus_world s) of
           Inl e \<Rightarrow> ((Result_zero, Some e), s)
         | Inr ajExist \<Rightarrow>
             if ajExist then ((Result_zero, None), s)
             else
               (case CreateAnsibleJob env policyAutomation Once
                       (getViolationContext env policy targetList policyAutomation (aus_world s)) (aus_world s) of
                  (Some e, k) \<Rightarrow> ((Result_zero, Some e), s\<lparr>aus_world := k\<rparr>)
                | (None, k) \<Rightarrow>
                    (case Update_PolicyAutomation env
                            (policyAutomation\<lparr>pa_Spec := (pa_Spec policyAutomation)\<lparr>as_Mode := DisabledMode\<rparr>\<rparr>) k of
                       (Inl e, k) \<Rightarrow> ((Result_zero, Some e), s\<lparr>aus_world := k\<rparr>)
                     | (Inr _, k) \<Rightarrow> ((Result_zero, None), s\<lparr>aus_world := k\<rparr>)))))"

text \<open>The variables of the loop over the events of mode \<^verbatim>\<open>everyEvent\<close>.\<close>

record event_loop =
  ev_eventMap :: "(string \<times> ClusterEvent) list"
  ev_trimmedTargetMap :: "string list"
  ev_requeueFlag :: bool
  ev_requeueDuration :: int

definition note_event ::
  "crypto_env \<Rightarrow> string list \<Rightarrow> 64 word \<Rightarrow> int \<Rightarrow> string \<times> ClusterEvent \<Rightarrow> event_loop \<Rightarrow> event_loop" where
  "note_event cr targetList delayAfterRunSeconds now entry l =
     (case entry of (clusterName, clusterEvent) \<Rightarrow>
      let drop_event = (\<lambda>l. l\<lparr>ev_eventMap := AList.delete clusterName (ev_eventMap l)\<rparr>);
          keep_event = (\<lambda>l. l\<lparr>ev_eventMap := AList.update clusterName
                               (clusterEvent\<lparr>ce_EventTime := cr_FormatUTC cr now\<rparr>) (ev_eventMap l)\<rparr>);
          (originalStartTime, ok) = parse_time cr (ce_AutomationStartTime clusterEvent);
          l = (if ok then l else drop_event l);
          (preEventTime, ok) = parse_time cr (ce_EventTime clusterEvent);
          l = (if ok then l else drop_event l);
          delayUntil = originalStartTime + wrap64 (sint delayAfterRunSeconds * Second)
      in if clusterName \<in> set targetList then
           if 0 < delayAfterRunSeconds \<and> originalStartTime < preEventTime then
             if delayUntil < now
             then (drop_event l)\<lparr>ev_trimmedTargetMap := add_key clusterName (ev_trimmedTargetMap l)\<rparr>
             else
               let d = wrap64 (sat64 (delayUntil - now) + 1) in
               keep_event (l\<lparr>ev_requeueFlag := True,
                 ev_requeueDuration := (if ev_requeueDuration l = 0 \<or> d < ev_requeueDuration l then d
                                        else ev_requeueDuration l)\<rparr>)
           else l
         else if 0 < delayAfterRunSeconds \<and> now < delayUntil then keep_event l
         else drop_event l)"

definition note_events ::
  "crypto_env \<Rightarrow> string list \<Rightarrow> 64 word \<Rightarrow> int \<Rightarrow> (string \<times> ClusterEvent) list \<Rightarrow> event_loop" where
  "note_events cr targetList delayAfterRunSeconds now eventMap =
     fold (note_event cr targetList delayAfterRunSeconds now) eventMap
       \<lparr>ev_eventMap = eventMap, ev_trimmedTargetMap = [], ev_requeueFlag = False, ev_requeueDuration = 0\<rparr>"

definition trimmed_targets :: "string list \<Rightarrow> event_loop \<Rightarrow> string list" where
  "trimmed_targets targetList l =
     fold (\<lambda>clusterName trimmed.
             if map_of (ev_eventMap l) clusterName = None then add_key clusterName trimmed else trimmed)
       targetList (ev_trimmedTargetMap l)"

text \<open>The job was started: every target gets an event with the start of the job.\<close>

definition record_events ::
  "crypto_env \<Rightarrow> string list \<Rightarrow> int \<Rightarrow> int \<Rightarrow> (string \<times> ClusterEvent) list \<Rightarrow> (string \<times> ClusterEvent) list" where
  "record_events cr trimmedTargetList automationStartTime now eventMap =
     fold (\<lambda>clusterName. AList.update clusterName
             \<lparr>ce_AutomationStartTime = cr_FormatUTC cr automationStartTime, ce_EventTime = cr_FormatUTC cr now\<rparr>)
       trimmedTargetList eventMap"

definition reconcile_every_event ::
  "'k automation_env \<Rightarrow> PolicyAutomation \<Rightarrow> Policy \<Rightarrow> 'k automation_state \<Rightarrow> 'k automation_out" where
  "reconcile_every_event env policyAutomation policy s =
     (let targetList = FindNonCompliantClustersForPolicy policy;
          delayAfterRunSeconds = as_DelayAfterRunSeconds (pa_Spec policyAutomation);
          k = aus_world s;
          now = Now (au_api env) k;
          l = note_events (au_crypto env) targetList delayAfterRunSeconds now
                (pas_ClustersWithEvent (pa_Status policyAutomation));
          trimmedTargetMap = trimmed_targets targetList l;
          trimmedTargetList = au_order env trimmedTargetMap;
          (err, k) = (if 0 < length trimmedTargetMap
                      then CreateAnsibleJob env policyAutomation EveryEvent
                             (getViolationContext env policy trimmedTargetList policyAutomation k) k
                      else (None, k))
      in case err of
           Some e \<Rightarrow> ((Result_zero, Some e), s\<lparr>aus_world := k\<rparr>)
         | None \<Rightarrow>
             let eventMap = (if 0 < length trimmedTargetMap
                             then record_events (au_crypto env) trimmedTargetList (Now (au_api env) k) now (ev_eventMap l)
                             else ev_eventMap l)
             in (case UpdateStatus_PolicyAutomation env
                        (policyAutomation\<lparr>pa_Status := \<lparr>pas_ClustersWithEvent = eventMap\<rparr>\<rparr>) k of
                   (Some e, k) \<Rightarrow> ((Result_zero, Some e), s\<lparr>aus_world := k\<rparr>)
                 | (None, k) \<Rightarrow>
                     ((if ev_requeueFlag l then \<lparr>rr_RequeueAfter = ev_requeueDuration l\<rparr> else Result_zero, None),
                      s\<lparr>aus_world := k\<rparr>)))"

section \<open>Reconcile\<close>

definition run_automation ::
  "'k automation_env \<Rightarrow> PolicyAutomation \<Rightarrow> Policy \<Rightarrow> 'k automation_state \<Rightarrow> 'k automation_out" where
  "run_automation env policyAutomation policy s =
     (if map_index (om_Annotations (pa_ObjectMeta policyAutomation)) RerunAnnotation = ''true''
      then reconcile_rerun env policyAutomation policy s
      else if ps_Disabled (p_Spec policy) then ((Result_zero, None), s)
      else
        let mode = as_Mode (pa_Spec policyAutomation) in
        if mode = ''scan'' then reconcile_scan env policyAutomation policy s
        else if mode = Once then reconcile_once env policyAutomation policy s
        else if mode = EveryEvent then reconcile_every_event env policyAutomation policy s
        else ((Result_zero, None), s))"

definition PolicyAutomation_Reconcile ::
  "'k automation_env \<Rightarrow> Request \<Rightarrow> 'k automation_state \<Rightarrow> 'k automation_out" where
  "PolicyAutomation_Reconcile env request s =
     (case Get_PolicyAutomation env (aus_world s) request of
        Inl e \<Rightarrow> ((Result_zero, if IsNotFound e then None else Some e), s)
      | Inr policyAutomation \<Rightarrow>
          if as_PolicyRef (pa_Spec policyAutomation) = [] then ((Result_zero, None), s)
          else
            (case Get_Policy (api_read (au_api env) (aus_world s))
                    (nn (pa_Namespace policyAutomation) (as_PolicyRef (pa_Spec policyAutomation))) of
               Inl e \<Rightarrow> ((Result_zero, if IsNotFound e then None else Some e), s)
             | Inr policy \<Rightarrow>
                 (case setOwnerReferences env policyAutomation policy (aus_world s) of
                    (Inl e, k) \<Rightarrow> ((Result_zero, Some e), s\<lparr>aus_world := k\<rparr>)
                  | (Inr policyAutomation, k) \<Rightarrow> run_automation env policyAutomation policy (s\<lparr>aus_world := k\<rparr>))))"

section \<open>Events\<close>

definition automation_policyMapper :: "'k automation_env \<Rightarrow> 'k \<Rightarrow> Policy \<Rightarrow> Request list" where
  "automation_policyMapper env k policy =
     (case List_PolicyAutomations env k (p_Namespace policy) of
        Inl _ \<Rightarrow> []
      | Inr automations \<Rightarrow>
          (case find (\<lambda>pa. as_PolicyRef (pa_Spec pa) = p_Name policy) automations of
             None \<Rightarrow> []
           | Some pa \<Rightarrow>
               let modeType = as_Mode (pa_Spec pa) in
               if modeType \<noteq> ''scan'' \<and> modeType = Once \<or> modeType = EveryEvent
               then [nn (pa_Namespace pa) (pa_Name pa)] else []))"

definition automation_policy_UpdateFunc :: "Policy \<Rightarrow> Policy \<Rightarrow> bool" where
  "automation_policy_UpdateFunc plcObjOld plcObjNew =
     (if map_has (p_Labels plcObjNew) RootPolicyLabel then False
      else st_Status (p_Status plcObjNew) \<noteq> st_Status (p_Status plcObjOld))"

definition policyAutomation_UpdateFunc :: "PolicyAutomation \<Rightarrow> PolicyAutomation \<Rightarrow> bool" where
  "policyAutomation_UpdateFunc policyAutomationOld policyAutomationNew =
     (if as_PolicyRef (pa_Spec policyAutomationNew) = [] then False
      else if map_index (om_Annotations (pa_ObjectMeta policyAutomationNew)) RerunAnnotation = ''true'' then True
      else pa_Spec policyAutomationNew \<noteq> pa_Spec policyAutomationOld)"

definition policyAutomation_CreateFunc :: "PolicyAutomation \<Rightarrow> bool" where
  "policyAutomation_CreateFunc policyAutomationNew = (as_PolicyRef (pa_Spec policyAutomationNew) \<noteq> [])"

section \<open>Jobs and their targets\<close>

definition job_targets :: "AnsibleJob \<Rightarrow> string set" where
  "job_targets aj =
     (case fmlookup (aj_extra_vars aj) ''target_clusters'' of Some (StringsVar ts) \<Rightarrow> set (items ts) | _ \<Rightarrow> {})"

lemma fold_fmupd_lookup:
  "distinct (map fst kvs) \<Longrightarrow>
     fmlookup (fold (\<lambda>(k, v). fmupd k v) kvs m) x = (case map_of kvs x of None \<Rightarrow> fmlookup m x | Some v \<Rightarrow> Some v)"
proof (induction kvs arbitrary: m)
  case (Cons kv kvs)
  then have "map_of kvs (fst kv) = None" by (simp add: map_of_eq_None_iff)
  with Cons show ?case by (cases kv) (simp split: option.splits)
qed simp

lemma context_vars_keys: "distinct (map fst (context_vars vc))"
  by (simp add: context_vars_def)

text \<open>The variables that the user configured.\<close>

definition user_vars :: "'k automation_env \<Rightarrow> PolicyAutomation \<Rightarrow> string \<Rightarrow> ExtraVar option" where
  "user_vars env pa x = map_option JSONVar
     (case ad_ExtraVars (as_Automation (pa_Spec pa)) of
        None \<Rightarrow> None
      | Some raw \<Rightarrow> Option.bind (case au_Unmarshal env raw of Inl _ \<Rightarrow> None | Inr m \<Rightarrow> m) (\<lambda>m. fmlookup m x))"

text \<open>The job of a successful \<^verbatim>\<open>CreateAnsibleJob\<close>: the fields of the context win over the user's variables.\<close>

lemma CreateAnsibleJob_job:
  assumes "CreateAnsibleJob env pa mode vc k = (None, k')"
  obtains vars where "Create_AnsibleJob env (pa_Namespace pa) (ansible_job pa mode vars) k = (None, k')"
    and "\<And>x. fmlookup vars x = (case map_of (context_vars vc) x of
           Some v \<Rightarrow> Some v | None \<Rightarrow> user_vars env pa x)"
  using assms
  by (auto simp: CreateAnsibleJob_def user_vars_def Let_def fold_fmupd_lookup [OF context_vars_keys] fun_eq_iff
      split: option.splits sum.splits intro!: that)

lemma job_targets_context:
  assumes "\<And>x. fmlookup vars x = (case map_of (context_vars vc) x of Some v \<Rightarrow> Some v | None \<Rightarrow> f x)"
  shows "job_targets (ansible_job pa mode vars) = set (items (vc_TargetClusters vc))"
  by (simp add: job_targets_def ansible_job_def Let_def assms context_vars_def)

lemma getViolationContext_targets:
  "set (items (vc_TargetClusters (getViolationContext env policy ts pa k))) \<subseteq> set ts"
  by (simp add: getViolationContext_def ViolationContext_zero_def items_def Let_def split: sum.splits)

lemma CreateAnsibleJob_targets:
  assumes "CreateAnsibleJob env pa mode (getViolationContext env policy ts pa k0) k = (None, k')"
  obtains aj where "Create_AnsibleJob env (pa_Namespace pa) aj k = (None, k')" "job_targets aj \<subseteq> set ts"
proof -
  obtain vars where vars: "Create_AnsibleJob env (pa_Namespace pa) (ansible_job pa mode vars) k = (None, k')"
    "\<And>x. fmlookup vars x = (case map_of (context_vars (getViolationContext env policy ts pa k0)) x of
       Some v \<Rightarrow> Some v | None \<Rightarrow> user_vars env pa x)"
    by (rule CreateAnsibleJob_job [OF assms]) blast
  have "job_targets (ansible_job pa mode vars) \<subseteq> set ts"
    using job_targets_context [OF vars(2)] getViolationContext_targets [of env policy ts pa k0] by simp
  with vars(1) show ?thesis by (rule that)
qed

section \<open>Decimal numbers\<close>

definition decimal :: "string \<Rightarrow> nat" where
  "decimal s = foldl (\<lambda>n c. 10 * n + (of_char c - 48)) 0 s"

lemma decimal_digits [simp]: "decimal (digits n) = n"
proof (induction n rule: digits.induct)
  case (1 n)
  have "of_char (char_of (48 + m) :: char) - 48 = m" if "m < 10" for m :: nat
    using that by simp
  with 1 show ?case by (subst digits.simps) (simp add: decimal_def)
qed

lemma digits_not_minus: "digits n \<noteq> CHR ''-'' # s"
proof (induction n arbitrary: s rule: digits.induct)
  case (1 n)
  have "char_of (48 + m) \<noteq> CHR ''-''" if "m < 10" for m :: nat
  proof
    assume "char_of (48 + m) = CHR ''-''"
    then have "of_char (char_of (48 + m) :: char) = (of_char CHR ''-'' :: nat)" by simp
    with that show False by simp
  qed
  with 1 show ?case by (subst digits.simps) (auto simp: append_eq_Cons_conv)
qed

lemma FormatInt_inj: "FormatInt i = FormatInt j \<longleftrightarrow> i = j"
proof
  assume eq: "FormatInt i = FormatInt j"
  have "digits m = digits n \<longleftrightarrow> m = n" for m n by (metis decimal_digits)
  with eq show "i = j" by (auto simp: FormatInt_def digits_not_minus digits_not_minus [symmetric] split: if_splits)
qed simp

section \<open>Jobs of mode once\<close>

text \<open>
  The jobs of a namespace as a function of the world: a create adds one, a failed create and an
  update of a PolicyAutomation add none, and a list returns those with the label.
\<close>

definition job_store :: "'k automation_env \<Rightarrow> ('k \<Rightarrow> string \<Rightarrow> AnsibleJob list) \<Rightarrow> bool" where
  "job_store env jobs \<longleftrightarrow>
     (\<forall>ns aj k k'. Create_AnsibleJob env ns aj k = (None, k') \<longrightarrow> jobs k' = (jobs k)(ns := aj # jobs k ns)) \<and>
     (\<forall>ns aj k e k'. Create_AnsibleJob env ns aj k = (Some e, k') \<longrightarrow> jobs k' = jobs k) \<and>
     (\<forall>pa k r k'. Update_PolicyAutomation env pa k = (r, k') \<longrightarrow> jobs k' = jobs k) \<and>
     (\<forall>k ns name l. List_AnsibleJobs env k ns name = Inr l \<longrightarrow>
        set l = {aj \<in> set (jobs k ns). map_index (aj_Labels aj) PolicyAutomationLabel = name})"

text \<open>The job belongs to this generation of the PolicyAutomation.\<close>

definition job_of :: "PolicyAutomation \<Rightarrow> AnsibleJob \<Rightarrow> bool" where
  "job_of pa aj \<longleftrightarrow>
     map_index (aj_Labels aj) PolicyAutomationLabel = pa_Name pa \<and>
     map_index (aj_Annotations aj) PolicyAutomationGeneration = FormatInt (om_Generation (pa_ObjectMeta pa))"

lemma job_of_ansible_job:
  "job_of pa (ansible_job pa' mode vars) \<longleftrightarrow>
     pa_Name pa' = pa_Name pa \<and> om_Generation (pa_ObjectMeta pa') = om_Generation (pa_ObjectMeta pa)"
  by (auto simp: job_of_def ansible_job_def Let_def FormatInt_inj PolicyAutomationGeneration_def PolicyAutomationResouceV_def)

lemma MatchPAGeneration_jobs:
  assumes "job_store env jobs" and "MatchPAGeneration env pa (om_Generation (pa_ObjectMeta pa)) k = Inr b"
  shows "b \<longleftrightarrow> (\<exists>aj \<in> set (jobs k (pa_Namespace pa)). job_of pa aj)"
  using assms by (auto simp: job_store_def MatchPAGeneration_def job_of_def list_ex_iff split: sum.splits)

lemma CreateAnsibleJob_jobs:
  assumes "job_store env jobs" and "CreateAnsibleJob env pa mode vc k = (err, k')"
  shows "jobs k' = jobs k \<or>
    (\<exists>vars. err = None \<and> jobs k' = (jobs k)(pa_Namespace pa := ansible_job pa mode vars # jobs k (pa_Namespace pa)))"
  using assms unfolding job_store_def CreateAnsibleJob_def Let_def
  by (cases err) (auto split: option.splits sum.splits)

section \<open>Properties\<close>

text \<open>The clock, the created jobs with their namespaces and times, and the stored events.\<close>

record ex_world =
  ew_time :: int
  ew_jobs :: "(string \<times> AnsibleJob \<times> int) list"
  ew_events :: "(string \<times> ClusterEvent) list"

definition ex_clock :: crypto_env where
  "ex_clock = ex_crypto\<lparr>cr_FormatUTC := \<lambda>t. digits (nat (t div Second)), cr_Parse := \<lambda>s. Inr (int (decimal s) * Second)\<rparr>"

definition ex_world_api :: "client_reader \<Rightarrow> ex_world api" where
  "ex_world_api c =
     \<lparr>api_read = (\<lambda>_. c), Create_Policy = (\<lambda>p k. (Inr p, k)), Update_Policy = (\<lambda>p k. (Inr p, k)),
      Delete_Policy = (\<lambda>p k. (None, k)), UpdateStatus_Policy = (\<lambda>p k. (None, k)),
      PatchStatus_PolicySet = (\<lambda>s k. (None, k)), AddOrUpdateWatcher = (\<lambda>_ _ k. (None, k)),
      RemoveWatcher = (\<lambda>_ k. (None, k)), Create_Secret = (\<lambda>s k. (Inr s, k)), Update_Secret = (\<lambda>s k. (Inr s, k)),
      Patch_Policy = (\<lambda>n _ k. (None, k)), Now = ew_time, RandRead = (\<lambda>n k. (Inr (replicate n CHR ''r''), k)),
      GroupVersionKind = (\<lambda>tm. (SchemeGroup, ''v1'', tm_Kind tm))\<rparr>"

definition ex_automation :: PolicyAutomation where
  "ex_automation =
     \<lparr>pa_TypeMeta = \<lparr>tm_Kind = ''PolicyAutomation'', tm_APIVersion = PolicyGroupVersion\<rparr>,
      pa_ObjectMeta = ex_meta ''ns'' ''My.auto'',
      pa_Spec = \<lparr>as_Automation = \<lparr>ad_Type = [], ad_Name = ''job'', ad_ExtraVars = None, ad_TowerSecret = ''tower'',
          ad_JobTTL = None, ad_PolicyViolationsLimit = Some 1\<rparr>,
        as_Mode = Once, as_PolicyRef = ''p'', as_EventHook = ''noncompliant'', as_RescanAfter = [], as_DelayAfterRunSeconds = 60\<rparr>,
      pa_Status = \<lparr>pas_ClustersWithEvent = []\<rparr>\<rparr>"

definition ex_jobs :: "ex_world \<Rightarrow> string \<Rightarrow> AnsibleJob list" where
  "ex_jobs k ns = map (fst \<circ> snd) (filter (\<lambda>j. fst j = ns) (ew_jobs k))"

definition ex_automation_env :: "client_reader \<Rightarrow> bool \<Rightarrow> ex_world automation_env" where
  "ex_automation_env c ok =
     \<lparr>au_api = ex_world_api c, au_crypto = ex_clock,
      Get_PolicyAutomation = (\<lambda>_ _. Inr ex_automation), List_PolicyAutomations = (\<lambda>_ _. Inr [ex_automation]),
      Update_PolicyAutomation = (\<lambda>pa k. (if ok then Inr pa else Inl (ApiStatus TimeoutReason), k)),
      UpdateStatus_PolicyAutomation = (\<lambda>pa k. (None, k\<lparr>ew_events := pas_ClustersWithEvent (pa_Status pa)\<rparr>)),
      List_AnsibleJobs = (\<lambda>k ns n. Inr (filter (\<lambda>aj. map_index (aj_Labels aj) PolicyAutomationLabel = n) (ex_jobs k ns))),
      Create_AnsibleJob = (\<lambda>ns aj k. (None, k\<lparr>ew_jobs := (ns, aj, ew_time k) # ew_jobs k\<rparr>)),
      Get_DNS = (\<lambda>_. Inl (ApiStatus NotFound)), au_ParseDuration = (\<lambda>_. Inr Second),
      au_Unmarshal = (\<lambda>_. Inr None), au_order = (\<lambda>xs. xs)\<rparr>"

lemma ex_job_store: "job_store (ex_automation_env c ok) ex_jobs"
  by (auto simp: job_store_def ex_automation_env_def ex_jobs_def fun_eq_iff)

definition ex_violated :: Policy where
  "ex_violated = ex_root\<lparr>p_Status := PolicyStatus_zero\<lparr>st_Status :=
     Some [\<lparr>cs_ComplianceState = NonCompliant, cs_ClusterName = ''c1'', cs_ClusterNamespace = ''c1'', cs_RemainingBindings = []\<rparr>]\<rparr>\<rparr>"

text \<open>A reconcile in mode \<^verbatim>\<open>once\<close> adds a job only when there is none of its generation.\<close>

lemma reconcile_once_jobs:
  assumes store: "job_store env jobs" and "reconcile_once env pa policy s = (r, s')"
  shows "jobs (aus_world s') = jobs (aus_world s) \<or>
    (\<exists>vars. jobs (aus_world s') = (jobs (aus_world s))(pa_Namespace pa :=
        ansible_job pa Once vars # jobs (aus_world s) (pa_Namespace pa)) \<and>
      (\<forall>aj \<in> set (jobs (aus_world s) (pa_Namespace pa)). \<not> job_of pa aj))"
proof (cases "aus_world s' = aus_world s")
  case False
  let ?k = "aus_world s"
  let ?vc = "getViolationContext env policy (FindNonCompliantClustersForPolicy policy) pa ?k"
  from assms(2) False obtain err k1 where
    none: "MatchPAGeneration env pa (om_Generation (pa_ObjectMeta pa)) ?k = Inr False" and
    job: "CreateAnsibleJob env pa Once ?vc ?k = (err, k1)" and
    upd: "aus_world s' = k1 \<or> (\<exists>pa' r. Update_PolicyAutomation env pa' k1 = (r, aus_world s'))"
    by (auto simp: reconcile_once_def Let_def split: if_splits sum.splits prod.splits option.splits) blast+
  from upd store have "jobs (aus_world s') = jobs k1" unfolding job_store_def by blast
  with CreateAnsibleJob_jobs [OF store job] MatchPAGeneration_jobs [OF store none] show ?thesis by auto
qed simp

text \<open>C17. In mode \<^verbatim>\<open>once\<close> at most one job per generation of a PolicyAutomation is started: a reconcile
  of any PolicyAutomation in mode \<^verbatim>\<open>once\<close>, in whatever state and however its writes end, keeps the
  number of jobs of a generation at most one.\<close>

theorem once_at_most_one_job:
  assumes "job_store env jobs" and "length (filter (job_of pa) (jobs (aus_world s) ns)) \<le> 1"
  shows "length (filter (job_of pa) (jobs (aus_world (snd (reconcile_once env pa' policy s))) ns)) \<le> 1"
proof -
  obtain r s' where once: "reconcile_once env pa' policy s = (r, s')" by fastforce
  have same: "job_of pa aj = job_of pa' aj" if "job_of pa (ansible_job pa' Once vars)" for vars aj
    using that by (simp add: job_of_ansible_job) (simp add: job_of_def)
  from reconcile_once_jobs [OF assms(1) once] assms(2) once show ?thesis
    by (auto simp: same filter_empty_conv)
qed

theorem once_at_most_one_job_witness:
  "length (filter (job_of ex_automation) (ex_jobs (aus_world (snd (reconcile_once (ex_automation_env ex_reader True)
     ex_automation ex_violated \<lparr>aus_world = \<lparr>ew_time = 0, ew_jobs = [], ew_events = []\<rparr>, aus_counter = 0\<rparr>))) ''ns'')) \<le> 1"
  by (rule once_at_most_one_job [OF ex_job_store]) (simp add: ex_jobs_def)

text \<open>C39. When a job was started in mode \<^verbatim>\<open>once\<close> and the update that disables the mode fails, the
  retry finds the job and ends without error and without a write: the mode is never disabled, so the
  next change of the specification starts a job again.\<close>

theorem once_stays_enabled:
  assumes "job_store env jobs" and "reconcile_once env pa policy s = ((Result_zero, Some e), s')"
    and "jobs (aus_world s') \<noteq> jobs (aus_world s)"
    and "List_AnsibleJobs env (aus_world s') (pa_Namespace pa) (pa_Name pa) = Inr listed"
  shows "reconcile_once env pa policy s' = ((Result_zero, None), s')"
proof -
  from reconcile_once_jobs [OF assms(1,2)] assms(3) obtain vars where
    "jobs (aus_world s') (pa_Namespace pa) = ansible_job pa Once vars # jobs (aus_world s) (pa_Namespace pa)" by auto
  then have "\<exists>aj \<in> set (jobs (aus_world s') (pa_Namespace pa)). job_of pa aj"
    by (simp add: job_of_ansible_job)
  moreover obtain b where b: "MatchPAGeneration env pa (om_Generation (pa_ObjectMeta pa)) (aus_world s') = Inr b"
    using assms(4) by (simp add: MatchPAGeneration_def)
  ultimately have "b" using MatchPAGeneration_jobs [OF assms(1) b] by blast
  with b show ?thesis by (simp add: reconcile_once_def Let_def)
qed

theorem once_stays_enabled_witness:
  "\<exists>s'. reconcile_once (ex_automation_env ex_reader False) ex_automation ex_violated s' = ((Result_zero, None), s')
     \<and> ew_jobs (aus_world s') \<noteq> []"
proof -
  let ?env = "ex_automation_env ex_reader False"
  let ?s = "\<lparr>aus_world = \<lparr>ew_time = 0, ew_jobs = [], ew_events = []\<rparr>, aus_counter = 0\<rparr>"
  let ?s' = "snd (reconcile_once ?env ex_automation ex_violated ?s)"
  have "reconcile_once ?env ex_automation ex_violated ?s = ((Result_zero, Some (ApiStatus TimeoutReason)), ?s')
      \<and> ew_jobs (aus_world ?s') \<noteq> [] \<and> ex_jobs (aus_world ?s') \<noteq> ex_jobs (aus_world ?s)"
    by (simp add: reconcile_once_def MatchPAGeneration_def CreateAnsibleJob_def ex_automation_env_def ex_jobs_def fun_eq_iff
        FindNonCompliantClustersForPolicy_def ex_violated_def items_def ex_automation_def ex_objects NonCompliant_def Let_def)
  then have first: "reconcile_once ?env ex_automation ex_violated ?s = ((Result_zero, Some (ApiStatus TimeoutReason)), ?s')"
    "ex_jobs (aus_world ?s') \<noteq> ex_jobs (aus_world ?s)" "ew_jobs (aus_world ?s') \<noteq> []" by blast+
  have "List_AnsibleJobs ?env (aus_world ?s') (pa_Namespace ex_automation) (pa_Name ex_automation) =
      Inr (filter (\<lambda>aj. map_index (aj_Labels aj) PolicyAutomationLabel = pa_Name ex_automation)
        (ex_jobs (aus_world ?s') (pa_Namespace ex_automation)))" by (simp add: ex_automation_env_def)
  from once_stays_enabled [OF ex_job_store first(1,2) this] first(3) show ?thesis by blast
qed

text \<open>The loop over the replicas: what it collects, and when it stops early.\<close>

lemma length_update_le: "length (AList.update k v m) \<le> Suc (length m)"
  by (induction m) auto

abbreviation replica_cluster :: "Policy \<Rightarrow> string" where
  "replica_cluster rPlc \<equiv> map_index (p_Labels rPlc) ClusterNameLabel"

lemma collect_violations_keys:
  assumes "distinct (map fst acc)"
  shows "distinct (map fst (collect_violations n ts ps acc)) \<and>
    fst ` set acc \<subseteq> fst ` set (collect_violations n ts ps acc) \<and>
    fst ` set (collect_violations n ts ps acc) \<subseteq> fst ` set acc \<union> (replica_cluster ` set ps \<inter> set ts) \<and>
    (0 < n \<longrightarrow> length acc < n \<longrightarrow> length (collect_violations n ts ps acc) \<le> n) \<and>
    (fst ` set (collect_violations n ts ps acc) = fst ` set acc \<union> (replica_cluster ` set ps \<inter> set ts) \<or>
     0 < n \<and> length (collect_violations n ts ps acc) = n)"
  using assms
proof (induction ps arbitrary: acc)
  case (Cons rPlc ps)
  let ?acc = "AList.update (replica_cluster rPlc) (violation_status (p_Status rPlc)) acc"
  have d: "distinct (map fst ?acc)" using Cons.prems by (simp add: distinct_update)
  have k: "fst ` set ?acc = insert (replica_cluster rPlc) (fst ` set acc)"
    using dom_map_of_conv_image_fst [of ?acc] dom_map_of_conv_image_fst [of acc] by (simp add: update_conv')
  show ?case
  proof (cases "replica_cluster rPlc \<in> set ts")
    case True
    with Cons.IH [OF d] d k length_update_le [of "replica_cluster rPlc" "violation_status (p_Status rPlc)" acc]
    show ?thesis by (auto simp: Let_def)
  next
    case False
    with Cons.IH [OF Cons.prems] show ?thesis by (auto simp: Let_def)
  qed
qed simp

lemma collect_violations_status:
  assumes "map_of (collect_violations n ts ps acc) c = Some st"
  shows "map_of acc c = Some st \<or> (\<exists>rPlc \<in> set ps. replica_cluster rPlc = c \<and> st = violation_status (p_Status rPlc))"
  using assms
  by (induction ps arbitrary: acc) (fastforce simp: Let_def update_conv' split: if_splits)+

text \<open>The violations that a job reports are statuses of replicas of target clusters, one per
  cluster, at most as many as the limit when it is not zero; and when no limit cuts them off, every
  target cluster with a replica is reported.\<close>

theorem violations_limited:
  assumes "vc_PolicyViolations (getViolationContext env policy ts pa k) = Some vs"
  defines "limit \<equiv> unat (case ad_PolicyViolationsLimit (as_Automation (pa_Spec pa)) of None \<Rightarrow> 1000 | Some n \<Rightarrow> n)"
  shows "\<exists>ps. List_Policies (api_read (au_api env) k) [MatchingLabels RootPolicyLabel (FullNameForPolicy policy)] = Inr ps \<and>
    distinct (map fst vs) \<and>
    (\<forall>c st. map_of vs c = Some st \<longrightarrow> c \<in> set ts \<and>
       (\<exists>rPlc \<in> set ps. map_index (p_Labels rPlc) ClusterNameLabel = c \<and> st = violation_status (p_Status rPlc))) \<and>
    (0 < limit \<longrightarrow> length vs \<le> limit) \<and>
    (limit = 0 \<or> card (replica_cluster ` set ps \<inter> set ts) \<le> limit \<longrightarrow>
       fst ` set vs = replica_cluster ` set ps \<inter> set ts)"
proof -
  from assms(1) obtain ps where
    ps: "List_Policies (api_read (au_api env) k) [MatchingLabels RootPolicyLabel (FullNameForPolicy policy)] = Inr ps"
    and vs: "vs = collect_violations limit ts ps []"
    unfolding getViolationContext_def limit_def DefaultPolicyViolationsLimit_def
    by (auto simp: ViolationContext_zero_def Let_def split: sum.splits if_splits)
  note keys = collect_violations_keys [of "[]" limit ts ps, folded vs, simplified]
  have sub: "fst ` set vs \<subseteq> replica_cluster ` set ps \<inter> set ts" using keys by simp
  have full: "fst ` set vs = replica_cluster ` set ps \<inter> set ts"
    if "limit = 0 \<or> card (replica_cluster ` set ps \<inter> set ts) \<le> limit"
  proof (cases "fst ` set vs = replica_cluster ` set ps \<inter> set ts")
    case False
    then have "length vs = limit" "0 < limit" using keys by auto
    moreover have "card (fst ` set vs) = length vs" using keys distinct_card [of "map fst vs"] by simp
    ultimately show ?thesis using sub that by (intro card_seteq) auto
  qed
  have status: "c \<in> set ts" "\<exists>rPlc \<in> set ps. replica_cluster rPlc = c \<and> st = violation_status (p_Status rPlc)"
    if "map_of vs c = Some st" for c st
  proof -
    from map_of_SomeD [OF that] sub show "c \<in> set ts" by force
    from collect_violations_status [of limit ts ps "[]" c st] that vs
    show "\<exists>rPlc \<in> set ps. replica_cluster rPlc = c \<and> st = violation_status (p_Status rPlc)" by simp
  qed
  have "distinct (map fst vs)" "0 < limit \<Longrightarrow> length vs \<le> limit" using keys by auto
  with ps status full show ?thesis by (intro exI [of _ ps] conjI allI impI)
qed

definition ex_replicas :: "Policy list" where
  "ex_replicas = map (\<lambda>c. ex_replica\<lparr>p_ObjectMeta := (ex_labelled ''5'')\<lparr>om_Labels := Some (fmupd ClusterNameLabel c fmempty)\<rparr>\<rparr>)
     [''c1'', ''c2'']"

theorem violations_limited_witness:
  "\<exists>vs. vc_PolicyViolations (getViolationContext (ex_automation_env (ex_reader\<lparr>List_Policies := \<lambda>_. Inr ex_replicas\<rparr>) True)
     ex_violated [''c2'', ''c1''] ex_automation \<lparr>ew_time = 0, ew_jobs = [], ew_events = []\<rparr>) = Some vs \<and> length vs = 1"
proof -
  let ?env = "ex_automation_env (ex_reader\<lparr>List_Policies := \<lambda>_. Inr ex_replicas\<rparr>) True"
  let ?w = "\<lparr>ew_time = 0, ew_jobs = [], ew_events = []\<rparr>"
  obtain vs where vs: "vc_PolicyViolations (getViolationContext ?env ex_violated [''c2'', ''c1''] ex_automation ?w) = Some vs"
    "vs \<noteq> []"
    by (simp add: getViolationContext_def getClusterDNSName_def ex_automation_env_def ex_world_api_def ex_replicas_def
        ex_automation_def ex_objects Let_def)
  from violations_limited [OF vs(1)] have "length vs \<le> 1" by (auto simp: ex_automation_def)
  with vs show ?thesis by (cases vs) auto
qed

text \<open>The characters that the name of a Kubernetes object may have.\<close>

definition dns_char :: "char \<Rightarrow> bool" where
  "dns_char c \<longleftrightarrow> c = CHR ''-'' \<or> (let n = (of_char c :: nat) in 48 \<le> n \<and> n \<le> 57 \<or> 97 \<le> n \<and> n \<le> 122)"

lemma dns_char_lower: "alphanumeric c \<Longrightarrow> dns_char (lower_char c)"
  by (auto simp: alphanumeric_def dns_char_def lower_char_def Let_def)

text \<open>The job that is created is labelled with the PolicyAutomation and annotated with its
  generation, so that the controller recognises it; its targets are those of the violation context,
  whose fields win over the user's variables, and the other variables are the user's; its name has
  only characters that Kubernetes admits.\<close>

theorem job_contents:
  assumes "CreateAnsibleJob env pa mode vc k = (None, k')" and "list_all alphanumeric mode"
  shows "\<exists>aj. Create_AnsibleJob env (pa_Namespace pa) aj k = (None, k') \<and> job_of pa aj \<and>
    job_targets aj = set (items (vc_TargetClusters vc)) \<and>
    (\<forall>x v. map_of (context_vars vc) x = Some v \<longrightarrow> fmlookup (aj_extra_vars aj) x = Some v) \<and>
    (\<forall>x. map_of (context_vars vc) x = None \<longrightarrow> fmlookup (aj_extra_vars aj) x = user_vars env pa x) \<and>
    list_all dns_char (aj_GenerateName aj)"
proof -
  obtain vars where c: "Create_AnsibleJob env (pa_Namespace pa) (ansible_job pa mode vars) k = (None, k')"
    and v: "\<And>x. fmlookup vars x = (case map_of (context_vars vc) x of
           Some v \<Rightarrow> Some v | None \<Rightarrow> user_vars env pa x)"
    by (rule CreateAnsibleJob_job [OF assms(1)]) blast
  have hyphen: "dns_char (lower_char CHR ''-'')" by (simp add: dns_char_def lower_char_def)
  have "list_all dns_char (aj_GenerateName (ansible_job pa mode vars))"
    using assms(2) dns_char_lower hyphen by (auto simp: ansible_job_def replace_special_def Let_def list_all_iff)
  moreover have "aj_extra_vars (ansible_job pa mode vars) = vars" by (simp add: ansible_job_def Let_def)
  ultimately show ?thesis using c job_targets_context [OF v, of pa mode] v
    by (intro exI [of _ "ansible_job pa mode vars"] conjI allI impI) (simp_all add: job_of_ansible_job)
qed

theorem job_contents_witness:
  "\<exists>aj. job_targets aj = {''c1'', ''c2''} \<and> job_of ex_automation aj \<and> list_all dns_char (aj_GenerateName aj)"
proof -
  let ?vc = "ViolationContext_zero\<lparr>vc_TargetClusters := Some [''c1'', ''c2'']\<rparr>"
  let ?env = "ex_automation_env ex_reader True" and ?w = "\<lparr>ew_time = 0, ew_jobs = [], ew_events = []\<rparr>"
  obtain k' where "CreateAnsibleJob ?env ex_automation ''scan'' ?vc ?w = (None, k')"
    by (simp add: CreateAnsibleJob_def ex_automation_env_def ex_automation_def Let_def)
  moreover have "list_all alphanumeric ''scan''" by (simp add: alphanumeric_def)
  ultimately show ?thesis using job_contents [of ?env ex_automation "''scan''" ?vc ?w k'] by (auto simp: items_def)
qed

end
