(* ===== verification/Automation_Watches.thy ===== *)
theory Automation_Watches
  imports Automation Propagation_Pipeline
begin

text \<open>
  The watches of the automation controller (\<^verbatim>\<open>controllers/automation/policyautomation_controller.go\<close>, \<^verbatim>\<open>SetupWithManager\<close>): which
  events of automations and of policies request which automations. A change of the violations of a root policy
  requests the first automation of the policy only.
\<close>

fun policyAuomtationPredicateFuncs :: "PolicyAutomation event \<Rightarrow> bool" where
  "policyAuomtationPredicateFuncs (UpdateEvent pa pa') = policyAutomation_UpdateFunc pa pa'"
| "policyAuomtationPredicateFuncs (CreateEvent pa) = policyAutomation_CreateFunc pa"
| "policyAuomtationPredicateFuncs (DeleteEvent pa) = False"
| "policyAuomtationPredicateFuncs (GenericEvent pa) = True"

fun automation_policyPredicateFuncs :: "Policy event \<Rightarrow> bool" where
  "automation_policyPredicateFuncs (UpdateEvent p p') = automation_policy_UpdateFunc p p'"
| "automation_policyPredicateFuncs (CreateEvent p) = False"
| "automation_policyPredicateFuncs (DeleteEvent p) = False"
| "automation_policyPredicateFuncs (GenericEvent p) = True"

datatype automation_event = AutomationEvent "PolicyAutomation event" | ViolationEvent "Policy event"

text \<open>The queue is the list of the requests; the handler of the policies is the repository's own.\<close>

definition automation_watches ::
  "(PolicyAutomation event \<Rightarrow> Request list) \<Rightarrow> 'k automation_env \<Rightarrow> 'k \<Rightarrow> automation_event \<Rightarrow> Request list" where
  "automation_watches F env k evt =
     (case evt of
        AutomationEvent e \<Rightarrow> if policyAuomtationPredicateFuncs e then F e else []
      | ViolationEvent e \<Rightarrow>
          if automation_policyPredicateFuncs e
          then EnqueueRequestsFromMapFunc (automation_policyMapper env k) (\<lambda>r q. q @ [r]) e [] else [])"

lemma enqueue_list: "fold (\<lambda>r q. q @ [r]) rs q = q @ rs"
  by (induction rs arbitrary: q) auto

text \<open>A change of the violating clusters is a change of the status.\<close>

lemma violations_status:
  "FindNonCompliantClustersForPolicy p' \<noteq> FindNonCompliantClustersForPolicy p \<Longrightarrow>
     st_Status (p_Status p') \<noteq> st_Status (p_Status p)"
  by (auto simp: FindNonCompliantClustersForPolicy_def)

text \<open>
  When the violating clusters of a root policy change, the automation requested is the first one in the list that
  refers to the policy, if it runs once or for every event. An automation behind another one for the same policy
  is never requested, not even when the first one is disabled.
\<close>

theorem first_automation_only:
  assumes "\<not> map_has (p_Labels p') RootPolicyLabel"
    and "FindNonCompliantClustersForPolicy p' \<noteq> FindNonCompliantClustersForPolicy p"
    and "List_PolicyAutomations env k (p_Namespace p') = Inr pas"
  shows "automation_watches F env k (ViolationEvent (UpdateEvent p p')) =
    (case find (\<lambda>pa. as_PolicyRef (pa_Spec pa) = p_Name p') pas of
       None \<Rightarrow> []
     | Some pa \<Rightarrow> if as_Mode (pa_Spec pa) = Once \<or> as_Mode (pa_Spec pa) = EveryEvent
                 then [nn (pa_Namespace pa) (pa_Name pa)] else [])"
  using assms(1,3) violations_status [OF assms(2)]
  by (auto simp: automation_watches_def automation_policy_UpdateFunc_def EnqueueRequestsFromMapFunc_def
      mapAndEnqueue_def enqueue_list automation_policyMapper_def Once_def EveryEvent_def Let_def split: option.splits)

end
