(* ===== verification/Propagator_Metrics.thy ===== *)
theory Propagator_Metrics
  imports Token_Refresh Replicated_Reconcile
begin

text \<open>
  \<^verbatim>\<open>controllers/propagator/metric.go\<close>: the metrics of the propagator, where its reconcilers change them, and the
  registration of all metrics of the program. Shown: the failure counter counts exactly the failed handlings of
  root policies, the gauge is the number of watches of the resolvers that are not canceled in
  whatever order they are counted, and the registrations do not panic.
\<close>

section \<open>Metrics and their registration\<close>

datatype metric_kind = Gauge | Counter | Histogram

record metric_desc =
  md_Kind :: metric_kind
  md_Name :: string
  md_Help :: string
  md_Labels :: "string list"

definition hubTemplateActiveWatchesMetric :: metric_desc where
  "hubTemplateActiveWatchesMetric =
     \<lparr>md_Kind = Gauge, md_Name = ''hub_templates_active_watches'',
      md_Help = ''The number of active watch API requests for Hub policy templates'', md_Labels = []\<rparr>"

definition propagationFailureMetric :: metric_desc where
  "propagationFailureMetric =
     \<lparr>md_Kind = Counter, md_Name = ''policy_propagation_failure_total'',
      md_Help = ''The number of failed policy propagation attempts per policy'', md_Labels = [''name'', ''namespace'']\<rparr>"

definition roothandlerMeasure :: metric_desc where
  "roothandlerMeasure =
     \<lparr>md_Kind = Histogram, md_Name = ''ocm_handle_root_policy_duration_seconds_bucket'',
      md_Help = ''Time the handleRootPolicy function takes to complete.'', md_Labels = []\<rparr>"

definition policyStatusGauge :: metric_desc where
  "policyStatusGauge =
     \<lparr>md_Kind = Gauge, md_Name = ''policy_governance_info'',
      md_Help = ''The compliance status of the named policy. 0 == Compliant. 1 == NonCompliant. -1 == Unknown/Pending'',
      md_Labels = [''type'', ''policy'', ''policy_namespace'', ''cluster_namespace'']\<rparr>"

text \<open>
  The two \<^verbatim>\<open>init\<close> functions register their metrics one by one. The registry of the controller runtime is a
  parameter; registering panics, the value None.
\<close>

fun MustRegister :: "(metric_desc \<Rightarrow> 'g \<Rightarrow> 'g option) \<Rightarrow> metric_desc list \<Rightarrow> 'g \<Rightarrow> 'g option" where
  "MustRegister register [] g = Some g"
| "MustRegister register (m # ms) g =
     (case register m g of None \<Rightarrow> None | Some g \<Rightarrow> MustRegister register ms g)"

definition propagator_init :: "(metric_desc \<Rightarrow> 'g \<Rightarrow> 'g option) \<Rightarrow> 'g \<Rightarrow> 'g option" where
  "propagator_init register =
     MustRegister register [roothandlerMeasure, propagationFailureMetric, hubTemplateActiveWatchesMetric]"

definition policymetrics_init :: "(metric_desc \<Rightarrow> 'g \<Rightarrow> 'g option) \<Rightarrow> 'g \<Rightarrow> 'g option" where
  "policymetrics_init register = MustRegister register [policyStatusGauge]"

section \<open>The reconcilers with their metrics\<close>

text \<open>
  The labels with which the counter was incremented are \<open>hub_failures\<close>. The gauge is a number of watches
  and the histogram the list of its observations, in seconds.
\<close>

definition failure_total :: "'k hub \<Rightarrow> string \<Rightarrow> string \<Rightarrow> nat" where
  "failure_total h name namespace = count_list (hub_failures h) (name, namespace)"

record propagator_metrics =
  pm_active_watches :: nat
  pm_handle_seconds :: "rat list"

definition handleRootPolicy_measured ::
  "'k api \<Rightarrow> Policy \<Rightarrow> 'k hub \<Rightarrow> propagator_metrics \<Rightarrow> (goerr option \<times> 'k hub) \<times> propagator_metrics" where
  "handleRootPolicy_measured a inst h m =
     (let entryTS = Now a (hub_world h);
          out = handleRootPolicy a inst h;
          elapsed = of_int (Now a (hub_world (snd out)) - entryTS) / 1000000000
      in (out, m\<lparr>pm_handle_seconds := pm_handle_seconds m @ [elapsed]\<rparr>))"

text \<open>The deferred function runs after every return; \<open>accounts\<close> is the iteration order of the map then.\<close>

definition ReplicatedPolicy_Reconcile_measured ::
  "('r \<Rightarrow> 64 word) \<Rightarrow> ('r resolvers \<Rightarrow> NamespacedName list) \<Rightarrow> ('k, 'r) reconciler \<Rightarrow> Request \<Rightarrow>
   ('k, 'r) propagator \<Rightarrow> propagator_metrics \<Rightarrow> ('k, 'r) reconcile_out \<times> propagator_metrics" where
  "ReplicatedPolicy_Reconcile_measured watches accounts R request st m =
     (let out = ReplicatedPolicy_Reconcile R request st; t = pr_resolvers (snd out);
          watchCount = GetWatchCount watches (rc_resolver R) (accounts t) t
      in (out, m\<lparr>pm_active_watches := unat watchCount\<rparr>))"

section \<open>Registration\<close>

text \<open>What is relied on of the registry: it refuses exactly a metric whose name is registered.\<close>

definition registers :: "(metric_desc \<Rightarrow> 'g \<Rightarrow> 'g option) \<Rightarrow> ('g \<Rightarrow> string set) \<Rightarrow> bool" where
  "registers register names \<longleftrightarrow>
     (\<forall>m g. if md_Name m \<in> names g then register m g = None
            else \<exists>g'. register m g = Some g' \<and> names g' = insert (md_Name m) (names g))"

lemma MustRegister_iff:
  assumes "registers register names"
  shows "(\<exists>g'. MustRegister register ms g = Some g' \<and> names g' = names g \<union> md_Name ` set ms) \<longleftrightarrow>
    distinct (map md_Name ms) \<and> names g \<inter> md_Name ` set ms = {}"
proof (induction ms arbitrary: g)
  case (Cons m ms)
  show ?case
  proof (cases "md_Name m \<in> names g")
    case True
    with assms have "register m g = None" by (simp add: registers_def)
    with True show ?thesis by auto
  next
    case False
    with assms obtain g' where g': "register m g = Some g'" "names g' = insert (md_Name m) (names g)"
      unfolding registers_def by metis
    with Cons.IH [of g'] False show ?thesis by auto
  qed
qed simp

text \<open>The program's four metrics have different names, so neither package's registration panics after the other.\<close>

lemma init_succeeds:
  assumes "registers register names" and "names g = {}"
  shows "\<exists>g1 g2. propagator_init register g = Some g1 \<and> policymetrics_init register g1 = Some g2"
proof -
  let ?ms = "[roothandlerMeasure, propagationFailureMetric, hubTemplateActiveWatchesMetric]"
  have "distinct (map md_Name (?ms @ [policyStatusGauge]))"
    by (simp add: roothandlerMeasure_def propagationFailureMetric_def hubTemplateActiveWatchesMetric_def policyStatusGauge_def)
  then have d: "distinct (map md_Name ?ms)" "md_Name policyStatusGauge \<notin> md_Name ` set ?ms" by auto
  from MustRegister_iff [OF assms(1), of ?ms g] d(1) assms(2) obtain g1 where
    g1: "propagator_init register g = Some g1" "names g1 = md_Name ` set ?ms" by (auto simp: propagator_init_def)
  from MustRegister_iff [OF assms(1), of "[policyStatusGauge]" g1] d(2) g1(2)
  show ?thesis by (auto simp: g1(1) policymetrics_init_def)
qed

section \<open>The gauge of watches\<close>

definition live_watches :: "('r \<Rightarrow> 64 word) \<Rightarrow> 'r resolvers \<Rightarrow> NamespacedName \<Rightarrow> 64 word" where
  "live_watches watches t sa =
     (case tr_TemplateResolvers t sa of
        None \<Rightarrow> 0
      | Some a \<Rightarrow> (case wr_resolver (tr_objs t a) of
                     None \<Rightarrow> 0 | Some r \<Rightarrow> if wr_canceled (tr_objs t a) then 0 else watches r))"

lemma GetWatchCount_sum:
  "GetWatchCount watches env accounts t = sum_list (map (live_watches watches t) accounts) + watches (re_default env)"
proof -
  have "fold (\<lambda>sa watchCount. case tr_TemplateResolvers t sa of None \<Rightarrow> watchCount
      | Some a \<Rightarrow> (case wr_resolver (tr_objs t a) of None \<Rightarrow> watchCount
          | Some r \<Rightarrow> if wr_canceled (tr_objs t a) then watchCount else watchCount + watches r)) accounts n =
      n + sum_list (map (live_watches watches t) accounts)" for n
    by (induction accounts arbitrary: n) (auto simp: live_watches_def add.assoc split: option.splits)
  then show ?thesis by (simp add: GetWatchCount_def)
qed

text \<open>The iteration order of the map does not matter.\<close>

lemma watch_gauge_order:
  assumes "distinct (accounts t)" and "distinct (accounts' t)" and "set (accounts t) = set (accounts' t)"
  shows "GetWatchCount watches env (accounts t) t = GetWatchCount watches env (accounts' t) t"
proof -
  have "mset (accounts t) = mset (accounts' t)" using assms by (simp add: set_eq_iff_mset_eq_distinct)
  then have "sum_list (map f (accounts t)) = sum_list (map f (accounts' t))" for f :: "NamespacedName \<Rightarrow> 64 word"
    by (metis mset_map sum_mset_sum_list)
  then show ?thesis by (simp add: GetWatchCount_sum)
qed

section \<open>The failure counter\<close>

lemma cleanUpOrphaned_failures: "hub_failures (cleanUpOrphanedRplPolicies inst cpcs d h) = hub_failures h"
  unfolding cleanUpOrphanedRplPolicies_def by (induction cpcs arbitrary: h) auto

lemma handleRootPolicy_failures: "handleRootPolicy a inst h = (err, h') \<Longrightarrow> hub_failures h' = hub_failures h"
  by (auto simp: handleRootPolicy_def updateExistingReplicas_def cleanUpOrphaned_failures Let_def
      split: sum.splits prod.splits if_splits)

text \<open>
  The counter of a policy goes up by one when its reconcile found it outside the cluster namespaces and
  failed, and stays in every other case: a failure to read the policy or the cluster is not counted.
\<close>

theorem failures_counted:
  assumes "RootPolicy_Reconcile a request h = ((res, err), h')"
  shows "failure_total h' name namespace = failure_total h name namespace +
    (if err \<noteq> None \<and> (\<exists>inst. Get_Policy (api_read a (hub_world h)) request = Inr inst \<and>
          IsInClusterNamespace (api_read a (hub_world h)) (p_Namespace inst) = Inr False \<and>
          p_Name inst = name \<and> p_Namespace inst = namespace) then 1 else 0)"
  using assms
  by (auto simp: RootPolicy_Reconcile_def failure_total_def updateExistingReplicas_def handleRootPolicy_failures Let_def
      split: sum.splits prod.splits if_splits option.splits)

end
