(* ===== verification/Version_Locks.thy ===== *)
theory Version_Locks
  imports Replicated_Reconcile
begin

text \<open>
  The locks of the \<^verbatim>\<open>ResourceVersions\<close> cache (\<^verbatim>\<open>controllers/propagator/replicatedpolicy_setup.go\<close>,
  \<^verbatim>\<open>safeReadLoad\<close> and \<^verbatim>\<open>safeWriteLoad\<close>), step by step. The cache of one key is a \<^verbatim>\<open>sync.Map\<close> entry that points to
  a version with a \<^verbatim>\<open>sync.RWMutex\<close>. One worker reconciles the key; any number of goroutines run the event
  predicates meanwhile, and other clients write the policy. \<open>Resource_Versions\<close> has every access as one
  atomic operation; this theory shows that the locks justify that: whatever the interleaving, a
  predicate decides as if it had read the cache at one moment, the event of the reconciler's own
  write is filtered out even when it arrives before the write has returned, and nobody waits forever.
\<close>

section \<open>The mutex\<close>

text \<open>
  \<^verbatim>\<open>sync.RWMutex\<close>: \<^verbatim>\<open>Lock\<close> first announces the writer and then waits for the readers; \<^verbatim>\<open>RLock\<close> waits while a
  writer holds the lock or is announced. The readers are kept by name, a predicate's goroutine by its
  number and the worker as \<open>None\<close>.
\<close>

record rwmutex =
  rw_writer :: bool
  rw_announced :: bool
  rw_readers :: "nat option set"

definition can_lock :: "rwmutex \<Rightarrow> bool" where
  "can_lock m \<longleftrightarrow> \<not> rw_writer m \<and> rw_readers m = {}"

definition can_rlock :: "rwmutex \<Rightarrow> bool" where
  "can_rlock m \<longleftrightarrow> \<not> rw_writer m \<and> \<not> rw_announced m"

record lockingRsrcVersion =
  lv_mutex :: rwmutex
  lv_version :: string

section \<open>The threads\<close>

text \<open>
  A section of the worker between \<^verbatim>\<open>safeWriteLoad\<close> and \<^verbatim>\<open>Unlock\<close>: it creates, updates or deletes the
  replicated policy, or leaves it as it is. Its result is the event that the API server will send and
  the version that is recorded; a call that fails sends no event.
\<close>

datatype write_section = Creating | Updating ObjectMeta | Deleting ObjectMeta

definition create_result :: "goerr + ObjectMeta \<Rightarrow> ObjectMeta event option \<times> string option" where
  "create_result r =
     (case r of
        Inl e \<Rightarrow> (None, if IsAlreadyExists e then Some [] else None)
      | Inr created \<Rightarrow> (Some (CreateEvent created), Some (om_ResourceVersion created)))"

text \<open>\<open>None\<close> stands for a replicated policy that matches already.\<close>

definition update_result ::
  "ObjectMeta \<Rightarrow> (goerr + ObjectMeta) option \<Rightarrow> ObjectMeta event option \<times> string option" where
  "update_result replicatedPolicy r =
     (case r of
        None \<Rightarrow> (None, Some (om_ResourceVersion replicatedPolicy))
      | Some (Inl e) \<Rightarrow> (None, None)
      | Some (Inr updated) \<Rightarrow> (Some (UpdateEvent replicatedPolicy updated), Some (om_ResourceVersion updated)))"

text \<open>The object of the event is the one that was deleted, which may be newer than the cached one.\<close>

definition delete_result ::
  "ObjectMeta \<Rightarrow> goerr + ObjectMeta \<Rightarrow> ObjectMeta event option \<times> string option" where
  "delete_result replicatedPolicy r =
     (let marker = deletedMarker (om_ResourceVersion replicatedPolicy) in
      case r of
        Inl e \<Rightarrow> (None, if IsNotFound e then Some marker else None)
      | Inr deleted \<Rightarrow> (Some (DeleteEvent deleted), Some marker))"

inductive section_result :: "write_section \<Rightarrow> ObjectMeta event option \<Rightarrow> string option \<Rightarrow> bool" where
  "create_result r = (evt, v) \<Longrightarrow> section_result Creating evt v"
| "update_result m u = (evt, v) \<Longrightarrow> section_result (Updating m) evt v"
| "delete_result m r = (evt, v) \<Longrightarrow> section_result (Deleting m) evt v"

text \<open>The worker, with the entry it has loaded.\<close>

datatype worker =
    W_Idle
  | W_Locking write_section nat
  | W_Held write_section nat
  | W_Called "string option" nat
  | W_Stored nat
  | W_RLocking nat
  | W_Reading nat

text \<open>
  A predicate: the number of its event, the entry and whether it was there already; at the end the
  decision.
\<close>

datatype event_predicate =
    P_Idle
  | P_RLocking nat nat bool
  | P_Reading nat nat bool
  | P_Done nat bool

text \<open>
  The decision of \<^verbatim>\<open>replicatedPolicyPredicates\<close> from the version and whether it was loaded. A policy
  without the label is rejected before the cache is read.
\<close>

fun reads_cache :: "ObjectMeta event \<Rightarrow> bool" where
  "reads_cache (CreateEvent object) = map_has (om_Labels object) RootPolicyLabel"
| "reads_cache (UpdateEvent objectOld objectNew) =
     (map_has (om_Labels objectOld) RootPolicyLabel \<or> map_has (om_Labels objectNew) RootPolicyLabel)"
| "reads_cache (DeleteEvent object) = map_has (om_Labels object) RootPolicyLabel"
| "reads_cache (GenericEvent object) = False"

fun event_passes :: "ObjectMeta event \<Rightarrow> string \<times> bool \<Rightarrow> bool" where
  "event_passes (CreateEvent object) (version, loaded) = (\<not> loaded \<or> version \<noteq> om_ResourceVersion object)"
| "event_passes (UpdateEvent objectOld objectNew) (version, loaded) =
     (\<not> (loaded \<and> version = om_ResourceVersion objectNew) \<and>
      (om_Generation objectOld \<noteq> om_Generation objectNew \<or>
       \<not> map_sem_eq (om_Labels objectOld) (om_Labels objectNew) \<or>
       \<not> map_sem_eq (om_Annotations objectOld) (om_Annotations objectNew)))"
| "event_passes (DeleteEvent object) (version, loaded) = (\<not> loaded \<or> \<not> HasPrefix version ''deleted'')"
| "event_passes (GenericEvent object) (version, loaded) = True"

section \<open>The steps\<close>

text \<open>
  The state for one key: the entry in the map, the entries ever made, the events of the policy in the order
  of the API server, and the threads. \<open>vl_own\<close> is the event of the worker's last call, until its
  next call or until the key is removed.
\<close>

record version_state =
  vl_map :: "nat option"
  vl_entries :: "nat \<Rightarrow> lockingRsrcVersion"
  vl_next :: nat
  vl_log :: "ObjectMeta event list"
  vl_worker :: worker
  vl_preds :: "nat \<Rightarrow> event_predicate"
  vl_own :: "nat option"

definition version_start :: version_state where
  "version_start =
     \<lparr>vl_map = None,
      vl_entries = \<lambda>_. \<lparr>lv_mutex = \<lparr>rw_writer = False, rw_announced = False, rw_readers = {}\<rparr>, lv_version = []\<rparr>,
      vl_next = 0, vl_log = [], vl_worker = W_Idle, vl_preds = \<lambda>_. P_Idle, vl_own = None\<rparr>"

definition LoadOrStore :: "lockingRsrcVersion \<Rightarrow> version_state \<Rightarrow> (nat \<times> bool) \<times> version_state" where
  "LoadOrStore newRsrc s =
     (case vl_map s of
        Some p \<Rightarrow> ((p, True), s)
      | None \<Rightarrow> ((vl_next s, False),
          s\<lparr>vl_map := Some (vl_next s), vl_entries := (vl_entries s)(vl_next s := newRsrc), vl_next := Suc (vl_next s)\<rparr>))"

text \<open>
  The new entry is locked before it is stored, so the thread that stores it holds the lock.
\<close>

definition read_load :: "nat option \<Rightarrow> version_state \<Rightarrow> (nat \<times> bool) \<times> version_state" where
  "read_load t = LoadOrStore
     \<lparr>lv_mutex = \<lparr>rw_writer = False, rw_announced = False, rw_readers = {t}\<rparr>, lv_version = []\<rparr>"

definition write_load :: "version_state \<Rightarrow> (nat \<times> bool) \<times> version_state" where
  "write_load = LoadOrStore
     \<lparr>lv_mutex = \<lparr>rw_writer = True, rw_announced = False, rw_readers = {}\<rparr>, lv_version = []\<rparr>"

definition on_mutex :: "nat \<Rightarrow> (rwmutex \<Rightarrow> rwmutex) \<Rightarrow> version_state \<Rightarrow> version_state" where
  "on_mutex p f s = s\<lparr>vl_entries := (vl_entries s)(p := (vl_entries s p)\<lparr>lv_mutex := f (lv_mutex (vl_entries s p))\<rparr>)\<rparr>"

definition announce :: "nat \<Rightarrow> version_state \<Rightarrow> version_state" where
  "announce p = on_mutex p (\<lambda>m. m\<lparr>rw_announced := True\<rparr>)"

definition lock :: "nat \<Rightarrow> version_state \<Rightarrow> version_state" where
  "lock p = on_mutex p (\<lambda>m. m\<lparr>rw_writer := True, rw_announced := False\<rparr>)"

definition unlock :: "nat \<Rightarrow> version_state \<Rightarrow> version_state" where
  "unlock p = on_mutex p (\<lambda>m. m\<lparr>rw_writer := False\<rparr>)"

definition rlock :: "nat option \<Rightarrow> nat \<Rightarrow> version_state \<Rightarrow> version_state" where
  "rlock t p = on_mutex p (\<lambda>m. m\<lparr>rw_readers := insert t (rw_readers m)\<rparr>)"

definition runlock :: "nat option \<Rightarrow> nat \<Rightarrow> version_state \<Rightarrow> version_state" where
  "runlock t p = on_mutex p (\<lambda>m. m\<lparr>rw_readers := rw_readers m - {t}\<rparr>)"

definition record_version :: "string option \<Rightarrow> nat \<Rightarrow> version_state \<Rightarrow> version_state" where
  "record_version v p s =
     (case v of
        None \<Rightarrow> s
      | Some rv \<Rightarrow> s\<lparr>vl_entries := (vl_entries s)(p := (vl_entries s p)\<lparr>lv_version := rv\<rparr>)\<rparr>)"

definition set_pred :: "nat \<Rightarrow> event_predicate \<Rightarrow> version_state \<Rightarrow> version_state" where
  "set_pred t q s = s\<lparr>vl_preds := (vl_preds s)(t := q)\<rparr>"

text \<open>
  The steps. Those that begin something are kept apart from those that go on, for the question who
  waits for whom.
\<close>

inductive version_begin :: "version_state \<Rightarrow> version_state \<Rightarrow> bool" where
  other_client: "version_begin s (s\<lparr>vl_log := vl_log s @ [evt]\<rparr>)"
| write_found: "vl_worker s = W_Idle \<Longrightarrow> write_load s = ((p, True), s') \<Longrightarrow>
    version_begin s (announce p (s'\<lparr>vl_worker := W_Locking sec p\<rparr>))"
| write_stored: "vl_worker s = W_Idle \<Longrightarrow> write_load s = ((p, False), s') \<Longrightarrow>
    version_begin s (s'\<lparr>vl_worker := W_Held sec p\<rparr>)"
| stale_found: "vl_worker s = W_Idle \<Longrightarrow> read_load None s = ((p, True), s') \<Longrightarrow>
    version_begin s (s'\<lparr>vl_worker := W_RLocking p\<rparr>)"
| stale_stored: "vl_worker s = W_Idle \<Longrightarrow> read_load None s = ((p, False), s') \<Longrightarrow>
    version_begin s (s'\<lparr>vl_worker := W_Reading p\<rparr>)"
| remove: "vl_worker s = W_Idle \<Longrightarrow> version_begin s (s\<lparr>vl_map := None, vl_own := None\<rparr>)"
| pred_found: "vl_preds s t = P_Idle \<or> vl_preds s t = P_Done j b \<Longrightarrow> i < length (vl_log s) \<Longrightarrow> reads_cache (vl_log s ! i) \<Longrightarrow>
    read_load (Some t) s = ((p, True), s') \<Longrightarrow> version_begin s (set_pred t (P_RLocking i p True) s')"
| pred_stored: "vl_preds s t = P_Idle \<or> vl_preds s t = P_Done j b \<Longrightarrow> i < length (vl_log s) \<Longrightarrow> reads_cache (vl_log s ! i) \<Longrightarrow>
    read_load (Some t) s = ((p, False), s') \<Longrightarrow> version_begin s (set_pred t (P_Reading i p False) s')"

inductive version_continue :: "version_state \<Rightarrow> version_state \<Rightarrow> bool" where
  locked: "vl_worker s = W_Locking sec p \<Longrightarrow> can_lock (lv_mutex (vl_entries s p)) \<Longrightarrow>
    version_continue s (lock p (s\<lparr>vl_worker := W_Held sec p\<rparr>))"
| called: "vl_worker s = W_Held sec p \<Longrightarrow> section_result sec evt v \<Longrightarrow>
    version_continue s (s\<lparr>vl_log := vl_log s @ (case evt of None \<Rightarrow> [] | Some e \<Rightarrow> [e]),
      vl_own := map_option (\<lambda>_. length (vl_log s)) evt, vl_worker := W_Called v p\<rparr>)"
| stored: "vl_worker s = W_Called v p \<Longrightarrow>
    version_continue s (record_version v p (s\<lparr>vl_worker := W_Stored p\<rparr>))"
| unlocked: "vl_worker s = W_Stored p \<Longrightarrow> version_continue s (unlock p (s\<lparr>vl_worker := W_Idle\<rparr>))"
| stale_locked: "vl_worker s = W_RLocking p \<Longrightarrow> can_rlock (lv_mutex (vl_entries s p)) \<Longrightarrow>
    version_continue s (rlock None p (s\<lparr>vl_worker := W_Reading p\<rparr>))"
| stale_read: "vl_worker s = W_Reading p \<Longrightarrow> version_continue s (runlock None p (s\<lparr>vl_worker := W_Idle\<rparr>))"
| pred_locked: "vl_preds s t = P_RLocking i p l \<Longrightarrow> can_rlock (lv_mutex (vl_entries s p)) \<Longrightarrow>
    version_continue s (rlock (Some t) p (set_pred t (P_Reading i p l) s))"
| pred_read: "vl_preds s t = P_Reading i p l \<Longrightarrow>
    version_continue s (runlock (Some t) p
      (set_pred t (P_Done i (event_passes (vl_log s ! i) (lv_version (vl_entries s p), l))) s))"

definition version_step :: "version_state \<Rightarrow> version_state \<Rightarrow> bool" where
  "version_step s s' \<longleftrightarrow> version_begin s s' \<or> version_continue s s'"

inductive version_reach :: "version_state \<Rightarrow> bool" where
  start: "version_reach version_start"
| step: "version_reach s \<Longrightarrow> version_step s s' \<Longrightarrow> version_reach s'"

section \<open>Who holds which lock\<close>

fun writes_to :: "worker \<Rightarrow> nat option" where
  "writes_to (W_Held sec p) = Some p"
| "writes_to (W_Called v p) = Some p"
| "writes_to (W_Stored p) = Some p"
| "writes_to _ = None"

fun waits_for :: "worker \<Rightarrow> nat option" where
  "waits_for (W_Locking sec p) = Some p"
| "waits_for _ = None"

fun worker_entry :: "worker \<Rightarrow> nat option" where
  "worker_entry W_Idle = None"
| "worker_entry (W_Locking sec p) = Some p"
| "worker_entry (W_Held sec p) = Some p"
| "worker_entry (W_Called v p) = Some p"
| "worker_entry (W_Stored p) = Some p"
| "worker_entry (W_RLocking p) = Some p"
| "worker_entry (W_Reading p) = Some p"

fun active :: "event_predicate \<Rightarrow> bool" where
  "active (P_RLocking i p l) = True"
| "active (P_Reading i p l) = True"
| "active _ = False"

definition reads :: "version_state \<Rightarrow> nat option \<Rightarrow> nat \<Rightarrow> bool" where
  "reads s t p \<longleftrightarrow>
     (case t of None \<Rightarrow> vl_worker s = W_Reading p | Some t \<Rightarrow> (\<exists>i l. vl_preds s t = P_Reading i p l))"

definition mutex_ok :: "version_state \<Rightarrow> nat \<Rightarrow> bool" where
  "mutex_ok s p \<longleftrightarrow>
     (let m = lv_mutex (vl_entries s p) in
        rw_writer m = (writes_to (vl_worker s) = Some p) \<and> rw_announced m = (waits_for (vl_worker s) = Some p) \<and>
        rw_readers m = {t. reads s t p} \<and> (rw_writer m \<longrightarrow> rw_readers m = {}))"

text \<open>
  The worker's entry is the one in the map; an entry that a predicate has stored is empty as long as it
  holds the lock.
\<close>

fun predicate_ok :: "version_state \<Rightarrow> event_predicate \<Rightarrow> bool" where
  "predicate_ok s (P_RLocking i p l) \<longleftrightarrow> i < length (vl_log s) \<and> reads_cache (vl_log s ! i) \<and> p < vl_next s \<and> l"
| "predicate_ok s (P_Reading i p l) \<longleftrightarrow> i < length (vl_log s) \<and> reads_cache (vl_log s ! i) \<and> p < vl_next s \<and>
     (l \<or> lv_version (vl_entries s p) = [])"
| "predicate_ok s _ \<longleftrightarrow> True"

definition entry_inv :: "version_state \<Rightarrow> bool" where
  "entry_inv s \<longleftrightarrow>
     (\<forall>p. vl_map s = Some p \<longrightarrow> p < vl_next s) \<and>
     (\<forall>p. worker_entry (vl_worker s) = Some p \<longrightarrow> vl_map s = Some p) \<and>
     (\<forall>t. predicate_ok s (vl_preds s t))"

section \<open>What a step changes\<close>

lemmas mutex_ops = announce_def lock_def unlock_def rlock_def runlock_def

lemma on_mutex_simps [simp]:
  "vl_map (on_mutex p f s) = vl_map s" "vl_next (on_mutex p f s) = vl_next s" "vl_log (on_mutex p f s) = vl_log s"
  "vl_worker (on_mutex p f s) = vl_worker s" "vl_preds (on_mutex p f s) = vl_preds s" "vl_own (on_mutex p f s) = vl_own s"
  "lv_version (vl_entries (on_mutex p f s) q) = lv_version (vl_entries s q)"
  "lv_mutex (vl_entries (on_mutex p f s) q) = (if q = p then f (lv_mutex (vl_entries s p)) else lv_mutex (vl_entries s q))"
  by (simp_all add: on_mutex_def)

lemma set_pred_simps [simp]:
  "vl_map (set_pred t q s) = vl_map s" "vl_next (set_pred t q s) = vl_next s" "vl_log (set_pred t q s) = vl_log s"
  "vl_worker (set_pred t q s) = vl_worker s" "vl_preds (set_pred t q s) = (vl_preds s)(t := q)"
  "vl_own (set_pred t q s) = vl_own s" "vl_entries (set_pred t q s) = vl_entries s"
  by (simp_all add: set_pred_def)

lemma record_version_simps [simp]:
  "vl_map (record_version v p s) = vl_map s" "vl_next (record_version v p s) = vl_next s"
  "vl_log (record_version v p s) = vl_log s" "vl_worker (record_version v p s) = vl_worker s"
  "vl_preds (record_version v p s) = vl_preds s" "vl_own (record_version v p s) = vl_own s"
  "lv_mutex (vl_entries (record_version v p s) q) = lv_mutex (vl_entries s q)"
  "lv_version (vl_entries (record_version v p s) q) =
     (if q = p then (case v of None \<Rightarrow> lv_version (vl_entries s p) | Some rv \<Rightarrow> rv) else lv_version (vl_entries s q))"
  by (simp_all add: record_version_def split: option.splits)

lemma reads_simps [simp]:
  "reads (on_mutex q f s) = reads s" "reads (record_version v q s) = reads s"
  "reads (set_pred t e s) t' p = (if t' = Some t then (\<exists>i l. e = P_Reading i p l) else reads s t' p)"
  "reads (s\<lparr>vl_worker := w\<rparr>) t' p = (if t' = None then w = W_Reading p else reads s t' p)"
  "reads (s\<lparr>vl_log := l\<rparr>) = reads s" "reads (s\<lparr>vl_own := o'\<rparr>) = reads s" "reads (s\<lparr>vl_map := m\<rparr>) = reads s"
  "reads (s\<lparr>vl_entries := es\<rparr>) = reads s" "reads (s\<lparr>vl_next := n\<rparr>) = reads s"
  by (auto simp: reads_def fun_eq_iff split: option.splits)

lemma reads_thread:
  "reads s None p \<longleftrightarrow> vl_worker s = W_Reading p" "reads s (Some t) p \<longleftrightarrow> (\<exists>i l. vl_preds s t = P_Reading i p l)"
  by (simp_all add: reads_def)

lemma reads_other: "reads s x p \<Longrightarrow> vl_worker s \<noteq> W_Reading p \<Longrightarrow> \<exists>t. x = Some t"
  by (auto simp: reads_def split: option.splits)

lemma LoadOrStore_found: "LoadOrStore e s = ((p, True), s') \<longleftrightarrow> vl_map s = Some p \<and> s' = s"
  by (auto simp: LoadOrStore_def split: option.splits)

lemma LoadOrStore_stored: "LoadOrStore e s = ((p, False), s') \<longleftrightarrow> vl_map s = None \<and> p = vl_next s \<and>
    s' = s\<lparr>vl_map := Some (vl_next s), vl_entries := (vl_entries s)(vl_next s := e), vl_next := Suc (vl_next s)\<rparr>"
  by (auto simp: LoadOrStore_def split: option.splits)

lemmas version_load = read_load_def write_load_def LoadOrStore_found LoadOrStore_stored

lemma step_grows:
  assumes "version_step s s'"
  shows "vl_next s \<le> vl_next s'" and "\<exists>es. vl_log s' = vl_log s @ es"
    and "p < vl_next s \<Longrightarrow> writes_to (vl_worker s) \<noteq> Some p \<Longrightarrow> lv_version (vl_entries s' p) = lv_version (vl_entries s p)"
proof -
  have "vl_next s \<le> vl_next s' \<and> (\<exists>es. vl_log s' = vl_log s @ es) \<and>
    (p < vl_next s \<longrightarrow> writes_to (vl_worker s) \<noteq> Some p \<longrightarrow> lv_version (vl_entries s' p) = lv_version (vl_entries s p))"
    using assms unfolding version_step_def
  proof
    assume "version_begin s s'"
    then show ?thesis by cases (auto simp: version_load mutex_ops)
  next
    assume "version_continue s s'"
    then show ?thesis by cases (auto simp: mutex_ops)
  qed
  then show "vl_next s \<le> vl_next s'" "\<exists>es. vl_log s' = vl_log s @ es"
    "p < vl_next s \<Longrightarrow> writes_to (vl_worker s) \<noteq> Some p \<Longrightarrow> lv_version (vl_entries s' p) = lv_version (vl_entries s p)"
    by simp_all
qed

text \<open>What a predicate does in a step: nothing, load, take the lock or decide.\<close>

lemma step_predicate:
  assumes "version_step s s'" and "vl_preds s' t \<noteq> vl_preds s t"
  shows "vl_own s' = vl_own s \<and> vl_log s' = vl_log s \<and>
   ((\<exists>i p. vl_preds s' t = P_RLocking i p True \<and> i < length (vl_log s) \<and> reads_cache (vl_log s ! i) \<and>
       \<not> active (vl_preds s t) \<and> vl_map s = Some p \<and> vl_map s' = Some p) \<or>
    (\<exists>i. vl_preds s' t = P_Reading i (vl_next s) False \<and> i < length (vl_log s) \<and> reads_cache (vl_log s ! i) \<and>
       \<not> active (vl_preds s t) \<and> vl_map s = None \<and>
       vl_map s' = Some (vl_next s) \<and> vl_next s' = Suc (vl_next s) \<and> lv_version (vl_entries s' (vl_next s)) = []) \<or>
    (\<exists>i p l. vl_preds s t = P_RLocking i p l \<and> vl_preds s' t = P_Reading i p l \<and> vl_map s' = vl_map s) \<or>
    (\<exists>i p l. vl_preds s t = P_Reading i p l \<and>
       vl_preds s' t = P_Done i (event_passes (vl_log s ! i) (lv_version (vl_entries s p), l))))"
  using assms(1) unfolding version_step_def
proof
  assume "version_begin s s'"
  then show ?thesis using assms(2) by cases (auto simp: version_load mutex_ops split: if_splits)
next
  assume "version_continue s s'"
  then show ?thesis using assms(2) by cases (auto simp: mutex_ops split: if_splits)
qed

section \<open>The invariants\<close>

lemma unused_entry:
  assumes "entry_inv s" and "vl_next s \<le> p"
  shows "writes_to (vl_worker s) \<noteq> Some p" and "waits_for (vl_worker s) \<noteq> Some p" and "\<not> reads s t p"
proof -
  have w: "worker_entry (vl_worker s) \<noteq> Some p" using assms by (force simp: entry_inv_def)
  then show "writes_to (vl_worker s) \<noteq> Some p" "waits_for (vl_worker s) \<noteq> Some p"
    by (cases "vl_worker s"; simp)+
  have "predicate_ok s (vl_preds s t')" for t' using assms(1) by (simp add: entry_inv_def)
  then have "vl_preds s t' \<noteq> P_Reading i p l" for t' i l
    using assms(2) by (metis linorder_not_le predicate_ok.simps(2))
  with w show "\<not> reads s t p" by (auto simp: reads_def split: option.splits)
qed

lemma writing_excludes: "mutex_ok s p \<Longrightarrow> writes_to (vl_worker s) = Some p \<Longrightarrow> \<not> reads s t p"
  by (auto simp: mutex_ok_def Let_def)

lemma predicate_ok_kept:
  assumes "version_step s s'" and "predicate_ok s (vl_preds s t)" and "\<And>p. mutex_ok s p"
  shows "predicate_ok s' (vl_preds s t)"
proof -
  note grows = step_grows [OF assms(1)]
  obtain es where "vl_log s' = vl_log s @ es" using grows(2) by blast
  moreover have "lv_version (vl_entries s' p) = lv_version (vl_entries s p)"
    if "vl_preds s t = P_Reading i p l" "p < vl_next s" for i p l
    using grows(3) [OF that(2)] writing_excludes [OF assms(3), of p "Some t"] that(1) by (auto simp: reads_def)
  ultimately show ?thesis
    using assms(2) grows(1) by (cases "vl_preds s t") (auto simp: nth_append)
qed

lemma entry_inv_step:
  assumes "entry_inv s" and "\<And>p. mutex_ok s p" and "version_step s s'"
  shows "entry_inv s'"
proof -
  have "(\<forall>p. vl_map s' = Some p \<longrightarrow> p < vl_next s') \<and> (\<forall>p. worker_entry (vl_worker s') = Some p \<longrightarrow> vl_map s' = Some p)"
    using assms(3) unfolding version_step_def
  proof
    assume "version_begin s s'"
    then show ?thesis using assms(1) by cases (auto simp: entry_inv_def version_load mutex_ops)
  next
    assume "version_continue s s'"
    then show ?thesis using assms(1) by cases (auto simp: entry_inv_def mutex_ops)
  qed
  moreover have "predicate_ok s' (vl_preds s' t)" for t
  proof -
    have "predicate_ok s' (vl_preds s t)"
      using predicate_ok_kept [OF assms(3)] assms(1,2) by (simp add: entry_inv_def)
    with step_predicate [OF assms(3), of t] show ?thesis
      using assms(1) step_grows(1) [OF assms(3)]
      by (cases "vl_preds s' t = vl_preds s t") (auto simp: entry_inv_def)
  qed
  ultimately show ?thesis by (simp add: entry_inv_def)
qed

lemma mutex_ok_step:
  assumes "entry_inv s" and "\<And>p. mutex_ok s p" and "version_step s s'"
  shows "mutex_ok s' q"
  using assms(3) unfolding version_step_def
proof
  have new: "writes_to (vl_worker s) \<noteq> Some (vl_next s) \<and> waits_for (vl_worker s) \<noteq> Some (vl_next s) \<and>
      (\<forall>t. \<not> reads s t (vl_next s))"
    using unused_entry [OF assms(1)] by simp
  assume "version_begin s s'"
  then show ?thesis
    using assms(2) [of q] new
    by cases (auto simp: mutex_ok_def version_load mutex_ops reads_thread Let_def intro: reads_other)
next
  assume "version_continue s s'"
  then show ?thesis
    using assms(2) [of q]
    by cases (auto simp: mutex_ok_def mutex_ops can_lock_def can_rlock_def reads_thread Let_def intro: reads_other)
qed

lemma version_reach_inv:
  assumes "version_reach s"
  shows "entry_inv s \<and> (\<forall>p. mutex_ok s p)"
  using assms
proof induction
  case start
  then show ?case by (auto simp: entry_inv_def mutex_ok_def version_start_def reads_def Let_def split: option.splits)
next
  case (step s s')
  then show ?case using entry_inv_step mutex_ok_step by blast
qed

section \<open>The own event\<close>

text \<open>
  After a call that wrote, the worker still holds the lock of the entry in the map or the entry has the
  version; a predicate of that event has loaded that entry.
\<close>

definition filters :: "ObjectMeta event \<Rightarrow> string \<Rightarrow> bool" where
  "filters evt v \<longleftrightarrow> \<not> event_passes evt (v, True)"

definition own_recorded :: "version_state \<Rightarrow> nat \<Rightarrow> bool" where
  "own_recorded s i \<longleftrightarrow> i < length (vl_log s) \<and>
     (\<exists>p. vl_map s = Some p \<and>
        ((\<exists>v. vl_worker s = W_Called (Some v) p \<and> filters (vl_log s ! i) v) \<or>
         ((\<nexists>v q. vl_worker s = W_Called v q) \<and> filters (vl_log s ! i) (lv_version (vl_entries s p)))))"

definition own_inv :: "version_state \<Rightarrow> bool" where
  "own_inv s \<longleftrightarrow>
     (\<forall>i. vl_own s = Some i \<longrightarrow> own_recorded s i \<and>
        (\<forall>t p l. vl_preds s t = P_RLocking i p l \<or> vl_preds s t = P_Reading i p l \<longrightarrow> vl_map s = Some p \<and> l))"

lemma section_result_filters: "section_result sec (Some evt) v \<Longrightarrow> \<exists>rv. v = Some rv \<and> filters evt rv"
  by (erule section_result.cases)
     (auto simp: create_result_def update_result_def delete_result_def filters_def Let_def
       split: sum.splits option.splits)

lemma own_recorded_step:
  assumes "version_step s s'" and "entry_inv s" and "vl_own s' = Some i" and "vl_own s = Some i \<Longrightarrow> own_recorded s i"
  shows "own_recorded s' i"
  using assms(1) unfolding version_step_def
proof
  assume "version_begin s s'"
  then show ?thesis using assms(2-)
    by cases (auto simp: own_recorded_def entry_inv_def version_load mutex_ops nth_append)
next
  assume "version_continue s s'"
  then show ?thesis using assms(2-)
    by cases (auto simp: own_recorded_def entry_inv_def mutex_ops nth_append dest!: section_result_filters split: option.splits)
qed

lemma step_own:
  assumes "version_step s s'" and "vl_own s' = Some i" and "i < length (vl_log s)"
  shows "vl_own s = Some i \<and> (vl_map s \<noteq> None \<longrightarrow> vl_map s' = vl_map s)"
  using assms(1) unfolding version_step_def
proof
  assume "version_begin s s'"
  then show ?thesis using assms(2-) by cases (auto simp: version_load mutex_ops)
next
  assume "version_continue s s'"
  then show ?thesis using assms(2-) by cases (auto simp: mutex_ops)
qed

lemma own_inv_step:
  assumes "version_step s s'" and "entry_inv s" and "own_inv s"
  shows "own_inv s'"
  unfolding own_inv_def
proof (intro allI impI conjI)
  fix i assume own: "vl_own s' = Some i"
  show "own_recorded s' i" using own_recorded_step [OF assms(1,2) own] assms(3) by (simp add: own_inv_def)
  fix t p l assume at: "vl_preds s' t = P_RLocking i p l \<or> vl_preds s' t = P_Reading i p l"
  have ok: "predicate_ok s (vl_preds s t)" using assms(2) by (simp add: entry_inv_def)
  with at step_predicate [OF assms(1), of t] have "i < length (vl_log s)"
    by (cases "vl_preds s' t = vl_preds s t") auto
  from step_own [OF assms(1) own this] have own': "vl_own s = Some i"
    and map': "vl_map s \<noteq> None \<longrightarrow> vl_map s' = vl_map s" by auto
  with assms(3) have "own_recorded s i" and
    old: "vl_preds s t = P_RLocking i p l \<or> vl_preds s t = P_Reading i p l \<Longrightarrow> vl_map s = Some p \<and> l"
    by (auto simp: own_inv_def)
  then have "vl_map s \<noteq> None" by (auto simp: own_recorded_def)
  then obtain q where q: "vl_map s = Some q" "vl_map s' = Some q" using map' by auto
  have "vl_map s = Some p \<and> l"
  proof (cases "vl_preds s' t = vl_preds s t")
    case True
    with at old show ?thesis by simp
  next
    case False
    from step_predicate [OF assms(1) this] at old q show ?thesis by auto
  qed
  with q show "vl_map s' = Some p" "l" by simp_all
qed

lemma version_reach_own: "version_reach s \<Longrightarrow> own_inv s"
proof (induction rule: version_reach.induct)
  case start
  then show ?case by (simp add: own_inv_def version_start_def)
next
  case (step s s')
  then show ?case using own_inv_step version_reach_inv by blast
qed

lemma own_filtered:
  assumes "version_reach s" and "vl_preds s t = P_Reading i p l" and "vl_own s = Some i"
  shows "\<not> event_passes (vl_log s ! i) (lv_version (vl_entries s p), l)"
proof -
  from version_reach_own [OF assms(1)] assms(2,3) have r: "own_recorded s i" and p: "vl_map s = Some p" "l"
    by (auto simp: own_inv_def)
  have "writes_to (vl_worker s) \<noteq> Some p"
    using writing_excludes [of s p "Some t"] version_reach_inv [OF assms(1)] assms(2) by (auto simp: reads_def)
  with r p show ?thesis by (auto simp: own_recorded_def filters_def)
qed

section \<open>Atomic accesses\<close>

text \<open>What the cache of \<open>Resource_Versions\<close> has at the key, and its predicates as one function.\<close>

definition cached_version :: "version_state \<Rightarrow> string option" where
  "cached_version s = map_option (\<lambda>p. lv_version (vl_entries s p)) (vl_map s)"

definition read_now :: "version_state \<Rightarrow> string \<times> bool" where
  "read_now s = (case cached_version s of None \<Rightarrow> ([], False) | Some v \<Rightarrow> (v, True))"

fun event_key :: "ObjectMeta event \<Rightarrow> string" where
  "event_key (CreateEvent object) = rsrcVersKey (om_Namespace object) (om_Name object)"
| "event_key (UpdateEvent objectOld objectNew) = rsrcVersKey (om_Namespace objectNew) (om_Name objectNew)"
| "event_key (DeleteEvent object) = rsrcVersKey (om_Namespace object) (om_Name object)"
| "event_key (GenericEvent object) = []"

fun atomic_predicate :: "versions \<Rightarrow> ObjectMeta event \<Rightarrow> bool" where
  "atomic_predicate vs (CreateEvent object) = fst (replicated_CreateFunc vs object)"
| "atomic_predicate vs (UpdateEvent objectOld objectNew) = fst (replicated_UpdateFunc vs objectOld objectNew)"
| "atomic_predicate vs (DeleteEvent object) = fst (replicated_DeleteFunc vs object)"
| "atomic_predicate vs (GenericEvent object) = True"

lemma atomic_predicate_passes:
  assumes "reads_cache evt" and "fmlookup vs (event_key evt) = cached_version s"
  shows "atomic_predicate vs evt = event_passes evt (read_now s)"
  using assms by (cases evt) (auto simp: CreateFunc_iff UpdateFunc_iff DeleteFunc_iff read_now_def split: option.splits)

text \<open>The sections are those of the reconciler: what they record is what its atomic model records.\<close>

definition after_section :: "versions \<Rightarrow> string \<Rightarrow> string option \<Rightarrow> versions" where
  "after_section vs key v =
     (case v of None \<Rightarrow> snd (safeWriteLoad vs key) | Some rv \<Rightarrow> set_version (snd (safeWriteLoad vs key)) key rv)"

lemma create_replica_section:
  assumes "Create_Policy (rc_api R) desired (pr_world st) = (r, k)"
    and "create_replica R request rootPlc desired cl werr st = (out, st')"
  shows "pr_versions st' = after_section (pr_versions st) (rsrcVersKey (nn_Namespace request) (nn_Name request))
    (snd (create_result (map_sum id p_ObjectMeta r)))"
  using assms
  by (auto simp: create_replica_def create_result_def after_section_def record_event_def set_world_def Let_def
      split: sum.splits if_splits)

lemma update_replica_section:
  assumes "update_replica R request rootPlc desired p cl terr werr st = (out, st')"
  obtains r where "pr_versions st' = after_section (pr_versions st) (rsrcVersKey (nn_Namespace request) (nn_Name request))
    (snd (update_result (p_ObjectMeta p) r))"
proof (cases "equivalentReplicatedPolicies desired p")
  case True
  with assms that [of None] show thesis
    by (auto simp: update_replica_def update_result_def after_section_def Let_def)
next
  case False
  let ?p = "p\<lparr>p_ObjectMeta := (p_ObjectMeta p)\<lparr>om_Annotations := p_Annotations desired, om_Labels := p_Labels desired\<rparr>,
    p_Spec := p_Spec desired\<rparr>"
  obtain r k where "Update_Policy (rc_api R) ?p (pr_world st) = (r, k)" by fastforce
  with False assms that [of "Some (map_sum id p_ObjectMeta r)"] show thesis
    by (auto simp: update_replica_def update_result_def after_section_def record_event_def set_world_def Let_def
        split: sum.splits)
qed

lemma cleanUpReplicated_section:
  assumes "cleanUpReplicated R p st = (err, st')"
  obtains r where "pr_versions st' = after_section (pr_versions st) (rsrcVersKey (p_Namespace p) (p_Name p))
    (snd (delete_result (p_ObjectMeta p) r))"
proof -
  obtain e k where d: "Delete_Policy (rc_api R) p (snd (RemoveWatcher (rc_api R)
      (object_id R (p_TypeMeta p) (p_Namespace p) (p_Name p)) (pr_world st))) = (e, k)" by fastforce
  show thesis
    by (rule that [of "case e of None \<Rightarrow> Inr (p_ObjectMeta p) | Some e \<Rightarrow> Inl e"])
       (use assms d in \<open>auto simp: cleanUpReplicated_def delete_result_def after_section_def set_world_def Let_def
         split: option.splits prod.splits\<close>)
qed

text \<open>
  A predicate from the moment it loads the entry: the states it has seen. It decides with what the cache
  had in one of them.
\<close>

inductive version_history :: "nat \<Rightarrow> version_state list \<Rightarrow> version_state \<Rightarrow> bool" for t where
  begins: "version_reach s \<Longrightarrow> version_step s s' \<Longrightarrow> \<not> active (vl_preds s t) \<Longrightarrow> active (vl_preds s' t) \<Longrightarrow>
    version_history t [s, s'] s'"
| continues: "version_history t hs s \<Longrightarrow> version_step s s' \<Longrightarrow> active (vl_preds s' t) \<Longrightarrow>
    version_history t (hs @ [s']) s'"

lemma version_history_basic: "version_history t hs s \<Longrightarrow> version_reach s \<and> s \<in> set hs \<and> active (vl_preds s t)"
  by (induction rule: version_history.induct) (auto intro: version_reach.step)

lemma step_unmap:
  assumes "version_step s s'" and "vl_map s = Some p" and "vl_map s' \<noteq> Some p"
  shows "vl_worker s = W_Idle"
  using assms(1) unfolding version_step_def
proof
  assume "version_begin s s'"
  then show ?thesis using assms(2-) by cases (auto simp: version_load mutex_ops)
next
  assume "version_continue s s'"
  then show ?thesis using assms(2-) by cases (auto simp: mutex_ops)
qed

definition witnessed :: "version_state list \<Rightarrow> version_state \<Rightarrow> nat \<Rightarrow> bool \<Rightarrow> bool" where
  "witnessed hs s p l \<longleftrightarrow>
     (if l then vl_map s = Some p \<or> (\<exists>h \<in> set hs. vl_map h = Some p \<and> lv_version (vl_entries h p) = lv_version (vl_entries s p))
      else lv_version (vl_entries s p) = [] \<and> (\<exists>h \<in> set hs. vl_map h = None))"

lemma witnessed_step:
  assumes "version_reach s" and "version_step s s'" and "s \<in> set hs" and "witnessed hs s p l" and "p < vl_next s"
    and "predicate_ok s' (P_Reading i p l)"
  shows "witnessed (hs @ [s']) s' p l"
proof (cases "l \<and> vl_map s' \<noteq> Some p")
  case True
  have "writes_to (vl_worker s) \<noteq> Some p"
  proof (cases "vl_map s = Some p")
    case True
    with step_unmap [OF assms(2)] \<open>l \<and> _\<close> show ?thesis by simp
  next
    case False
    then have "worker_entry (vl_worker s) \<noteq> Some p"
      using version_reach_inv [OF assms(1)] by (auto simp: entry_inv_def)
    then show ?thesis by (cases "vl_worker s") auto
  qed
  from step_grows(3) [OF assms(2,5) this] True assms(3,4) show ?thesis by (auto simp: witnessed_def)
next
  case False
  with assms(4,6) show ?thesis by (auto simp: witnessed_def)
qed

lemma history_witnessed:
  "version_history t hs s \<Longrightarrow> vl_preds s t = P_RLocking i p l \<or> vl_preds s t = P_Reading i p l \<Longrightarrow> witnessed hs s p l"
proof (induction arbitrary: i p l rule: version_history.induct)
  case (begins s s')
  then have "vl_preds s' t \<noteq> vl_preds s t" by auto
  from step_predicate [OF begins(2) this] begins show ?case by (auto simp: witnessed_def)
next
  case (continues hs s s')
  note b = version_history_basic [OF continues(1)]
  have ok: "predicate_ok s (vl_preds s t)" "predicate_ok s' (vl_preds s' t)"
    using version_reach_inv b version_reach.step [OF _ continues(2)] by (auto simp: entry_inv_def)
  have old: "vl_preds s t = P_RLocking i p l \<or> vl_preds s t = P_Reading i p l"
    using step_predicate [OF continues(2), of t] continues.prems b
    by (cases "vl_preds s' t = vl_preds s t") auto
  have "witnessed hs s p l" using continues.IH [OF old] .
  then show ?case
    using b ok old continues.prems
    by (intro witnessed_step [OF _ continues(2), of hs p l i]) (auto simp: witnessed_def)
qed

lemma predicate_reads_history:
  assumes "version_history t hs s" and "vl_preds s t = P_Reading i p l"
  obtains h where "h \<in> set hs" and "(lv_version (vl_entries s p), l) = read_now h"
proof -
  have "s \<in> set hs" using version_history_basic [OF assms(1)] by blast
  with history_witnessed [OF assms(1)] assms(2) that show thesis
    by (fastforce simp: witnessed_def read_now_def cached_version_def split: if_splits)
qed

section \<open>Nobody waits forever\<close>

text \<open>The steps that are left for what has begun.\<close>

fun worker_work :: "worker \<Rightarrow> nat" where
  "worker_work W_Idle = 0"
| "worker_work (W_Locking sec p) = 4"
| "worker_work (W_Held sec p) = 3"
| "worker_work (W_Called v p) = 2"
| "worker_work (W_Stored p) = 1"
| "worker_work (W_RLocking p) = 2"
| "worker_work (W_Reading p) = 1"

fun predicate_work :: "event_predicate \<Rightarrow> nat" where
  "predicate_work (P_RLocking i p l) = 2"
| "predicate_work (P_Reading i p l) = 1"
| "predicate_work _ = 0"

definition work_left :: "version_state \<Rightarrow> nat" where
  "work_left s = worker_work (vl_worker s) + (\<Sum>t \<in> {t. active (vl_preds s t)}. predicate_work (vl_preds s t))"

lemma finite_active: "version_reach s \<Longrightarrow> finite {t. active (vl_preds s t)}"
proof (induction rule: version_reach.induct)
  case start
  then show ?case by (simp add: version_start_def)
next
  case (step s s')
  have "\<exists>t. \<forall>t'. t' \<noteq> t \<longrightarrow> vl_preds s' t' = vl_preds s t'"
    using step(2) unfolding version_step_def
  proof
    assume "version_begin s s'"
    then show ?thesis by cases (auto simp: version_load mutex_ops)
  next
    assume "version_continue s s'"
    then show ?thesis by cases (auto simp: mutex_ops)
  qed
  then obtain t where "\<And>t'. t' \<noteq> t \<Longrightarrow> vl_preds s' t' = vl_preds s t'" by blast
  then have "{t. active (vl_preds s' t)} \<subseteq> insert t {t. active (vl_preds s t)}" by fastforce
  with step.IH show ?case by (meson finite_insert finite_subset)
qed

lemma predicate_work_updated:
  assumes "finite {t. active (f t)}" and "active (f t)" and "predicate_work q < predicate_work (f t)"
  shows "(\<Sum>t' \<in> {t'. active ((f(t := q)) t')}. predicate_work ((f(t := q)) t')) <
    (\<Sum>t' \<in> {t'. active (f t')}. predicate_work (f t'))"
proof -
  let ?A = "{t'. active (f t')}" and ?g = "\<lambda>t'. predicate_work ((f(t := q)) t')"
  have "{t'. active ((f(t := q)) t')} \<subseteq> ?A" using assms(2) by auto
  then have "(\<Sum>t' \<in> {t'. active ((f(t := q)) t')}. ?g t') \<le> (\<Sum>t' \<in> ?A. ?g t')"
    by (intro sum_mono2 assms(1)) auto
  also have "\<dots> < (\<Sum>t' \<in> ?A. predicate_work (f t'))"
    using assms by (intro sum_strict_mono_ex1) auto
  finally show ?thesis .
qed

lemma continue_work:
  assumes "version_reach s" and "version_continue s s'"
  shows "work_left s' < work_left s"
  using assms(2)
proof cases
  case (pred_locked t i p l)
  with predicate_work_updated [OF finite_active [OF assms(1)], of t "P_Reading i p l"] show ?thesis
    by (simp add: work_left_def mutex_ops)
next
  case (pred_read t i p l)
  with predicate_work_updated [OF finite_active [OF assms(1)], of t
      "P_Done i (event_passes (vl_log s ! i) (lv_version (vl_entries s p), l))"] show ?thesis
    by (simp add: work_left_def mutex_ops)
qed (simp_all add: work_left_def mutex_ops)

lemma section_result_exists: "\<exists>evt v. section_result sec evt v"
  by (cases sec) (metis section_result.intros surj_pair)+

lemma never_stuck:
  assumes "version_reach s" and "vl_worker s \<noteq> W_Idle \<or> active (vl_preds s t)"
  shows "\<exists>s'. version_continue s s'"
proof (cases "\<exists>t i p l. vl_preds s t = P_Reading i p l")
  case True
  then show ?thesis using version_continue.pred_read by blast
next
  case False
  then have free: "rw_readers (lv_mutex (vl_entries s p)) = (if vl_worker s = W_Reading p then {None} else {})"
    "rw_writer (lv_mutex (vl_entries s p)) = (writes_to (vl_worker s) = Some p)"
    "rw_announced (lv_mutex (vl_entries s p)) = (waits_for (vl_worker s) = Some p)" for p
    using version_reach_inv [OF assms(1)]
    by (auto simp: mutex_ok_def reads_def Let_def split: option.splits)
  show ?thesis
  proof (cases "vl_worker s")
    case W_Idle
    with assms(2) False obtain i p l where "vl_preds s t = P_RLocking i p l"
      by (cases "vl_preds s t") auto
    from version_continue.pred_locked [OF this] W_Idle free [of p] show ?thesis by (auto simp: can_rlock_def)
  next
    case (W_Locking sec p)
    from version_continue.locked [OF this] W_Locking free [of p] show ?thesis by (auto simp: can_lock_def)
  next
    case (W_Held sec p)
    with section_result_exists [of sec] version_continue.called show ?thesis by blast
  next
    case (W_RLocking p)
    from version_continue.stale_locked [OF this] W_RLocking free [of p] show ?thesis by (auto simp: can_rlock_def)
  qed (use version_continue.intros in blast)+
qed

lemma continue_reach: "version_reach s \<Longrightarrow> version_continue s s' \<Longrightarrow> version_reach s'"
  by (metis version_reach.step version_step_def)

lemma continue_bounded: "version_reach s \<Longrightarrow> (version_continue ^^ n) s s' \<Longrightarrow> n + work_left s' \<le> work_left s"
proof (induction n arbitrary: s)
  case 0
  then show ?case by simp
next
  case (Suc n)
  then obtain s1 where s1: "version_continue s s1" "(version_continue ^^ n) s1 s'" by (metis relpowp_Suc_D2)
  from Suc.IH [OF continue_reach [OF Suc.prems(1) s1(1)] s1(2)] continue_work [OF Suc.prems(1) s1(1)]
  show ?case by simp
qed

lemma continue_to_rest:
  assumes "version_reach s"
  shows "\<exists>s'. version_continue\<^sup>*\<^sup>* s s' \<and> vl_worker s' = W_Idle \<and> (\<forall>t. \<not> active (vl_preds s' t))"
  using assms
proof (induction "work_left s" arbitrary: s rule: less_induct)
  case less
  show ?case
  proof (cases "vl_worker s = W_Idle \<and> (\<forall>t. \<not> active (vl_preds s t))")
    case True
    then show ?thesis by blast
  next
    case False
    with never_stuck [OF less.prems] obtain s1 where s1: "version_continue s s1" by blast
    from less.hyps [OF continue_work [OF less.prems s1] continue_reach [OF less.prems s1]] s1
    show ?thesis by (meson converse_rtranclp_into_rtranclp)
  qed
qed

section \<open>An example\<close>

text \<open>
  The worker creates the policy; the event reaches a predicate before the version is recorded, which
  waits for the lock.
\<close>

definition ex_called :: version_state where
  "ex_called = (snd (write_load version_start))\<lparr>vl_log := [CreateEvent (ex_labelled ''7'')], vl_own := Some 0,
     vl_worker := W_Called (Some ''7'') 0\<rparr>"

definition ex_waiting :: version_state where
  "ex_waiting = set_pred 0 (P_RLocking 0 0 True) ex_called"

definition ex_stored :: version_state where
  "ex_stored = record_version (Some ''7'') 0 (ex_waiting\<lparr>vl_worker := W_Stored 0\<rparr>)"

definition ex_released :: version_state where
  "ex_released = unlock 0 (ex_stored\<lparr>vl_worker := W_Idle\<rparr>)"

definition ex_reading :: version_state where
  "ex_reading = rlock (Some 0) 0 (set_pred 0 (P_Reading 0 0 True) ex_released)"

lemma ex_label: "map_has (om_Labels (ex_labelled rv)) RootPolicyLabel" "om_ResourceVersion (ex_labelled rv) = rv"
  by (simp_all add: ex_labelled_def map_has_def raw_map_def)

lemma ex_called_reach: "version_reach ex_called"
proof -
  let ?s1 = "(snd (write_load version_start))\<lparr>vl_worker := W_Held Creating 0\<rparr>"
  have l: "write_load version_start = ((0, False), snd (write_load version_start))"
    by (simp add: write_load_def LoadOrStore_def version_start_def)
  have "version_begin version_start ?s1"
    by (rule version_begin.write_stored [OF _ l]) (simp add: version_start_def)
  then have "version_reach ?s1" by (intro version_reach.step [OF version_reach.start]) (simp add: version_step_def)
  moreover have "section_result Creating (Some (CreateEvent (ex_labelled ''7''))) (Some ''7'')"
    by (rule section_result.intros(1) [of "Inr (ex_labelled ''7'')"]) (simp add: create_result_def ex_label)
  then have "version_continue ?s1 ex_called"
    using version_continue.called [of ?s1 Creating 0 "Some (CreateEvent (ex_labelled ''7''))" "Some ''7''"]
    by (simp add: ex_called_def write_load_def LoadOrStore_def version_start_def)
  ultimately show ?thesis by (rule continue_reach)
qed

lemma ex_waiting_begin: "version_begin ex_called ex_waiting"
  unfolding ex_waiting_def
  by (rule version_begin.pred_found [of ex_called 0 0 True 0 0 ex_called])
     (simp_all add: ex_called_def write_load_def LoadOrStore_def version_start_def read_load_def ex_label)

lemmas ex_states = ex_reading_def ex_released_def ex_stored_def ex_waiting_def ex_called_def mutex_ops write_load_def
  LoadOrStore_def version_start_def

lemma ex_continue:
  "version_continue ex_waiting ex_stored" "version_continue ex_stored ex_released" "version_continue ex_released ex_reading"
proof -
  show "version_continue ex_waiting ex_stored"
    unfolding ex_stored_def by (rule version_continue.stored) (simp add: ex_waiting_def ex_called_def)
  show "version_continue ex_stored ex_released"
    unfolding ex_released_def by (rule version_continue.unlocked) (simp add: ex_stored_def)
  show "version_continue ex_released ex_reading"
    unfolding ex_reading_def by (rule version_continue.pred_locked) (simp_all add: ex_states can_rlock_def)
qed

lemma ex_step:
  "version_step ex_called ex_waiting" "version_step ex_waiting ex_stored" "version_step ex_stored ex_released"
  "version_step ex_released ex_reading"
  by (simp_all add: version_step_def ex_continue ex_waiting_begin)

lemma ex_reading_reach: "version_reach ex_reading"
  using ex_called_reach ex_step by (blast intro: version_reach.step)

lemma ex_history: "version_history 0 [ex_called, ex_waiting, ex_stored, ex_released, ex_reading] ex_reading"
proof -
  have "version_history 0 [ex_called, ex_waiting] ex_waiting"
    by (rule version_history.begins [OF ex_called_reach ex_step(1)]) (simp_all add: ex_states)
  from version_history.continues [OF this ex_step(2)]
  have "version_history 0 [ex_called, ex_waiting, ex_stored] ex_stored" by (simp add: ex_states)
  from version_history.continues [OF this ex_step(3)]
  have "version_history 0 [ex_called, ex_waiting, ex_stored, ex_released] ex_released" by (simp add: ex_states)
  from version_history.continues [OF this ex_step(4)] show ?thesis by (simp add: ex_states)
qed

lemma ex_reading_state:
  "vl_preds ex_reading 0 = P_Reading 0 0 True" "vl_own ex_reading = Some 0" "vl_log ex_reading = [CreateEvent (ex_labelled ''7'')]"
  "vl_preds ex_called 0 = P_Idle"
  by (simp_all add: ex_states)

definition ex_versions :: "version_state \<Rightarrow> versions" where
  "ex_versions s = (case cached_version s of None \<Rightarrow> fmempty | Some v \<Rightarrow> fmupd ''c1/ns.p'' v fmempty)"

lemma ex_versions_lookup: "fmlookup (ex_versions s) ''c1/ns.p'' = cached_version s"
  by (simp add: ex_versions_def split: option.splits)

section \<open>Properties\<close>

text \<open>C20. The event of the reconciler's own write is filtered out in every interleaving: a predicate that
  decides on the event of the worker's last create, update or delete rejects it, even when the event
  arrived while the worker was still in the call or had not recorded the version yet.\<close>

theorem own_event_filtered:
  assumes "version_reach s" and "version_step s s'"
    and "vl_preds s t = P_Reading i p l" and "vl_preds s' t = P_Done i b" and "vl_own s = Some i"
  shows "\<not> b"
  using step_predicate [OF assms(2), of t] own_filtered [OF assms(1,3,5)] assms(3,4) by auto

theorem own_event_filtered_witness:
  "\<exists>s'. version_continue ex_reading s' \<and> vl_preds s' 0 = P_Done 0 False"
proof -
  let ?b = "event_passes (vl_log ex_reading ! 0) (lv_version (vl_entries ex_reading 0), True)"
  let ?s' = "runlock (Some 0) 0 (set_pred 0 (P_Done 0 ?b) ex_reading)"
  have c: "version_continue ex_reading ?s'" by (rule version_continue.pred_read) (simp add: ex_reading_state)
  then have st: "version_step ex_reading ?s'" by (simp add: version_step_def)
  have d: "vl_preds ?s' 0 = P_Done 0 ?b" by (simp add: mutex_ops)
  from own_event_filtered [OF ex_reading_reach st ex_reading_state(1) d ex_reading_state(2)] c d show ?thesis by auto
qed

text \<open>C21. The cache behaves as if every access were atomic: whatever other threads do meanwhile, a predicate
  decides as the predicates of \<open>Resource_Versions\<close> decide on the cache as it was at one moment between
  the load of the entry and the decision, even when the key was removed meanwhile.\<close>

theorem predicate_linearizes:
  assumes "version_history t hs s" and "vl_preds s t = P_Reading i p l"
  shows "\<exists>h \<in> set hs. \<forall>vs. fmlookup vs (event_key (vl_log s ! i)) = cached_version h \<longrightarrow>
    event_passes (vl_log s ! i) (lv_version (vl_entries s p), l) = atomic_predicate vs (vl_log s ! i)"
proof -
  obtain h where h: "h \<in> set hs" "(lv_version (vl_entries s p), l) = read_now h"
    by (rule predicate_reads_history [OF assms])
  have "predicate_ok s (vl_preds s t)"
    using version_reach_inv version_history_basic [OF assms(1)] by (auto simp: entry_inv_def)
  then have "reads_cache (vl_log s ! i)" by (simp add: assms(2))
  from atomic_predicate_passes [OF this] h show ?thesis by metis
qed

theorem predicate_linearizes_witness:
  "\<exists>h \<in> set [ex_called, ex_waiting, ex_stored, ex_released, ex_reading].
     \<not> atomic_predicate (ex_versions h) (CreateEvent (ex_labelled ''7''))"
proof -
  have "event_key (CreateEvent (ex_labelled ''7'')) = ''c1/ns.p''"
    by (simp add: rsrcVersKey_def ex_labelled_def ex_meta_def)
  moreover have "\<not> event_passes (CreateEvent (ex_labelled ''7'')) (lv_version (vl_entries ex_reading 0), True)"
    by (simp add: ex_states ex_label)
  ultimately show ?thesis
    using predicate_linearizes [OF ex_history ex_reading_state(1)] ex_versions_lookup
    unfolding ex_reading_state(3) by (metis nth_Cons_0)
qed

text \<open>C22. Nobody waits forever: as long as nothing new begins, the threads can go on until all locks are
  released, and whatever the scheduler does they have done so after at most \<open>work_left\<close> steps.\<close>

theorem locks_released:
  assumes "version_reach s"
  shows "(\<exists>s'. version_continue\<^sup>*\<^sup>* s s' \<and> vl_worker s' = W_Idle \<and> (\<forall>t. \<not> active (vl_preds s' t))) \<and>
    (\<forall>n s'. (version_continue ^^ n) s s' \<longrightarrow> n \<le> work_left s)"
  using continue_to_rest [OF assms] continue_bounded [OF assms] by (meson le_add1 le_trans)

theorem locks_released_witness:
  "\<exists>s'. version_continue\<^sup>*\<^sup>* ex_reading s' \<and> vl_worker s' = W_Idle \<and> \<not> active (vl_preds s' 0)"
  using locks_released [OF ex_reading_reach] by blast

end
