(* ===== verification/Go_Heap.thy ===== *)
theory Go_Heap
  imports Go_Prelude
begin

text \<open>
  A memory for Go values, for the code whose effect depends on aliasing: structs are values, and a
  pointer, slice or map is nil or the address of a cell. Types are those of the source's struct
  declarations. \<open>rep l h T v t\<close> says that the value \<open>v\<close> of type \<open>T\<close> stands for the
  tree \<open>t\<close> in the heap \<open>h\<close> and uses only addresses from \<open>l\<close> on; two values with the same tree
  are equal for \<^verbatim>\<open>reflect.DeepEqual\<close>. The statements of the generated copy functions are
  combinators, and \<open>deep\<close> is their contract: the result has the same tree, uses new cells only,
  and no old cell is written.
\<close>

section \<open>Values, cells and types\<close>

datatype scalar = SString string | SInt int | SBool bool

datatype gval = Scalar scalar | NilRef | Ref nat | Struct "(string \<times> gval) list"

datatype cell = Obj gval | Arr "gval list" | Dict "(string \<times> gval) list"

datatype base = BString | BInt | BBool

datatype ty = TBase base | TStruct "(string \<times> ty) list" | TPtr ty | TSlice ty | TMap ty

fun base_of :: "scalar \<Rightarrow> base" where
  "base_of (SString s) = BString"
| "base_of (SInt i) = BInt"
| "base_of (SBool b) = BBool"

text \<open>The addresses below \<open>lim\<close> are allocated.\<close>

record heap =
  lim :: nat
  cells :: "nat \<Rightarrow> cell"

definition alloc :: "cell \<Rightarrow> heap \<Rightarrow> nat \<times> heap" where
  "alloc x h = (lim h, h\<lparr>lim := Suc (lim h), cells := (cells h)(lim h := x)\<rparr>)"

definition put :: "nat \<Rightarrow> cell \<Rightarrow> heap \<Rightarrow> heap" where
  "put a x h = h\<lparr>cells := (cells h)(a := x)\<rparr>"

lemma alloc_simps [simp]: "fst (alloc x h) = lim h" "lim (snd (alloc x h)) = Suc (lim h)"
  "cells (snd (alloc x h)) = (cells h)(lim h := x)"
  by (simp_all add: alloc_def)

lemma put_simps [simp]: "lim (put a x h) = lim h" "cells (put a x h) = (cells h)(a := x)"
  by (simp_all add: put_def)

section \<open>Statements of the copy functions\<close>

type_synonym copier = "gval \<Rightarrow> heap \<Rightarrow> gval \<times> heap"

text \<open>\<^verbatim>\<open>out.F = in.F\<close>, or the part of \<^verbatim>\<open>*out = *in\<close> that is not overwritten.\<close>

definition assign :: copier where
  "assign v h = (v, h)"

fun field :: "gval \<Rightarrow> string \<Rightarrow> gval" where
  "field (Struct fs) n = (case map_of fs n of Some v \<Rightarrow> v | None \<Rightarrow> NilRef)"
| "field _ n = NilRef"

fun set_field :: "string \<Rightarrow> gval \<Rightarrow> gval \<Rightarrow> gval" where
  "set_field n x (Struct fs) = Struct (AList.update n x fs)"
| "set_field n x v = v"

text \<open>A \<^verbatim>\<open>DeepCopyInto\<close>: \<^verbatim>\<open>*out = *in\<close>, then one statement for each of some fields, in order.\<close>

definition into_step :: "gval \<Rightarrow> string \<times> copier \<Rightarrow> gval \<times> heap \<Rightarrow> gval \<times> heap" where
  "into_step inp = (\<lambda>(n, f) (out, h). case f (field inp n) h of (x, h') \<Rightarrow> (set_field n x out, h'))"

definition into :: "(string \<times> copier) list \<Rightarrow> copier" where
  "into stmts inp h = fold (into_step inp) stmts (inp, h)"

text \<open>\<^verbatim>\<open>if in.F != nil\<close> around a statement; otherwise \<^verbatim>\<open>*out = *in\<close> has copied the nil.\<close>

definition if_not_nil :: "copier \<Rightarrow> copier" where
  "if_not_nil f v h = (if v = NilRef then (NilRef, h) else f v h)"

text \<open>\<^verbatim>\<open>*out = new(T)\<close> and a copy into the new cell, which the first assignment \<^verbatim>\<open>*out = *in\<close> of the
  copy fills.\<close>

definition new_copy :: "copier \<Rightarrow> copier" where
  "new_copy f v h =
     (case v of
        Ref a \<Rightarrow>
          (case cells h a of
             Obj x \<Rightarrow>
               (case alloc (Obj x) h of (b, h1) \<Rightarrow>
                  case f x h1 of (x', h2) \<Rightarrow> (Ref b, put b (Obj x') h2))
           | _ \<Rightarrow> (v, h))
      | _ \<Rightarrow> (v, h))"

text \<open>\<^verbatim>\<open>make([]T, len)\<close> and \<^verbatim>\<open>copy\<close>.\<close>

definition make_copy :: copier where
  "make_copy v h =
     (case v of
        Ref a \<Rightarrow> (case cells h a of Arr xs \<Rightarrow> (case alloc (Arr xs) h of (b, h1) \<Rightarrow> (Ref b, h1)) | _ \<Rightarrow> (v, h))
      | _ \<Rightarrow> (v, h))"

text \<open>\<^verbatim>\<open>make([]T, len)\<close> and the loop that copies every element to its index.\<close>

definition set_elem :: "nat \<Rightarrow> nat \<Rightarrow> gval \<Rightarrow> heap \<Rightarrow> heap" where
  "set_elem b i x h = (case cells h b of Arr xs \<Rightarrow> put b (Arr (xs[i := x])) h | _ \<Rightarrow> h)"

fun copy_loop :: "copier \<Rightarrow> nat \<Rightarrow> nat \<Rightarrow> gval list \<Rightarrow> heap \<Rightarrow> heap" where
  "copy_loop f b i [] h = h"
| "copy_loop f b i (x # xs) h = (case f x h of (x', h') \<Rightarrow> copy_loop f b (Suc i) xs (set_elem b i x' h'))"

definition make_each :: "copier \<Rightarrow> copier" where
  "make_each f v h =
     (case v of
        Ref a \<Rightarrow>
          (case cells h a of
             Arr xs \<Rightarrow>
               (case alloc (Arr (replicate (length xs) NilRef)) h of (b, h1) \<Rightarrow> (Ref b, copy_loop f b 0 xs h1))
           | _ \<Rightarrow> (v, h))
      | _ \<Rightarrow> (v, h))"

text \<open>\<^verbatim>\<open>make(map[string]T, len)\<close> and the loop over the entries, in the order \<open>rng\<close> in which the run-time
  system happens to iterate.\<close>

definition set_key :: "nat \<Rightarrow> string \<Rightarrow> gval \<Rightarrow> heap \<Rightarrow> heap" where
  "set_key b k x h = (case cells h b of Dict xs \<Rightarrow> put b (Dict (AList.update k x xs)) h | _ \<Rightarrow> h)"

fun map_loop :: "copier \<Rightarrow> nat \<Rightarrow> (string \<times> gval) list \<Rightarrow> heap \<Rightarrow> heap" where
  "map_loop f b [] h = h"
| "map_loop f b ((k, x) # xs) h = (case f x h of (x', h') \<Rightarrow> map_loop f b xs (set_key b k x' h'))"

definition make_map :: "((string \<times> gval) list \<Rightarrow> (string \<times> gval) list) \<Rightarrow> copier \<Rightarrow> copier" where
  "make_map rng f v h =
     (case v of
        Ref a \<Rightarrow>
          (case cells h a of
             Dict xs \<Rightarrow> (case alloc (Dict []) h of (b, h1) \<Rightarrow> (Ref b, map_loop f b (rng xs) h1))
           | _ \<Rightarrow> (v, h))
      | _ \<Rightarrow> (v, h))"

section \<open>What a value stands for\<close>

datatype tree =
    TScalar scalar
  | TNil
  | TRef tree
  | TArr "tree list"
  | TDict "string \<Rightarrow> tree option"
  | TRec "(string \<times> tree) list"

inductive rep :: "nat \<Rightarrow> heap \<Rightarrow> ty \<Rightarrow> gval \<Rightarrow> tree \<Rightarrow> bool" for l h where
  rep_base: "base_of s = b \<Longrightarrow> rep l h (TBase b) (Scalar s) (TScalar s)"
| rep_struct_Nil: "rep l h (TStruct []) (Struct []) (TRec [])"
| rep_struct_Cons: "rep l h T v t \<Longrightarrow> rep l h (TStruct fs) (Struct vs) (TRec ts) \<Longrightarrow>
    rep l h (TStruct ((n, T) # fs)) (Struct ((n, v) # vs)) (TRec ((n, t) # ts))"
| rep_ptr_nil: "rep l h (TPtr T) NilRef TNil"
| rep_ptr: "l \<le> a \<Longrightarrow> a < lim h \<Longrightarrow> cells h a = Obj v \<Longrightarrow> rep l h T v t \<Longrightarrow> rep l h (TPtr T) (Ref a) (TRef t)"
| rep_slice_nil: "rep l h (TSlice T) NilRef TNil"
| rep_slice: "l \<le> a \<Longrightarrow> a < lim h \<Longrightarrow> cells h a = Arr vs \<Longrightarrow> list_all2 (rep l h T) vs ts \<Longrightarrow>
    rep l h (TSlice T) (Ref a) (TArr ts)"
| rep_map_nil: "rep l h (TMap T) NilRef TNil"
| rep_map: "l \<le> a \<Longrightarrow> a < lim h \<Longrightarrow> cells h a = Dict kvs \<Longrightarrow> distinct (map fst kvs) \<Longrightarrow>
    (\<And>k. rel_option (rep l h T) (map_of kvs k) (m k)) \<Longrightarrow> rep l h (TMap T) (Ref a) (TDict m)"
monos list.rel_mono option.rel_mono

inductive_simps rep_struct_Nil_iff [simp]: "rep l h (TStruct []) v t"
inductive_simps rep_base_iff: "rep l h (TBase b) v t"
inductive_cases rep_structE: "rep l h (TStruct fs) v t"

lemma rep_ptrE:
  assumes "rep l h (TPtr T) v t"
  obtains (nil) "v = NilRef" "t = TNil"
  | (ref) a x t' where "v = Ref a" "t = TRef t'" "l \<le> a" "a < lim h" "cells h a = Obj x" "rep l h T x t'"
  using assms by (rule rep.cases) auto

lemma rep_sliceE:
  assumes "rep l h (TSlice T) v t"
  obtains (nil) "v = NilRef" "t = TNil"
  | (ref) a xs ts where "v = Ref a" "t = TArr ts" "l \<le> a" "a < lim h" "cells h a = Arr xs"
      "list_all2 (rep l h T) xs ts"
  using assms by (rule rep.cases) auto

lemma rep_mapE:
  assumes "rep l h (TMap T) v t"
  obtains (nil) "v = NilRef" "t = TNil"
  | (ref) a kvs m where "v = Ref a" "t = TDict m" "l \<le> a" "a < lim h" "cells h a = Dict kvs"
      "distinct (map fst kvs)" "\<And>k. rel_option (rep l h T) (map_of kvs k) (m k)"
  using assms by (rule rep.cases) auto

lemma rep_frame:
  assumes "rep l h T v t" and "l' \<le> l" and "lim h \<le> lim h'"
    and "\<And>a. l \<le> a \<Longrightarrow> a < lim h \<Longrightarrow> cells h' a = cells h a"
  shows "rep l' h' T v t"
  using assms(1)
proof (induction rule: rep.induct)
  case (rep_ptr a v T t)
  with assms(2-) show ?case by (intro rep.rep_ptr [where v = v]) auto
next
  case (rep_slice a vs T ts)
  with assms(2-) show ?case
    by (intro rep.rep_slice [where vs = vs]) (auto elim: list.rel_mono_strong)
next
  case (rep_map a kvs T m)
  have "rel_option (rep l' h' T) (map_of kvs k) (m k)" for k
    using rep_map(5) [of k] by (rule option.rel_mono_strong) simp
  with rep_map(1-4) assms(2-) show ?case
    by (intro rep.rep_map [where kvs = kvs]) auto
qed (auto intro: rep.intros)

section \<open>Types without references\<close>

fun flat :: "ty \<Rightarrow> bool" where
  "flat (TBase b) = True"
| "flat (TStruct []) = True"
| "flat (TStruct ((n, T) # fs)) = (flat T \<and> flat (TStruct fs))"
| "flat _ = False"

lemma rep_flat: "rep l h T v t \<Longrightarrow> flat T \<Longrightarrow> rep l' h' T v t"
  by (induction rule: rep.induct) (auto intro: rep.intros)

section \<open>The contract of a copy\<close>

text \<open>\<open>h'\<close> extends \<open>h\<close>: new cells at most, old ones unchanged.\<close>

definition extends :: "heap \<Rightarrow> heap \<Rightarrow> bool" where
  "extends h h' \<longleftrightarrow> lim h \<le> lim h' \<and> (\<forall>a < lim h. cells h' a = cells h a)"

lemma extends_refl [simp, intro]: "extends h h"
  by (simp add: extends_def)

lemma extends_trans [trans]: "extends h h' \<Longrightarrow> extends h' h'' \<Longrightarrow> extends h h''"
  by (auto simp: extends_def)

lemma extends_alloc [intro]: "extends h (snd (alloc x h))"
  by (simp add: extends_def)

lemma rep_extends: "rep l h T v t \<Longrightarrow> extends h h' \<Longrightarrow> l' \<le> l \<Longrightarrow> rep l' h' T v t"
  by (erule rep_frame) (auto simp: extends_def)

definition deep :: "ty \<Rightarrow> copier \<Rightarrow> bool" where
  "deep T f \<longleftrightarrow>
     (\<forall>h v t. rep 0 h T v t \<longrightarrow> (case f v h of (v', h') \<Rightarrow> extends h h' \<and> rep (lim h) h' T v' t))"

lemma deepI [intro?]:
  "(\<And>h v t v' h'. rep 0 h T v t \<Longrightarrow> f v h = (v', h') \<Longrightarrow> extends h h' \<and> rep (lim h) h' T v' t) \<Longrightarrow> deep T f"
  by (auto simp: deep_def)

lemma deepD:
  assumes "deep T f" and "rep 0 h T v t"
  obtains v' h' where "f v h = (v', h')" and "extends h h'" and "rep (lim h) h' T v' t"
proof -
  note assms(1) [unfolded deep_def, rule_format, OF assms(2)]
  then show thesis using that by (cases "f v h") auto
qed

lemma deep_assign: "flat T \<Longrightarrow> deep T assign"
  by (auto simp: deep_def assign_def intro: rep_flat)

lemma deep_new_copy:
  assumes "deep T f"
  shows "deep (TPtr T) (if_not_nil (new_copy f))"
proof
  fix h v t v' h' assume r: "rep 0 h (TPtr T) v t" and c: "if_not_nil (new_copy f) v h = (v', h')"
  from r show "extends h h' \<and> rep (lim h) h' (TPtr T) v' t"
  proof (cases rule: rep_ptrE)
    case nil
    with c show ?thesis by (auto simp: if_not_nil_def intro: rep_ptr_nil)
  next
    case (ref a x t')
    let ?h1 = "snd (alloc (Obj x) h)"
    from ref have "rep 0 ?h1 T x t'" by (auto elim: rep_extends)
    with assms obtain x' h2 where f: "f x ?h1 = (x', h2)" "extends ?h1 h2" "rep (lim ?h1) h2 T x' t'"
      by (rule deepD)
    have "rep (lim ?h1) (put (lim h) (Obj x') h2) T x' t'"
      using f(3) by (rule rep_frame) auto
    with ref c f show ?thesis
      by (auto simp: if_not_nil_def new_copy_def extends_def alloc_def
          intro!: rep_ptr [of _ "lim h"] elim: rep_frame)
  qed
qed


lemma deep_make_copy:
  assumes "flat T"
  shows "deep (TSlice T) (if_not_nil make_copy)"
proof
  fix h v t v' h' assume r: "rep 0 h (TSlice T) v t" and c: "if_not_nil make_copy v h = (v', h')"
  from r show "extends h h' \<and> rep (lim h) h' (TSlice T) v' t"
  proof (cases rule: rep_sliceE)
    case nil
    with c show ?thesis by (auto simp: if_not_nil_def intro: rep_slice_nil)
  next
    case (ref a xs ts)
    have "list_all2 (rep (lim h) (snd (alloc (Arr xs) h)) T) xs ts"
      using ref(6) by (rule list.rel_mono_strong) (rule rep_flat [OF _ assms])
    with ref c show ?thesis
      by (auto simp: if_not_nil_def make_copy_def extends_def alloc_def intro!: rep_slice [of _ "lim h"])
  qed
qed

lemma copy_loop_deep:
  assumes "deep T f" and "list_all2 (rep 0 h0 T) xs ts" and "extends h0 h" and "lim h0 \<le> b" and "b < lim h"
    and "cells h b = Arr (ys @ replicate (length xs) NilRef)" and "list_all2 (rep (Suc b) h T) ys us"
  shows "\<exists>zs h'. copy_loop f b (length ys) xs h = h' \<and> extends h0 h' \<and> lim h \<le> lim h' \<and> cells h' b = Arr zs \<and>
    list_all2 (rep (Suc b) h' T) zs (us @ ts)"
  using assms(2-)
proof (induction xs arbitrary: ts h ys us)
  case Nil
  then show ?case by auto
next
  case (Cons x xs)
  from Cons.prems(1) obtain t ts' where ts: "ts = t # ts'" "rep 0 h0 T x t" "list_all2 (rep 0 h0 T) xs ts'"
    by (auto simp: list_all2_Cons1)
  from ts(2) Cons.prems(2) have "rep 0 h T x t" by (rule rep_extends) simp
  with assms(1) obtain x' h1 where f: "f x h = (x', h1)" "extends h h1" "rep (lim h) h1 T x' t"
    by (rule deepD)
  let ?h2 = "put b (Arr (ys @ x' # replicate (length xs) NilRef)) h1"
  have elem: "set_elem b (length ys) x' h1 = ?h2"
    using Cons.prems(4,5) f(2) by (simp add: set_elem_def extends_def)
  have "rep (Suc b) ?h2 T x' t"
    using f(3) Cons.prems(4) by (elim rep_frame) auto
  moreover have "list_all2 (rep (Suc b) ?h2 T) ys us"
    using Cons.prems(6) by (rule list.rel_mono_strong) (use f(2) in \<open>auto simp: extends_def elim!: rep_frame\<close>)
  ultimately have "list_all2 (rep (Suc b) ?h2 T) (ys @ [x']) (us @ [t])"
    by (simp add: list_all2_appendI)
  moreover have "extends h0 ?h2"
    using extends_trans [OF Cons.prems(2) f(2)] Cons.prems(3) by (auto simp: extends_def)
  moreover have "lim h \<le> lim ?h2" using f(2) by (simp add: extends_def)
  ultimately show ?case
    using Cons.IH [OF ts(3), of ?h2 "ys @ [x']" "us @ [t]"] Cons.prems(3,4) ts(1) elem f(1) by auto
qed

lemma deep_make_each:
  assumes "deep T f"
  shows "deep (TSlice T) (if_not_nil (make_each f))"
proof
  fix h v t v' h' assume r: "rep 0 h (TSlice T) v t" and c: "if_not_nil (make_each f) v h = (v', h')"
  from r show "extends h h' \<and> rep (lim h) h' (TSlice T) v' t"
  proof (cases rule: rep_sliceE)
    case nil
    with c show ?thesis by (auto simp: if_not_nil_def intro: rep_slice_nil)
  next
    case (ref a xs ts)
    let ?h1 = "snd (alloc (Arr (replicate (length xs) NilRef)) h)"
    from copy_loop_deep [OF assms ref(6), of ?h1 "lim h" "[]" "[]"] obtain zs h2 where
      l: "copy_loop f (lim h) 0 xs ?h1 = h2" "extends h h2" "lim ?h1 \<le> lim h2" "cells h2 (lim h) = Arr zs"
      "list_all2 (rep (Suc (lim h)) h2 T) zs ts" by auto
    have "list_all2 (rep (lim h) h2 T) zs ts"
      using l(5) by (rule list.rel_mono_strong) (auto elim: rep_extends)
    with ref c l show ?thesis
      by (auto simp: if_not_nil_def make_each_def alloc_def intro!: rep_slice [of _ "lim h"])
  qed
qed


text \<open>The loop over a map: \<open>m\<close> is the tree of the whole map, the keys of \<open>ys\<close> are copied, those of
  \<open>xs\<close> are left.\<close>

lemma map_loop_deep:
  assumes "deep T f" and "\<And>k v. (k, v) \<in> set xs \<Longrightarrow> \<exists>t. m k = Some t \<and> rep 0 h0 T v t"
    and "distinct (map fst xs)" and "extends h0 h" and "lim h0 \<le> b" and "b < lim h"
    and "cells h b = Dict ys" and "distinct (map fst ys)" and "set (map fst xs) \<inter> set (map fst ys) = {}"
    and "\<And>k v. map_of ys k = Some v \<Longrightarrow> \<exists>t. m k = Some t \<and> rep (Suc b) h T v t"
  shows "\<exists>zs h'. map_loop f b xs h = h' \<and> extends h0 h' \<and> lim h \<le> lim h' \<and> cells h' b = Dict zs \<and>
    distinct (map fst zs) \<and> set (map fst zs) = set (map fst xs) \<union> set (map fst ys) \<and>
    (\<forall>k v. map_of zs k = Some v \<longrightarrow> (\<exists>t. m k = Some t \<and> rep (Suc b) h' T v t))"
  using assms(2-)
proof (induction xs arbitrary: h ys)
  case Nil
  then show ?case by auto
next
  case (Cons kx xs)
  obtain k x where kx: "kx = (k, x)" by fastforce
  from Cons.prems(1) [of k x] kx obtain t where t: "m k = Some t" "rep 0 h0 T x t" by auto
  from t(2) Cons.prems(3) have "rep 0 h T x t" by (rule rep_extends) simp
  with assms(1) obtain x' h1 where f: "f x h = (x', h1)" "extends h h1" "rep (lim h) h1 T x' t"
    by (rule deepD)
  let ?ys = "AList.update k x' ys"
  let ?h2 = "put b (Dict ?ys) h1"
  have elem: "set_key b k x' h1 = ?h2"
    using Cons.prems(5,6) f(2) by (simp add: set_key_def extends_def)
  have ext: "extends h0 ?h2"
    using extends_trans [OF Cons.prems(3) f(2)] Cons.prems(4) by (auto simp: extends_def)
  have x': "rep (Suc b) ?h2 T x' t" using f(3) Cons.prems(5) by (elim rep_frame) auto
  have copied: "\<exists>t. m k' = Some t \<and> rep (Suc b) ?h2 T v t" if "map_of ?ys k' = Some v" for k' v
  proof (cases "k' = k")
    case True
    with that t(1) x' show ?thesis by (simp add: update_conv')
  next
    case False
    with that have "map_of ys k' = Some v" by (simp add: update_conv')
    with Cons.prems(9) obtain t' where "m k' = Some t'" "rep (Suc b) h T v t'" by blast
    then show ?thesis using f(2) by (auto simp: extends_def elim!: rep_frame)
  qed
  have keys: "set (map fst ?ys) = insert k (set (map fst ys))" "distinct (map fst ?ys)"
    using Cons.prems(7) by (auto simp: update_keys distinct_update)
  have "\<exists>zs h'. map_loop f b xs ?h2 = h' \<and> extends h0 h' \<and> lim ?h2 \<le> lim h' \<and> cells h' b = Dict zs \<and>
      distinct (map fst zs) \<and> set (map fst zs) = set (map fst xs) \<union> set (map fst ?ys) \<and>
      (\<forall>k v. map_of zs k = Some v \<longrightarrow> (\<exists>t. m k = Some t \<and> rep (Suc b) h' T v t))"
    by (rule Cons.IH) (use Cons.prems(1,2,4,5,8) kx ext keys f(2) copied in \<open>auto simp: extends_def\<close>)
  moreover have "lim h \<le> lim ?h2" using f(2) by (simp add: extends_def)
  ultimately show ?case using kx elem f(1) keys(1) by fastforce
qed

lemma deep_make_map:
  assumes "deep T f" and "\<And>xs. mset (rng xs) = mset xs"
  shows "deep (TMap T) (if_not_nil (make_map rng f))"
proof
  fix h v t v' h' assume r: "rep 0 h (TMap T) v t" and c: "if_not_nil (make_map rng f) v h = (v', h')"
  from r show "extends h h' \<and> rep (lim h) h' (TMap T) v' t"
  proof (cases rule: rep_mapE)
    case nil
    with c show ?thesis by (auto simp: if_not_nil_def intro: rep_map_nil)
  next
    case (ref a kvs m)
    let ?h1 = "snd (alloc (Dict []) h)"
    have same: "set (rng kvs) = set kvs" "mset (map fst (rng kvs)) = mset (map fst kvs)"
      using assms(2) [of kvs] by (auto dest: mset_eq_setD)
    then have dist: "distinct (map fst (rng kvs))" using ref(6) by (metis distinct_count_atmost_1 mset_eq_imp_distinct_iff)
    have entry: "\<exists>t. m k = Some t \<and> rep 0 h T x t" if "(k, x) \<in> set (rng kvs)" for k x
      using ref(7) [of k] that ref(6) by (simp add: same) (auto simp: option_rel_Some1)
    have "\<exists>zs h2. map_loop f (lim h) (rng kvs) ?h1 = h2 \<and> extends h h2 \<and> lim ?h1 \<le> lim h2 \<and> cells h2 (lim h) = Dict zs \<and>
        distinct (map fst zs) \<and> set (map fst zs) = set (map fst (rng kvs)) \<union> set (map fst ([] :: (string \<times> gval) list)) \<and>
        (\<forall>k v. map_of zs k = Some v \<longrightarrow> (\<exists>t. m k = Some t \<and> rep (Suc (lim h)) h2 T v t))"
      by (rule map_loop_deep [where m = m, OF assms(1) entry dist]) auto
    then obtain zs h2 where
      l: "map_loop f (lim h) (rng kvs) ?h1 = h2" "extends h h2" "lim ?h1 \<le> lim h2" "cells h2 (lim h) = Dict zs"
      "distinct (map fst zs)" "set (map fst zs) = set (map fst (rng kvs))"
      "\<forall>k v. map_of zs k = Some v \<longrightarrow> (\<exists>t. m k = Some t \<and> rep (Suc (lim h)) h2 T v t)"
      unfolding list.map list.set Un_empty_right by blast
    have "rel_option (rep (lim h) h2 T) (map_of zs k) (m k)" for k
    proof (cases "map_of zs k")
      case None
      then have "k \<notin> set (map fst kvs)" using l(6) same(1) by (simp add: map_of_eq_None_iff)
      then have "map_of kvs k = None" by (simp add: map_of_eq_None_iff)
      with ref(7) [of k] None show ?thesis by simp
    next
      case (Some x)
      with l(7) obtain t' where "m k = Some t'" "rep (Suc (lim h)) h2 T x t'" by blast
      with Some show ?thesis by (auto elim: rep_extends)
    qed
    with ref c l show ?thesis
      by (auto simp: if_not_nil_def make_map_def alloc_def intro!: rep_map [of _ "lim h"])
  qed
qed

section \<open>Structs\<close>

lemma rep_struct_iff:
  assumes "distinct (map fst fs)"
  shows "rep l h (TStruct fs) v t \<longleftrightarrow>
    (\<exists>vs ts. v = Struct vs \<and> t = TRec ts \<and> map fst vs = map fst fs \<and> map fst ts = map fst fs \<and>
      (\<forall>(n, T) \<in> set fs. rep l h T (field v n) (the (map_of ts n))))"
  using assms
proof (induction fs arbitrary: v t)
  case Nil
  then show ?case by auto
next
  case (Cons f fs)
  obtain n T where f: "f = (n, T)" by fastforce
  have cons: "rep l h (TStruct ((n, T) # fs)) v t \<longleftrightarrow>
      (\<exists>x vs y ts. v = Struct ((n, x) # vs) \<and> t = TRec ((n, y) # ts) \<and> rep l h T x y \<and>
         rep l h (TStruct fs) (Struct vs) (TRec ts))"
    by (auto elim: rep_structE intro: rep_struct_Cons)
  have other: "(\<forall>(n', T') \<in> set fs. rep l h T' (field (Struct ((n, x) # vs)) n') (the (map_of ((n, y) # ts) n'))) =
      (\<forall>(n', T') \<in> set fs. rep l h T' (field (Struct vs) n') (the (map_of ts n')))" for x vs y ts
    using Cons.prems f by (intro ball_cong refl) force
  have dist: "distinct (map fst fs)" using Cons.prems by simp
  show ?case
  proof
    assume "rep l h (TStruct (f # fs)) v t"
    then obtain x vs y ts where v: "v = Struct ((n, x) # vs)" "t = TRec ((n, y) # ts)" "rep l h T x y"
      and r: "rep l h (TStruct fs) (Struct vs) (TRec ts)" unfolding f cons by blast
    from r Cons.IH [OF dist] have s: "map fst vs = map fst fs" "map fst ts = map fst fs"
      "\<forall>(n', T') \<in> set fs. rep l h T' (field (Struct vs) n') (the (map_of ts n'))" by blast+
    from s(3) have "\<forall>(n', T') \<in> set fs. rep l h T' (field v n') (the (map_of ((n, y) # ts) n'))"
      unfolding v(1) other .
    with v s(1,2) show "\<exists>vs ts. v = Struct vs \<and> t = TRec ts \<and> map fst vs = map fst (f # fs) \<and>
        map fst ts = map fst (f # fs) \<and> (\<forall>(n, T) \<in> set (f # fs). rep l h T (field v n) (the (map_of ts n)))"
      by (intro exI [of _ "(n, x) # vs"] exI [of _ "(n, y) # ts"]) (simp add: f)
  next
    assume "\<exists>vs ts. v = Struct vs \<and> t = TRec ts \<and> map fst vs = map fst (f # fs) \<and>
        map fst ts = map fst (f # fs) \<and> (\<forall>(n, T) \<in> set (f # fs). rep l h T (field v n) (the (map_of ts n)))"
    then obtain x vs y ts where v: "v = Struct ((n, x) # vs)" "t = TRec ((n, y) # ts)"
      and s: "map fst vs = map fst fs" "map fst ts = map fst fs"
      and r: "rep l h T x y" "\<forall>(n', T') \<in> set fs. rep l h T' (field v n') (the (map_of ((n, y) # ts) n'))"
      by (auto simp: f map_eq_Cons_conv)
    from r(2) have "\<forall>(n', T') \<in> set fs. rep l h T' (field (Struct vs) n') (the (map_of ts n'))"
      unfolding v(1) other .
    with s Cons.IH [OF dist] have "rep l h (TStruct fs) (Struct vs) (TRec ts)" by blast
    with v r(1) show "rep l h (TStruct (f # fs)) v t" unfolding f cons by blast
  qed
qed

text \<open>The statements of a copy function fit the fields of the struct: every field is copied deeply
  by one statement or holds no reference.\<close>

definition statements_fit :: "(string \<times> ty) list \<Rightarrow> (string \<times> copier) list \<Rightarrow> bool" where
  "statements_fit fs stmts \<longleftrightarrow> distinct (map fst fs) \<and> distinct (map fst stmts) \<and>
     (\<forall>(n, f) \<in> set stmts. \<exists>T. (n, T) \<in> set fs \<and> deep T f) \<and>
     (\<forall>(n, T) \<in> set fs. n \<notin> fst ` set stmts \<longrightarrow> flat T)"

lemma set_field_simps:
  assumes "n \<in> set (map fst os)"
  shows "\<exists>os'. set_field n x (Struct os) = Struct os' \<and> map fst os' = map fst os"
    and "field (set_field n x (Struct os)) n' = (if n' = n then x else field (Struct os) n')"
  using assms by (auto simp: update_keys update_conv' simp del: set_map)

lemma into_loop:
  assumes "distinct (map fst fs)" and "\<And>n T. (n, T) \<in> set fs \<Longrightarrow> rep 0 h0 T (field inp n) (t n)"
    and "distinct (map fst stmts)" and "\<And>n f. (n, f) \<in> set stmts \<Longrightarrow> \<exists>T. (n, T) \<in> set fs \<and> deep T f"
    and "extends h0 h" and "map fst os = map fst fs" and "D \<inter> set (map fst stmts) = {}"
    and "\<And>n T. (n, T) \<in> set fs \<Longrightarrow> n \<in> D \<Longrightarrow> rep (lim h0) h T (field (Struct os) n) (t n)"
    and "\<And>n. n \<notin> D \<Longrightarrow> field (Struct os) n = field inp n"
  shows "\<exists>os' h'. fold (into_step inp) stmts (Struct os, h) = (Struct os', h') \<and> extends h0 h' \<and>
    map fst os' = map fst fs \<and>
    (\<forall>(n, T) \<in> set fs. n \<in> D \<union> set (map fst stmts) \<longrightarrow> rep (lim h0) h' T (field (Struct os') n) (t n)) \<and>
    (\<forall>n. n \<notin> D \<union> set (map fst stmts) \<longrightarrow> field (Struct os') n = field inp n)"
  using assms(3-)
proof (induction stmts arbitrary: os h D)
  case Nil
  then show ?case by fastforce
next
  case (Cons u stmts)
  obtain n f where u: "u = (n, f)" by fastforce
  with Cons.prems(2) obtain T where T: "(n, T) \<in> set fs" "deep T f" by auto
  have "rep 0 h T (field inp n) (t n)" using assms(2) [OF T(1)] Cons.prems(3) by (rule rep_extends) simp
  with T(2) obtain x h1 where f: "f (field inp n) h = (x, h1)" "extends h h1" "rep (lim h) h1 T x (t n)"
    by (rule deepD)
  have n: "n \<in> set (map fst os)" using T(1) Cons.prems(4) by force
  obtain os1 where os1: "set_field n x (Struct os) = Struct os1" "map fst os1 = map fst os"
    using set_field_simps(1) [OF n] by blast
  have fld: "field (Struct os1) n' = (if n' = n then x else field (Struct os) n')" for n'
    using set_field_simps(2) [OF n, of x n'] os1(1) by simp
  have "T' = T" if "(n, T') \<in> set fs" for T' using that T(1) assms(1) by (metis eq_key_imp_eq_value)
  moreover have "lim h0 \<le> lim h" using Cons.prems(3) by (simp add: extends_def)
  ultimately have rep1: "rep (lim h0) h1 T' (field (Struct os1) n') (t n')"
    if "(n', T') \<in> set fs" "n' \<in> insert n D" for n' T'
    using that f(2,3) Cons.prems(6) [of n' T'] by (auto simp: fld simp del: field.simps elim: rep_frame rep_extends)
  have "\<exists>os' h'. fold (into_step inp) stmts (Struct os1, h1) = (Struct os', h') \<and> extends h0 h' \<and>
      map fst os' = map fst fs \<and>
      (\<forall>(n', T) \<in> set fs. n' \<in> insert n D \<union> set (map fst stmts) \<longrightarrow> rep (lim h0) h' T (field (Struct os') n') (t n')) \<and>
      (\<forall>n'. n' \<notin> insert n D \<union> set (map fst stmts) \<longrightarrow> field (Struct os') n' = field inp n')"
    by (rule Cons.IH)
       (use Cons.prems(1,2,5,7) extends_trans [OF Cons.prems(3) f(2)] Cons.prems(4) os1(2) rep1 u fld in \<open>auto simp del: field.simps split: if_splits\<close>)
  then show ?case using u f(1) os1(1) by (simp add: into_step_def)
qed

lemma deep_into:
  assumes "statements_fit fs stmts"
  shows "deep (TStruct fs) (into stmts)"
proof
  fix h v t v' h' assume r: "rep 0 h (TStruct fs) v t" and c: "into stmts v h = (v', h')"
  have d: "distinct (map fst fs)" using assms by (simp add: statements_fit_def)
  from r obtain vs ts where v: "v = Struct vs" "t = TRec ts" "map fst vs = map fst fs" "map fst ts = map fst fs"
    and fld: "\<And>n T. (n, T) \<in> set fs \<Longrightarrow> rep 0 h T (field v n) (the (map_of ts n))"
    unfolding rep_struct_iff [OF d] by blast
  have "\<exists>os' h''. fold (into_step v) stmts (Struct vs, h) = (Struct os', h'') \<and> extends h h'' \<and>
      map fst os' = map fst fs \<and>
      (\<forall>(n, T) \<in> set fs. n \<in> {} \<union> set (map fst stmts) \<longrightarrow> rep (lim h) h'' T (field (Struct os') n) (the (map_of ts n))) \<and>
      (\<forall>n. n \<notin> {} \<union> set (map fst stmts) \<longrightarrow> field (Struct os') n = field v n)"
    by (rule into_loop [OF d fld]) (use assms v in \<open>auto simp: statements_fit_def\<close>)
  then obtain os' where o: "v' = Struct os'" "extends h h'" "map fst os' = map fst fs"
    "\<And>n T. (n, T) \<in> set fs \<Longrightarrow> n \<in> fst ` set stmts \<Longrightarrow> rep (lim h) h' T (field (Struct os') n) (the (map_of ts n))"
    "\<And>n. n \<notin> fst ` set stmts \<Longrightarrow> field (Struct os') n = field v n"
    using c by (fastforce simp: into_def v(1) simp del: field.simps)
  have "rep (lim h) h' T (field (Struct os') n) (the (map_of ts n))" if "(n, T) \<in> set fs" for n T
  proof (cases "n \<in> fst ` set stmts")
    case True
    with that o(4) show ?thesis by blast
  next
    case False
    with that assms have "flat T" by (auto simp: statements_fit_def)
    with fld [OF that] o(5) [OF False] show ?thesis by (auto intro: rep_flat)
  qed
  with o v show "extends h h' \<and> rep (lim h) h' (TStruct fs) v' t"
    unfolding rep_struct_iff [OF d] by blast
qed


text \<open>\<^verbatim>\<open>*val.DeepCopy()\<close>: the copy is made in a new cell and read from it.\<close>

definition deref_new :: "copier \<Rightarrow> copier" where
  "deref_new f v h =
     (case alloc (Obj v) h of (b, h1) \<Rightarrow> case f v h1 of (x, h2) \<Rightarrow> (x, put b (Obj x) h2))"

lemma deep_deref_new:
  assumes "deep T f"
  shows "deep T (deref_new f)"
proof
  fix h v t v' h' assume r: "rep 0 h T v t" and c: "deref_new f v h = (v', h')"
  let ?h1 = "snd (alloc (Obj v) h)"
  from r have "rep 0 ?h1 T v t" by (auto elim: rep_extends)
  with assms obtain x h2 where f: "f v ?h1 = (x, h2)" "extends ?h1 h2" "rep (lim ?h1) h2 T x t"
    by (rule deepD)
  have "rep (lim h) (put (lim h) (Obj x) h2) T x t" using f(3) by (rule rep_frame) auto
  with c f show "extends h h' \<and> rep (lim h) h' T v' t"
    by (auto simp: deref_new_def extends_def alloc_def)
qed

end
