(* ===== verification/Deep_Copy.thy ===== *)
theory Deep_Copy
  imports Go_Heap
begin

text \<open>
  The copy functions that are generated for the types of \<^verbatim>\<open>api/v1\<close>
  (\<^verbatim>\<open>api/v1/zz_generated.deepcopy.go\<close>) and those of \<^verbatim>\<open>GuttedObject\<close> in
  \<^verbatim>\<open>controllers/common/common.go\<close>, over the memory of \<open>Go_Heap\<close>. For every struct there is its
  type, with the fields of the declaration, its \<^verbatim>\<open>DeepCopyInto\<close>, statement by statement, its
  \<^verbatim>\<open>DeepCopy\<close> and, for the root objects, \<^verbatim>\<open>DeepCopyObject\<close>; each copy is deep.
\<close>

named_theorems deep_intros

text \<open>
  The copy functions of the API machinery are not part of the repository: their types and functions
  are parameters, with the order in which a map is iterated. What is relied on is that they are deep
  and that an iteration visits every entry once.
\<close>

record foreign =
  ty_ObjectMeta :: ty
  copy_ObjectMeta :: copier
  ty_ListMeta :: ty
  copy_ListMeta :: copier
  ty_Time :: ty
  copy_Time :: copier
  ty_RawExtension :: ty
  copy_RawExtension :: copier
  range_order :: "(string \<times> gval) list \<Rightarrow> (string \<times> gval) list"

definition foreign_ok :: "foreign \<Rightarrow> bool" where
  "foreign_ok E \<longleftrightarrow>
     deep (ty_ObjectMeta E) (copy_ObjectMeta E) \<and> deep (ty_ListMeta E) (copy_ListMeta E) \<and>
     deep (ty_Time E) (copy_Time E) \<and> deep (ty_RawExtension E) (copy_RawExtension E) \<and>
     (\<forall>xs. mset (range_order E xs) = mset xs)"

lemma foreign_okD [deep_intros]:
  "foreign_ok E \<Longrightarrow> deep (ty_ObjectMeta E) (copy_ObjectMeta E)"
  "foreign_ok E \<Longrightarrow> deep (ty_ListMeta E) (copy_ListMeta E)"
  "foreign_ok E \<Longrightarrow> deep (ty_Time E) (copy_Time E)"
  "foreign_ok E \<Longrightarrow> deep (ty_RawExtension E) (copy_RawExtension E)"
  by (simp_all add: foreign_ok_def)

lemma range_order_mset [deep_intros]: "foreign_ok E \<Longrightarrow> mset (range_order E xs) = mset xs"
  by (simp add: foreign_ok_def)

lemma flat_base [deep_intros]: "flat (TBase b)"
  by simp

declare deep_assign [deep_intros] deep_new_copy [deep_intros] deep_make_copy [deep_intros]
  deep_make_each [deep_intros] deep_make_map [deep_intros] deep_deref_new [deep_intros]

definition ty_TypeMeta :: ty where
  "ty_TypeMeta = TStruct [(''Kind'', TBase BString), (''APIVersion'', TBase BString)]"

lemma flat_TypeMeta [deep_intros]: "flat ty_TypeMeta"
  by (simp add: ty_TypeMeta_def)

section \<open>PolicyDependency\<close>

definition ty_PolicyDependency :: ty where
  "ty_PolicyDependency = TStruct
     [(''TypeMeta'', ty_TypeMeta),
      (''Name'', TBase BString),
      (''Namespace'', TBase BString),
      (''Compliance'', TBase BString)]"

definition PolicyDependency_DeepCopyInto :: copier where
  "PolicyDependency_DeepCopyInto = into
     [(''TypeMeta'', assign)]"

definition PolicyDependency_DeepCopy :: copier where
  "PolicyDependency_DeepCopy = if_not_nil (new_copy PolicyDependency_DeepCopyInto)"

lemma flat_PolicyDependency [deep_intros]: "flat ty_PolicyDependency"
  by (simp add: ty_PolicyDependency_def flat_TypeMeta)

lemma deep_PolicyDependency [deep_intros]:
  "deep ty_PolicyDependency PolicyDependency_DeepCopyInto"
  unfolding ty_PolicyDependency_def PolicyDependency_DeepCopyInto_def
  by (rule deep_into) (auto simp: statements_fit_def intro: deep_intros)

section \<open>PolicyTemplate\<close>

definition ty_PolicyTemplate :: "foreign \<Rightarrow> ty" where
  "ty_PolicyTemplate E = TStruct
     [(''ObjectDefinition'', ty_RawExtension E),
      (''ExtraDependencies'', TSlice ty_PolicyDependency),
      (''IgnorePending'', TBase BBool)]"

definition PolicyTemplate_DeepCopyInto :: "foreign \<Rightarrow> copier" where
  "PolicyTemplate_DeepCopyInto E = into
     [(''ObjectDefinition'', copy_RawExtension E),
      (''ExtraDependencies'', if_not_nil make_copy)]"

definition PolicyTemplate_DeepCopy :: "foreign \<Rightarrow> copier" where
  "PolicyTemplate_DeepCopy E = if_not_nil (new_copy (PolicyTemplate_DeepCopyInto E))"

lemma deep_PolicyTemplate [deep_intros]:
  "foreign_ok E \<Longrightarrow> deep (ty_PolicyTemplate E) (PolicyTemplate_DeepCopyInto E)"
  unfolding ty_PolicyTemplate_def PolicyTemplate_DeepCopyInto_def
  by (rule deep_into) (auto simp: statements_fit_def intro: deep_intros)

section \<open>HubTemplateOptions\<close>

definition ty_HubTemplateOptions :: ty where
  "ty_HubTemplateOptions = TStruct
     [(''ServiceAccountName'', TBase BString)]"

definition HubTemplateOptions_DeepCopyInto :: copier where
  "HubTemplateOptions_DeepCopyInto = into []"

definition HubTemplateOptions_DeepCopy :: copier where
  "HubTemplateOptions_DeepCopy = if_not_nil (new_copy HubTemplateOptions_DeepCopyInto)"

lemma flat_HubTemplateOptions [deep_intros]: "flat ty_HubTemplateOptions"
  by (simp add: ty_HubTemplateOptions_def)

lemma deep_HubTemplateOptions [deep_intros]:
  "deep ty_HubTemplateOptions HubTemplateOptions_DeepCopyInto"
  unfolding ty_HubTemplateOptions_def HubTemplateOptions_DeepCopyInto_def
  by (rule deep_into) (auto simp: statements_fit_def intro: deep_intros)

section \<open>PolicySpec\<close>

definition ty_PolicySpec :: "foreign \<Rightarrow> ty" where
  "ty_PolicySpec E = TStruct
     [(''Disabled'', TBase BBool),
      (''CopyPolicyMetadata'', TPtr (TBase BBool)),
      (''RemediationAction'', TBase BString),
      (''PolicyTemplates'', TSlice (TPtr (ty_PolicyTemplate E))),
      (''Dependencies'', TSlice ty_PolicyDependency),
      (''HubTemplateOptions'', TPtr ty_HubTemplateOptions)]"

definition PolicySpec_DeepCopyInto :: "foreign \<Rightarrow> copier" where
  "PolicySpec_DeepCopyInto E = into
     [(''CopyPolicyMetadata'', if_not_nil (new_copy assign)),
      (''PolicyTemplates'', if_not_nil (make_each (if_not_nil (new_copy (PolicyTemplate_DeepCopyInto E))))),
      (''Dependencies'', if_not_nil make_copy),
      (''HubTemplateOptions'', if_not_nil (new_copy assign))]"

definition PolicySpec_DeepCopy :: "foreign \<Rightarrow> copier" where
  "PolicySpec_DeepCopy E = if_not_nil (new_copy (PolicySpec_DeepCopyInto E))"

lemma deep_PolicySpec [deep_intros]:
  "foreign_ok E \<Longrightarrow> deep (ty_PolicySpec E) (PolicySpec_DeepCopyInto E)"
  unfolding ty_PolicySpec_def PolicySpec_DeepCopyInto_def
  by (rule deep_into) (auto simp: statements_fit_def intro: deep_intros)

section \<open>PlacementDecision\<close>

definition ty_PlacementDecision :: ty where
  "ty_PlacementDecision = TStruct
     [(''ClusterName'', TBase BString),
      (''ClusterNamespace'', TBase BString)]"

definition PlacementDecision_DeepCopyInto :: copier where
  "PlacementDecision_DeepCopyInto = into []"

definition PlacementDecision_DeepCopy :: copier where
  "PlacementDecision_DeepCopy = if_not_nil (new_copy PlacementDecision_DeepCopyInto)"

lemma flat_PlacementDecision [deep_intros]: "flat ty_PlacementDecision"
  by (simp add: ty_PlacementDecision_def)

lemma deep_PlacementDecision [deep_intros]:
  "deep ty_PlacementDecision PlacementDecision_DeepCopyInto"
  unfolding ty_PlacementDecision_def PlacementDecision_DeepCopyInto_def
  by (rule deep_into) (auto simp: statements_fit_def intro: deep_intros)

section \<open>PolicyExclusion\<close>

definition ty_PolicyExclusion :: ty where
  "ty_PolicyExclusion = TStruct
     [(''ClusterName'', TBase BString)]"

definition PolicyExclusion_DeepCopyInto :: copier where
  "PolicyExclusion_DeepCopyInto = into []"

definition PolicyExclusion_DeepCopy :: copier where
  "PolicyExclusion_DeepCopy = if_not_nil (new_copy PolicyExclusion_DeepCopyInto)"

lemma flat_PolicyExclusion [deep_intros]: "flat ty_PolicyExclusion"
  by (simp add: ty_PolicyExclusion_def)

lemma deep_PolicyExclusion [deep_intros]:
  "deep ty_PolicyExclusion PolicyExclusion_DeepCopyInto"
  unfolding ty_PolicyExclusion_def PolicyExclusion_DeepCopyInto_def
  by (rule deep_into) (auto simp: statements_fit_def intro: deep_intros)

section \<open>Placement\<close>

definition ty_Placement :: ty where
  "ty_Placement = TStruct
     [(''PlacementBinding'', TBase BString),
      (''PlacementRule'', TBase BString),
      (''Placement'', TBase BString),
      (''Decisions'', TSlice ty_PlacementDecision),
      (''PolicySet'', TBase BString),
      (''Exclusions'', TSlice ty_PolicyExclusion)]"

definition Placement_DeepCopyInto :: copier where
  "Placement_DeepCopyInto = into
     [(''Decisions'', if_not_nil make_copy),
      (''Exclusions'', if_not_nil make_copy)]"

definition Placement_DeepCopy :: copier where
  "Placement_DeepCopy = if_not_nil (new_copy Placement_DeepCopyInto)"

lemma deep_Placement [deep_intros]:
  "deep ty_Placement Placement_DeepCopyInto"
  unfolding ty_Placement_def Placement_DeepCopyInto_def
  by (rule deep_into) (auto simp: statements_fit_def intro: deep_intros)

section \<open>RemainingBinding\<close>

definition ty_RemainingBinding :: ty where
  "ty_RemainingBinding = TStruct
     [(''PlacementBinding'', TBase BString)]"

definition RemainingBinding_DeepCopyInto :: copier where
  "RemainingBinding_DeepCopyInto = into []"

definition RemainingBinding_DeepCopy :: copier where
  "RemainingBinding_DeepCopy = if_not_nil (new_copy RemainingBinding_DeepCopyInto)"

lemma flat_RemainingBinding [deep_intros]: "flat ty_RemainingBinding"
  by (simp add: ty_RemainingBinding_def)

lemma deep_RemainingBinding [deep_intros]:
  "deep ty_RemainingBinding RemainingBinding_DeepCopyInto"
  unfolding ty_RemainingBinding_def RemainingBinding_DeepCopyInto_def
  by (rule deep_into) (auto simp: statements_fit_def intro: deep_intros)

section \<open>CompliancePerClusterStatus\<close>

definition ty_CompliancePerClusterStatus :: ty where
  "ty_CompliancePerClusterStatus = TStruct
     [(''ComplianceState'', TBase BString),
      (''ClusterName'', TBase BString),
      (''ClusterNamespace'', TBase BString),
      (''RemainingBindings'', TSlice ty_RemainingBinding)]"

definition CompliancePerClusterStatus_DeepCopyInto :: copier where
  "CompliancePerClusterStatus_DeepCopyInto = into
     [(''RemainingBindings'', if_not_nil make_copy)]"

definition CompliancePerClusterStatus_DeepCopy :: copier where
  "CompliancePerClusterStatus_DeepCopy = if_not_nil (new_copy CompliancePerClusterStatus_DeepCopyInto)"

lemma deep_CompliancePerClusterStatus [deep_intros]:
  "deep ty_CompliancePerClusterStatus CompliancePerClusterStatus_DeepCopyInto"
  unfolding ty_CompliancePerClusterStatus_def CompliancePerClusterStatus_DeepCopyInto_def
  by (rule deep_into) (auto simp: statements_fit_def intro: deep_intros)

section \<open>ComplianceHistory\<close>

definition ty_ComplianceHistory :: "foreign \<Rightarrow> ty" where
  "ty_ComplianceHistory E = TStruct
     [(''LastTimestamp'', ty_Time E),
      (''Message'', TBase BString),
      (''EventName'', TBase BString)]"

definition ComplianceHistory_DeepCopyInto :: "foreign \<Rightarrow> copier" where
  "ComplianceHistory_DeepCopyInto E = into
     [(''LastTimestamp'', copy_Time E)]"

definition ComplianceHistory_DeepCopy :: "foreign \<Rightarrow> copier" where
  "ComplianceHistory_DeepCopy E = if_not_nil (new_copy (ComplianceHistory_DeepCopyInto E))"

lemma deep_ComplianceHistory [deep_intros]:
  "foreign_ok E \<Longrightarrow> deep (ty_ComplianceHistory E) (ComplianceHistory_DeepCopyInto E)"
  unfolding ty_ComplianceHistory_def ComplianceHistory_DeepCopyInto_def
  by (rule deep_into) (auto simp: statements_fit_def intro: deep_intros)

section \<open>DetailsPerTemplate\<close>

definition ty_DetailsPerTemplate :: "foreign \<Rightarrow> ty" where
  "ty_DetailsPerTemplate E = TStruct
     [(''TemplateMeta'', ty_ObjectMeta E),
      (''ComplianceState'', TBase BString),
      (''History'', TSlice (ty_ComplianceHistory E))]"

definition DetailsPerTemplate_DeepCopyInto :: "foreign \<Rightarrow> copier" where
  "DetailsPerTemplate_DeepCopyInto E = into
     [(''TemplateMeta'', copy_ObjectMeta E),
      (''History'', if_not_nil (make_each (ComplianceHistory_DeepCopyInto E)))]"

definition DetailsPerTemplate_DeepCopy :: "foreign \<Rightarrow> copier" where
  "DetailsPerTemplate_DeepCopy E = if_not_nil (new_copy (DetailsPerTemplate_DeepCopyInto E))"

lemma deep_DetailsPerTemplate [deep_intros]:
  "foreign_ok E \<Longrightarrow> deep (ty_DetailsPerTemplate E) (DetailsPerTemplate_DeepCopyInto E)"
  unfolding ty_DetailsPerTemplate_def DetailsPerTemplate_DeepCopyInto_def
  by (rule deep_into) (auto simp: statements_fit_def intro: deep_intros)

section \<open>PolicyStatus\<close>

definition ty_PolicyStatus :: "foreign \<Rightarrow> ty" where
  "ty_PolicyStatus E = TStruct
     [(''Placement'', TSlice (TPtr ty_Placement)),
      (''Status'', TSlice (TPtr ty_CompliancePerClusterStatus)),
      (''ComplianceState'', TBase BString),
      (''Details'', TSlice (TPtr (ty_DetailsPerTemplate E)))]"

definition PolicyStatus_DeepCopyInto :: "foreign \<Rightarrow> copier" where
  "PolicyStatus_DeepCopyInto E = into
     [(''Placement'', if_not_nil (make_each (if_not_nil (new_copy Placement_DeepCopyInto)))),
      (''Status'', if_not_nil (make_each (if_not_nil (new_copy CompliancePerClusterStatus_DeepCopyInto)))),
      (''Details'', if_not_nil (make_each (if_not_nil (new_copy (DetailsPerTemplate_DeepCopyInto E)))))]"

definition PolicyStatus_DeepCopy :: "foreign \<Rightarrow> copier" where
  "PolicyStatus_DeepCopy E = if_not_nil (new_copy (PolicyStatus_DeepCopyInto E))"

lemma deep_PolicyStatus [deep_intros]:
  "foreign_ok E \<Longrightarrow> deep (ty_PolicyStatus E) (PolicyStatus_DeepCopyInto E)"
  unfolding ty_PolicyStatus_def PolicyStatus_DeepCopyInto_def
  by (rule deep_into) (auto simp: statements_fit_def intro: deep_intros)

section \<open>Policy\<close>

definition ty_Policy :: "foreign \<Rightarrow> ty" where
  "ty_Policy E = TStruct
     [(''TypeMeta'', ty_TypeMeta),
      (''ObjectMeta'', ty_ObjectMeta E),
      (''Spec'', ty_PolicySpec E),
      (''Status'', ty_PolicyStatus E)]"

definition Policy_DeepCopyInto :: "foreign \<Rightarrow> copier" where
  "Policy_DeepCopyInto E = into
     [(''TypeMeta'', assign),
      (''ObjectMeta'', copy_ObjectMeta E),
      (''Spec'', PolicySpec_DeepCopyInto E),
      (''Status'', PolicyStatus_DeepCopyInto E)]"

definition Policy_DeepCopy :: "foreign \<Rightarrow> copier" where
  "Policy_DeepCopy E = if_not_nil (new_copy (Policy_DeepCopyInto E))"

definition Policy_DeepCopyObject :: "foreign \<Rightarrow> copier" where
  "Policy_DeepCopyObject E v h =
     (case Policy_DeepCopy E v h of (c, h') \<Rightarrow> if c \<noteq> NilRef then (c, h') else (NilRef, h'))"

lemma deep_Policy [deep_intros]:
  "foreign_ok E \<Longrightarrow> deep (ty_Policy E) (Policy_DeepCopyInto E)"
  unfolding ty_Policy_def Policy_DeepCopyInto_def
  by (rule deep_into) (auto simp: statements_fit_def intro: deep_intros)

section \<open>PolicyList\<close>

definition ty_PolicyList :: "foreign \<Rightarrow> ty" where
  "ty_PolicyList E = TStruct
     [(''TypeMeta'', ty_TypeMeta),
      (''ListMeta'', ty_ListMeta E),
      (''Items'', TSlice (ty_Policy E))]"

definition PolicyList_DeepCopyInto :: "foreign \<Rightarrow> copier" where
  "PolicyList_DeepCopyInto E = into
     [(''TypeMeta'', assign),
      (''ListMeta'', copy_ListMeta E),
      (''Items'', if_not_nil (make_each (Policy_DeepCopyInto E)))]"

definition PolicyList_DeepCopy :: "foreign \<Rightarrow> copier" where
  "PolicyList_DeepCopy E = if_not_nil (new_copy (PolicyList_DeepCopyInto E))"

definition PolicyList_DeepCopyObject :: "foreign \<Rightarrow> copier" where
  "PolicyList_DeepCopyObject E v h =
     (case PolicyList_DeepCopy E v h of (c, h') \<Rightarrow> if c \<noteq> NilRef then (c, h') else (NilRef, h'))"

lemma deep_PolicyList [deep_intros]:
  "foreign_ok E \<Longrightarrow> deep (ty_PolicyList E) (PolicyList_DeepCopyInto E)"
  unfolding ty_PolicyList_def PolicyList_DeepCopyInto_def
  by (rule deep_into) (auto simp: statements_fit_def intro: deep_intros)

section \<open>Subject\<close>

definition ty_Subject :: ty where
  "ty_Subject = TStruct
     [(''APIGroup'', TBase BString),
      (''Kind'', TBase BString),
      (''Name'', TBase BString)]"

definition Subject_DeepCopyInto :: copier where
  "Subject_DeepCopyInto = into []"

definition Subject_DeepCopy :: copier where
  "Subject_DeepCopy = if_not_nil (new_copy Subject_DeepCopyInto)"

lemma flat_Subject [deep_intros]: "flat ty_Subject"
  by (simp add: ty_Subject_def)

lemma deep_Subject [deep_intros]:
  "deep ty_Subject Subject_DeepCopyInto"
  unfolding ty_Subject_def Subject_DeepCopyInto_def
  by (rule deep_into) (auto simp: statements_fit_def intro: deep_intros)

section \<open>PlacementSubject\<close>

definition ty_PlacementSubject :: ty where
  "ty_PlacementSubject = TStruct
     [(''APIGroup'', TBase BString),
      (''Kind'', TBase BString),
      (''Name'', TBase BString)]"

definition PlacementSubject_DeepCopyInto :: copier where
  "PlacementSubject_DeepCopyInto = into []"

definition PlacementSubject_DeepCopy :: copier where
  "PlacementSubject_DeepCopy = if_not_nil (new_copy PlacementSubject_DeepCopyInto)"

lemma flat_PlacementSubject [deep_intros]: "flat ty_PlacementSubject"
  by (simp add: ty_PlacementSubject_def)

lemma deep_PlacementSubject [deep_intros]:
  "deep ty_PlacementSubject PlacementSubject_DeepCopyInto"
  unfolding ty_PlacementSubject_def PlacementSubject_DeepCopyInto_def
  by (rule deep_into) (auto simp: statements_fit_def intro: deep_intros)

section \<open>BindingOverrides\<close>

definition ty_BindingOverrides :: ty where
  "ty_BindingOverrides = TStruct
     [(''RemediationAction'', TBase BString)]"

definition BindingOverrides_DeepCopyInto :: copier where
  "BindingOverrides_DeepCopyInto = into []"

definition BindingOverrides_DeepCopy :: copier where
  "BindingOverrides_DeepCopy = if_not_nil (new_copy BindingOverrides_DeepCopyInto)"

lemma flat_BindingOverrides [deep_intros]: "flat ty_BindingOverrides"
  by (simp add: ty_BindingOverrides_def)

lemma deep_BindingOverrides [deep_intros]:
  "deep ty_BindingOverrides BindingOverrides_DeepCopyInto"
  unfolding ty_BindingOverrides_def BindingOverrides_DeepCopyInto_def
  by (rule deep_into) (auto simp: statements_fit_def intro: deep_intros)

section \<open>PlacementBindingStatus\<close>

definition ty_PlacementBindingStatus :: ty where
  "ty_PlacementBindingStatus = TStruct
     []"

definition PlacementBindingStatus_DeepCopyInto :: copier where
  "PlacementBindingStatus_DeepCopyInto = into []"

definition PlacementBindingStatus_DeepCopy :: copier where
  "PlacementBindingStatus_DeepCopy = if_not_nil (new_copy PlacementBindingStatus_DeepCopyInto)"

lemma flat_PlacementBindingStatus [deep_intros]: "flat ty_PlacementBindingStatus"
  by (simp add: ty_PlacementBindingStatus_def)

lemma deep_PlacementBindingStatus [deep_intros]:
  "deep ty_PlacementBindingStatus PlacementBindingStatus_DeepCopyInto"
  unfolding ty_PlacementBindingStatus_def PlacementBindingStatus_DeepCopyInto_def
  by (rule deep_into) (auto simp: statements_fit_def intro: deep_intros)

section \<open>PlacementBinding\<close>

definition ty_PlacementBinding :: "foreign \<Rightarrow> ty" where
  "ty_PlacementBinding E = TStruct
     [(''TypeMeta'', ty_TypeMeta),
      (''ObjectMeta'', ty_ObjectMeta E),
      (''PlacementRef'', ty_PlacementSubject),
      (''Subjects'', TSlice ty_Subject),
      (''BindingOverrides'', ty_BindingOverrides),
      (''SubFilter'', TBase BString),
      (''Status'', ty_PlacementBindingStatus)]"

definition PlacementBinding_DeepCopyInto :: "foreign \<Rightarrow> copier" where
  "PlacementBinding_DeepCopyInto E = into
     [(''TypeMeta'', assign),
      (''ObjectMeta'', copy_ObjectMeta E),
      (''PlacementRef'', assign),
      (''Subjects'', if_not_nil make_copy),
      (''BindingOverrides'', assign),
      (''Status'', assign)]"

definition PlacementBinding_DeepCopy :: "foreign \<Rightarrow> copier" where
  "PlacementBinding_DeepCopy E = if_not_nil (new_copy (PlacementBinding_DeepCopyInto E))"

definition PlacementBinding_DeepCopyObject :: "foreign \<Rightarrow> copier" where
  "PlacementBinding_DeepCopyObject E v h =
     (case PlacementBinding_DeepCopy E v h of (c, h') \<Rightarrow> if c \<noteq> NilRef then (c, h') else (NilRef, h'))"

lemma deep_PlacementBinding [deep_intros]:
  "foreign_ok E \<Longrightarrow> deep (ty_PlacementBinding E) (PlacementBinding_DeepCopyInto E)"
  unfolding ty_PlacementBinding_def PlacementBinding_DeepCopyInto_def
  by (rule deep_into) (auto simp: statements_fit_def intro: deep_intros)

section \<open>PlacementBindingList\<close>

definition ty_PlacementBindingList :: "foreign \<Rightarrow> ty" where
  "ty_PlacementBindingList E = TStruct
     [(''TypeMeta'', ty_TypeMeta),
      (''ListMeta'', ty_ListMeta E),
      (''Items'', TSlice (ty_PlacementBinding E))]"

definition PlacementBindingList_DeepCopyInto :: "foreign \<Rightarrow> copier" where
  "PlacementBindingList_DeepCopyInto E = into
     [(''TypeMeta'', assign),
      (''ListMeta'', copy_ListMeta E),
      (''Items'', if_not_nil (make_each (PlacementBinding_DeepCopyInto E)))]"

definition PlacementBindingList_DeepCopy :: "foreign \<Rightarrow> copier" where
  "PlacementBindingList_DeepCopy E = if_not_nil (new_copy (PlacementBindingList_DeepCopyInto E))"

definition PlacementBindingList_DeepCopyObject :: "foreign \<Rightarrow> copier" where
  "PlacementBindingList_DeepCopyObject E v h =
     (case PlacementBindingList_DeepCopy E v h of (c, h') \<Rightarrow> if c \<noteq> NilRef then (c, h') else (NilRef, h'))"

lemma deep_PlacementBindingList [deep_intros]:
  "foreign_ok E \<Longrightarrow> deep (ty_PlacementBindingList E) (PlacementBindingList_DeepCopyInto E)"
  unfolding ty_PlacementBindingList_def PlacementBindingList_DeepCopyInto_def
  by (rule deep_into) (auto simp: statements_fit_def intro: deep_intros)

section \<open>GuttedObject\<close>

definition ty_GuttedObject :: "foreign \<Rightarrow> ty" where
  "ty_GuttedObject E = TStruct
     [(''TypeMeta'', ty_TypeMeta),
      (''ObjectMeta'', ty_ObjectMeta E)]"

definition GuttedObject_DeepCopyInto :: "foreign \<Rightarrow> copier" where
  "GuttedObject_DeepCopyInto E = into
     [(''TypeMeta'', assign),
      (''ObjectMeta'', copy_ObjectMeta E)]"

definition GuttedObject_DeepCopy :: "foreign \<Rightarrow> copier" where
  "GuttedObject_DeepCopy E = if_not_nil (new_copy (GuttedObject_DeepCopyInto E))"

definition GuttedObject_DeepCopyObject :: "foreign \<Rightarrow> copier" where
  "GuttedObject_DeepCopyObject E = GuttedObject_DeepCopy E"

lemma deep_GuttedObject [deep_intros]:
  "foreign_ok E \<Longrightarrow> deep (ty_GuttedObject E) (GuttedObject_DeepCopyInto E)"
  unfolding ty_GuttedObject_def GuttedObject_DeepCopyInto_def
  by (rule deep_into) (auto simp: statements_fit_def intro: deep_intros)

section \<open>All copies\<close>

lemmas v1_copy_defs =
  PolicyDependency_DeepCopy_def
  PolicyTemplate_DeepCopy_def
  HubTemplateOptions_DeepCopy_def
  PolicySpec_DeepCopy_def
  PlacementDecision_DeepCopy_def
  PolicyExclusion_DeepCopy_def
  Placement_DeepCopy_def
  RemainingBinding_DeepCopy_def
  CompliancePerClusterStatus_DeepCopy_def
  ComplianceHistory_DeepCopy_def
  DetailsPerTemplate_DeepCopy_def
  PolicyStatus_DeepCopy_def
  Policy_DeepCopy_def
  Policy_DeepCopyObject_def
  PolicyList_DeepCopy_def
  PolicyList_DeepCopyObject_def
  Subject_DeepCopy_def
  PlacementSubject_DeepCopy_def
  BindingOverrides_DeepCopy_def
  PlacementBindingStatus_DeepCopy_def
  PlacementBinding_DeepCopy_def
  PlacementBinding_DeepCopyObject_def
  PlacementBindingList_DeepCopy_def
  PlacementBindingList_DeepCopyObject_def
  GuttedObject_DeepCopy_def
  GuttedObject_DeepCopyObject_def

definition v1_copies :: "foreign \<Rightarrow> (ty \<times> copier) list" where
  "v1_copies E =
     [(TPtr ty_PolicyDependency, PolicyDependency_DeepCopy),
      (TPtr (ty_PolicyTemplate E), PolicyTemplate_DeepCopy E),
      (TPtr ty_HubTemplateOptions, HubTemplateOptions_DeepCopy),
      (TPtr (ty_PolicySpec E), PolicySpec_DeepCopy E),
      (TPtr ty_PlacementDecision, PlacementDecision_DeepCopy),
      (TPtr ty_PolicyExclusion, PolicyExclusion_DeepCopy),
      (TPtr ty_Placement, Placement_DeepCopy),
      (TPtr ty_RemainingBinding, RemainingBinding_DeepCopy),
      (TPtr ty_CompliancePerClusterStatus, CompliancePerClusterStatus_DeepCopy),
      (TPtr (ty_ComplianceHistory E), ComplianceHistory_DeepCopy E),
      (TPtr (ty_DetailsPerTemplate E), DetailsPerTemplate_DeepCopy E),
      (TPtr (ty_PolicyStatus E), PolicyStatus_DeepCopy E),
      (TPtr (ty_Policy E), Policy_DeepCopy E),
      (TPtr (ty_Policy E), Policy_DeepCopyObject E),
      (TPtr (ty_PolicyList E), PolicyList_DeepCopy E),
      (TPtr (ty_PolicyList E), PolicyList_DeepCopyObject E),
      (TPtr ty_Subject, Subject_DeepCopy),
      (TPtr ty_PlacementSubject, PlacementSubject_DeepCopy),
      (TPtr ty_BindingOverrides, BindingOverrides_DeepCopy),
      (TPtr ty_PlacementBindingStatus, PlacementBindingStatus_DeepCopy),
      (TPtr (ty_PlacementBinding E), PlacementBinding_DeepCopy E),
      (TPtr (ty_PlacementBinding E), PlacementBinding_DeepCopyObject E),
      (TPtr (ty_PlacementBindingList E), PlacementBindingList_DeepCopy E),
      (TPtr (ty_PlacementBindingList E), PlacementBindingList_DeepCopyObject E),
      (TPtr (ty_GuttedObject E), GuttedObject_DeepCopy E),
      (TPtr (ty_GuttedObject E), GuttedObject_DeepCopyObject E)]"

lemma object_of_copy:
  "(\<lambda>v h. case f v h of (c, h') \<Rightarrow> if c \<noteq> NilRef then (c, h') else (NilRef, h')) = f"
  by (intro ext) (simp split: prod.splits)

lemma deep_object [deep_intros]:
  "deep T f \<Longrightarrow> deep T (\<lambda>v h. case f v h of (c, h') \<Rightarrow> if c \<noteq> NilRef then (c, h') else (NilRef, h'))"
  by (simp only: object_of_copy)

lemma v1_copies_deep:
  assumes "foreign_ok E"
  shows "list_all (\<lambda>(T, f). deep T f) (v1_copies E)"
  using assms unfolding v1_copies_def v1_copy_defs [abs_def]
  by (simp only: list.pred_inject prod.case) (intro conjI TrueI deep_intros)

end
