(* ===== verification/Heap_Replica.thy ===== *)
theory Heap_Replica
  imports Replication Deep_Copy
begin

text \<open>
  The metadata of a replica in memory: the part of \<^verbatim>\<open>buildReplicatedPolicy\<close>
  (\<^verbatim>\<open>controllers/propagator/replication.go\<close>) whose effect depends on aliasing. The metadata of the root
  policy are copied deeply, but the labels are taken from the root policy itself, so its map is the
  map of the replica from then on. The refinement shows that the functional model, which returns the
  changed root policy next to the replica, describes exactly what happens to the maps.
\<close>

section \<open>Maps of strings in the heap\<close>

definition str :: "string \<Rightarrow> gval" where
  "str s = Scalar (SString s)"

text \<open>\<^verbatim>\<open>m[k] = x\<close>, \<^verbatim>\<open>delete(m, k)\<close>, the keys a \<^verbatim>\<open>range\<close> runs over, and the replacement of a nil map.\<close>

definition assign_key :: "gval \<Rightarrow> string \<Rightarrow> string \<Rightarrow> heap \<Rightarrow> heap" where
  "assign_key v k x h = (case v of Ref a \<Rightarrow> set_key a k (str x) h | _ \<Rightarrow> h)"

definition delete_key :: "gval \<Rightarrow> string \<Rightarrow> heap \<Rightarrow> heap" where
  "delete_key v k h =
     (case v of
        Ref a \<Rightarrow> (case cells h a of Dict xs \<Rightarrow> put a (Dict (AList.delete k xs)) h | _ \<Rightarrow> h)
      | _ \<Rightarrow> h)"

definition map_keys :: "heap \<Rightarrow> gval \<Rightarrow> string list" where
  "map_keys h v = (case v of Ref a \<Rightarrow> (case cells h a of Dict xs \<Rightarrow> map fst xs | _ \<Rightarrow> []) | _ \<Rightarrow> [])"

definition or_empty :: "gval \<Rightarrow> heap \<Rightarrow> gval \<times> heap" where
  "or_empty v h = (if v = NilRef then (case alloc (Dict []) h of (a, h') \<Rightarrow> (Ref a, h')) else (v, h))"

section \<open>The metadata of a replica\<close>

text \<open>The loop that deletes the keys outside the policy group.\<close>

definition delete_foreign :: "gval \<Rightarrow> string list \<Rightarrow> heap \<Rightarrow> heap" where
  "delete_foreign v keys h =
     fold (\<lambda>k h. if \<not> HasPrefix k (SchemeGroup @ ''/'') then delete_key v k h else h) keys h"

definition replicated_meta ::
  "foreign \<Rightarrow> bool option \<Rightarrow> string \<Rightarrow> string \<Rightarrow> string \<Rightarrow> gval \<Rightarrow> heap \<Rightarrow> gval \<times> heap" where
  "replicated_meta E copyPolicyMetadata clusterName replicatedName uid rootMeta h =
     (let (meta, h) = copy_ObjectMeta E rootMeta h;
          meta = set_field ''OwnerReferences'' NilRef (set_field ''Finalizers'' NilRef
                   (set_field ''ResourceVersion'' (str []) (set_field ''Namespace'' (str clusterName)
                     (set_field ''Name'' (str replicatedName) meta))));
          (labels, h) = or_empty (field rootMeta ''Labels'') h;
          h = (if copyPolicyMetadata = Some False
               then delete_foreign labels (map_keys h (field meta ''Labels'')) h else h);
          h = assign_key labels RootPolicyLabel replicatedName
                (assign_key labels ClusterNamespaceLabel clusterName
                  (assign_key labels ClusterNameLabel clusterName h));
          meta = set_field ''Labels'' labels meta;
          (annotations, h) = or_empty (field meta ''Annotations'') h;
          h = (if copyPolicyMetadata = Some False
               then delete_foreign annotations (map_keys h (field meta ''Annotations'')) h else h);
          h = assign_key annotations ManagedClusterUIDAnnotation uid
                (assign_key annotations argoCDCompareOptionsAnnotation ''IgnoreExtraneous'' h)
      in (set_field ''Annotations'' annotations meta, h))"

section \<open>What a map stands for\<close>

definition map_at :: "heap \<Rightarrow> gval \<Rightarrow> strmap \<Rightarrow> bool" where
  "map_at h v m \<longleftrightarrow>
     (case m of
        None \<Rightarrow> v = NilRef
      | Some f \<Rightarrow> (\<exists>a xs. v = Ref a \<and> a < lim h \<and> cells h a = Dict xs \<and> distinct (map fst xs) \<and>
                      (\<forall>k. map_of xs k = map_option str (fmlookup f k))))"

lemma map_at_NilRef [simp]: "map_at h NilRef m \<longleftrightarrow> m = None"
  by (auto simp: map_at_def split: option.splits)

lemma map_at_None [simp]: "map_at h v None \<longleftrightarrow> v = NilRef"
  by (simp add: map_at_def)

lemma map_at_Some:
  "map_at h v (Some f) \<longleftrightarrow> (\<exists>a xs. v = Ref a \<and> a < lim h \<and> cells h a = Dict xs \<and> distinct (map fst xs) \<and>
     (\<forall>k. map_of xs k = map_option str (fmlookup f k)))"
  by (simp add: map_at_def)

lemma map_at_assign: "map_at h v (Some f) \<Longrightarrow> map_at (assign_key v k x h) v (Some (fmupd k x f))"
  by (auto simp: map_at_Some assign_key_def set_key_def update_conv' distinct_update)

lemma map_at_delete: "map_at h v (Some f) \<Longrightarrow> map_at (delete_key v k h) v (Some (fmdrop k f))"
  by (auto simp: map_at_Some delete_key_def delete_conv' distinct_delete)

text \<open>Writes to one map leave the others alone.\<close>

lemma assign_key_frame:
  "lim (assign_key v k x h) = lim h" "v \<noteq> Ref b \<Longrightarrow> cells (assign_key v k x h) b = cells h b"
  by (auto simp: assign_key_def set_key_def split: gval.splits cell.splits)

lemma delete_key_frame:
  "lim (delete_key v k h) = lim h" "v \<noteq> Ref b \<Longrightarrow> cells (delete_key v k h) b = cells h b"
  by (auto simp: delete_key_def split: gval.splits cell.splits)

lemma delete_foreign_frame:
  "lim (delete_foreign v keys h) = lim h" "v \<noteq> Ref b \<Longrightarrow> cells (delete_foreign v keys h) b = cells h b"
  unfolding delete_foreign_def
  by (induction keys arbitrary: h) (auto simp: delete_key_frame)

lemmas write_frame = assign_key_frame delete_key_frame delete_foreign_frame

lemma map_at_frame:
  assumes "map_at h w m" and "lim h \<le> lim h'" and "\<And>b. w = Ref b \<Longrightarrow> b < lim h \<Longrightarrow> cells h' b = cells h b"
  shows "map_at h' w m"
  using assms by (fastforce simp: map_at_def split: option.splits)

lemma map_at_delete_foreign:
  "map_at h v (Some f) \<Longrightarrow>
   map_at (delete_foreign v keys h) v
     (Some (fmfilter (\<lambda>k. k \<in> set keys \<longrightarrow> HasPrefix k (SchemeGroup @ ''/'')) f))"
proof (induction keys arbitrary: h f)
  case Nil
  then show ?case by (simp add: delete_foreign_def fmfilter_true)
next
  case (Cons k keys)
  let ?p = "\<lambda>k. HasPrefix k (SchemeGroup @ ''/'')"
  have eq: "fmfilter (\<lambda>k'. k' \<in> set keys \<longrightarrow> ?p k') (if ?p k then f else fmdrop k f) =
      fmfilter (\<lambda>k'. k' \<in> set (k # keys) \<longrightarrow> ?p k') f"
    by (intro fmap_ext) auto
  have "map_at (if ?p k then h else delete_key v k h) v (Some (if ?p k then f else fmdrop k f))"
    using Cons.prems map_at_delete by auto
  moreover have "delete_foreign v (k # keys) h = delete_foreign v keys (if ?p k then h else delete_key v k h)"
    by (simp add: delete_foreign_def)
  ultimately show ?case using Cons.IH unfolding eq [symmetric] by metis
qed

lemma map_at_keys: "map_at h v m \<Longrightarrow> set (map_keys h v) = fmdom' (raw_map m)"
proof (cases m)
  case (Some f)
  assume "map_at h v m"
  with Some obtain a xs where a: "v = Ref a" "cells h a = Dict xs" "\<And>k. map_of xs k = map_option str (fmlookup f k)"
    by (auto simp: map_at_Some)
  have "k \<in> set (map fst xs) \<longleftrightarrow> k \<in> fmdom' f" for k
    using a(3) [of k] by (metis (no_types) fmlookup_dom'_iff map_of_eq_None_iff option.map_disc_iff not_Some_eq set_map)
  with a Some show ?thesis by (auto simp: map_keys_def raw_map_def)
qed (simp add: map_keys_def raw_map_def fmdom'_empty)

lemma or_empty_at:
  assumes "map_at h v m" and "or_empty v h = (v', h')"
  shows "map_at h' v' (Some (raw_map m))" and "extends h h'"
    and "v' = v \<and> h' = h \<and> m \<noteq> None \<or> v' = Ref (lim h) \<and> lim h' = Suc (lim h) \<and> m = None"
proof -
  have "map_at h' v' (Some (raw_map m)) \<and> extends h h' \<and>
      (v' = v \<and> h' = h \<and> m \<noteq> None \<or> v' = Ref (lim h) \<and> lim h' = Suc (lim h) \<and> m = None)"
  proof (cases m)
    case None
    with assms have h': "v' = Ref (lim h)" "h' = snd (alloc (Dict []) h)"
      by (auto simp: or_empty_def alloc_def)
    have "map_at h' v' (Some fmempty)" by (simp add: h' map_at_Some)
    then show ?thesis using h' None by (auto simp: raw_map_def)
  next
    case (Some f)
    with assms have "v \<noteq> NilRef" by auto
    with assms Some show ?thesis by (auto simp: or_empty_def raw_map_def)
  qed
  then show "map_at h' v' (Some (raw_map m))" "extends h h'"
    "v' = v \<and> h' = h \<and> m \<noteq> None \<or> v' = Ref (lim h) \<and> lim h' = Suc (lim h) \<and> m = None"
    by blast+
qed


section \<open>Copied maps\<close>

lemma rep_string_iff: "rep l h (TBase BString) v t \<longleftrightarrow> (\<exists>s. base_of s = BString \<and> v = Scalar s \<and> t = TScalar s)"
  by (auto simp: rep_base_iff)

lemma rel_option_string:
  "rel_option (rep l h (TBase BString)) x y \<Longrightarrow> rel_option (rep l' h' (TBase BString)) x' y \<Longrightarrow> x' = x"
  by (cases x; cases x'; cases y) (auto simp: rep_string_iff)

text \<open>The copy of a map of strings stands for the same map, and its cell is new.\<close>

lemma rep_map_at:
  assumes "rep 0 h (TMap (TBase BString)) v t" and "map_at h v m" and "rep l h' (TMap (TBase BString)) v' t"
  shows "map_at h' v' m" and "v' = Ref b \<Longrightarrow> l \<le> b \<and> b < lim h'"
proof -
  show "map_at h' v' m"
    using assms(1)
  proof (cases rule: rep_mapE)
    case nil
    with assms(2,3) show ?thesis by (auto elim: rep_mapE)
  next
    case (ref a xs M)
    from assms(3) ref(2) obtain b ys where b: "v' = Ref b" "b < lim h'" "cells h' b = Dict ys" "distinct (map fst ys)"
      "\<And>k. rel_option (rep l h' (TBase BString)) (map_of ys k) (M k)" by (auto elim!: rep_mapE)
    have "map_of ys k = map_of xs k" for k using ref(7) [of k] b(5) [of k] by (rule rel_option_string)
    moreover obtain f where "m = Some f" using assms(2) ref(1) by (cases m) auto
    moreover from this have "map_of xs k = map_option str (fmlookup f k)" for k
      using assms(2) ref(1,5) by (auto simp: map_at_Some)
    ultimately show ?thesis using b(1-4) by (simp add: map_at_Some)
  qed
  show "l \<le> b \<and> b < lim h'" if "v' = Ref b" using assms(3) that by (auto elim: rep_mapE)
qed

text \<open>The keys of a map after the loop, as \<open>keep_metadata\<close> has them.\<close>

definition kept :: "bool option \<Rightarrow> strmap \<Rightarrow> (string, string) fmap" where
  "kept copyPolicyMetadata m =
     (if copyPolicyMetadata = Some False
      then fmfilter (\<lambda>key. HasPrefix key (SchemeGroup @ ''/'')) (raw_map m) else raw_map m)"

lemma keep_metadata_kept: "keep_metadata rootPlc m = kept (ps_CopyPolicyMetadata (p_Spec rootPlc)) m"
  by (simp add: keep_metadata_def kept_def)

lemma map_at_kept:
  assumes "map_at h v (Some (raw_map m))" and "set keys = fmdom' (raw_map m)"
  shows "map_at (if cm = Some False then delete_foreign v keys h else h) v (Some (kept cm m))"
proof -
  have "fmfilter (\<lambda>k. k \<in> set keys \<longrightarrow> HasPrefix k (SchemeGroup @ ''/'')) (raw_map m) =
      fmfilter (\<lambda>k. HasPrefix k (SchemeGroup @ ''/'')) (raw_map m)"
    unfolding assms(2) by (intro fmap_ext) (auto simp: fmlookup_dom'_iff)
  with map_at_delete_foreign [OF assms(1), of keys] assms(1) show ?thesis by (simp add: kept_def)
qed

lemma field_set_field:
  "\<exists>fs. v = Struct fs \<Longrightarrow> field (set_field n x v) n' = (if n' = n then x else field v n')"
  "\<exists>fs. v = Struct fs \<Longrightarrow> \<exists>fs. set_field n x v = Struct fs"
  by (auto simp: update_conv')

section \<open>The refinement\<close>

text \<open>Metadata are a struct with the two maps of strings.\<close>

definition metadata_ok :: "foreign \<Rightarrow> bool" where
  "metadata_ok E \<longleftrightarrow>
     (\<exists>fs. ty_ObjectMeta E = TStruct fs \<and> distinct (map fst fs) \<and>
        (''Labels'', TMap (TBase BString)) \<in> set fs \<and> (''Annotations'', TMap (TBase BString)) \<in> set fs)"

text \<open>The copy of the metadata: its maps stand for the same and are new.\<close>

lemma copied_meta:
  assumes "foreign_ok E" and "metadata_ok E" and "rep 0 h (ty_ObjectMeta E) rm t"
    and "copy_ObjectMeta E rm h = (meta, h1)" and "n = ''Labels'' \<or> n = ''Annotations''" and "map_at h (field rm n) m"
  shows "extends h h1" and "map_at h1 (field meta n) m" and "field meta n = Ref b \<Longrightarrow> lim h \<le> b \<and> b < lim h1"
    and "\<exists>fs. meta = Struct fs"
proof -
  from assms(2) obtain fs where fs: "ty_ObjectMeta E = TStruct fs" "distinct (map fst fs)"
    "(n, TMap (TBase BString)) \<in> set fs" using assms(5) by (auto simp: metadata_ok_def)
  from deepD [OF foreign_okD(1) [OF assms(1)] assms(3)] assms(4) have
    ext: "extends h h1" and copy: "rep (lim h) h1 (TStruct fs) meta t" by (auto simp: fs(1))
  show "extends h h1" by (rule ext)
  from assms(3) [unfolded fs(1) rep_struct_iff [OF fs(2)]] fs(3) obtain ts where
    rm: "t = TRec ts" "rep 0 h (TMap (TBase BString)) (field rm n) (the (map_of ts n))" by auto
  from copy [unfolded rep_struct_iff [OF fs(2)]] fs(3) rm(1) have
    meta: "\<exists>fs. meta = Struct fs" "rep (lim h) h1 (TMap (TBase BString)) (field meta n) (the (map_of ts n))" by auto
  show "map_at h1 (field meta n) m" by (rule rep_map_at [OF rm(2) assms(6) meta(2)])
  show "lim h \<le> b \<and> b < lim h1" if "field meta n = Ref b" by (rule rep_map_at(2) [OF rm(2) assms(6) meta(2) that])
  show "\<exists>fs. meta = Struct fs" by (rule meta)
qed

text \<open>The maps after the edits of the labels and of the annotations.\<close>

lemma replicated_meta_maps:
  assumes "foreign_ok E" and "metadata_ok E" and "rep 0 h (ty_ObjectMeta E) rm t"
    and "map_at h (field rm ''Labels'') ls" and "map_at h (field rm ''Annotations'') as"
    and "field rm ''Labels'' = field rm ''Annotations'' \<Longrightarrow> ls = None"
    and "replicated_meta E cm cn rn uid rm h = (meta', h')"
  shows "map_at h' (field meta' ''Labels'') (Some (fmupd RootPolicyLabel rn
           (fmupd ClusterNamespaceLabel cn (fmupd ClusterNameLabel cn (kept cm ls)))))"
    and "map_at h' (field meta' ''Annotations'') (Some (fmupd ManagedClusterUIDAnnotation uid
           (fmupd argoCDCompareOptionsAnnotation ''IgnoreExtraneous'' (kept cm as))))"
    and "field rm ''Labels'' \<noteq> NilRef \<Longrightarrow> field meta' ''Labels'' = field rm ''Labels''"
    and "map_at h' (field rm ''Annotations'') as"
proof -
  obtain meta h1 where c: "copy_ObjectMeta E rm h = (meta, h1)" by fastforce
  note copy = copied_meta [OF assms(1-3) c]
  let ?meta = "set_field ''OwnerReferences'' NilRef (set_field ''Finalizers'' NilRef
     (set_field ''ResourceVersion'' (str []) (set_field ''Namespace'' (str cn) (set_field ''Name'' (str rn) meta))))"
  have flds: "field ?meta ''Labels'' = field meta ''Labels''" "field ?meta ''Annotations'' = field meta ''Annotations''"
    "\<exists>fs. ?meta = Struct fs"
    using copy(4) [OF _ assms(4)] by (simp_all add: field_set_field del: field.simps set_field.simps)
  obtain labels h2 where l: "or_empty (field rm ''Labels'') h1 = (labels, h2)" by fastforce
  let ?h3 = "if cm = Some False then delete_foreign labels (map_keys h2 (field meta ''Labels'')) h2 else h2"
  let ?h4 = "assign_key labels RootPolicyLabel rn (assign_key labels ClusterNamespaceLabel cn
      (assign_key labels ClusterNameLabel cn ?h3))"
  obtain ann h5 where a: "or_empty (field meta ''Annotations'') ?h4 = (ann, h5)" by fastforce
  let ?h6 = "if cm = Some False then delete_foreign ann (map_keys h5 (field meta ''Annotations'')) h5 else h5"
  let ?h7 = "assign_key ann ManagedClusterUIDAnnotation uid
      (assign_key ann argoCDCompareOptionsAnnotation ''IgnoreExtraneous'' ?h6)"
  have upd: "field (set_field ''Labels'' labels ?meta) ''Annotations'' = field meta ''Annotations''"
    "field (set_field ''Annotations'' ann (set_field ''Labels'' labels ?meta)) ''Labels'' = labels"
    "field (set_field ''Annotations'' ann (set_field ''Labels'' labels ?meta)) ''Annotations'' = ann"
    using flds by (simp_all add: field_set_field del: field.simps set_field.simps)
  have "(meta', h') = (set_field ''Annotations'' ann (set_field ''Labels'' labels ?meta), ?h7)"
    using assms(7) unfolding replicated_meta_def Let_def c prod.case l flds(1) upd(1) a by (rule sym)
  then have res: "field meta' ''Labels'' = labels" "field meta' ''Annotations'' = ann" "h' = ?h7"
    by (simp_all only: prod.inject upd)
  have ext1: "extends h h1" by (rule copy(1) [OF _ assms(4)]) simp
  have ml1: "map_at h1 (field rm ''Labels'') ls" and ma1: "map_at h1 (field rm ''Annotations'') as"
    using assms(4,5) ext1 by (auto simp: extends_def elim!: map_at_frame)
  note ol = or_empty_at [OF ml1 l]
  have mc2: "map_at h2 (field meta ''Labels'') ls"
    using copy(2) [OF _ assms(4)] ol(2) by (auto simp: extends_def elim!: map_at_frame)
  have lim4: "lim ?h4 = lim h2" by (simp add: write_frame)
  have frame4: "labels \<noteq> Ref b \<Longrightarrow> cells ?h4 b = cells h2 b" for b by (simp add: write_frame)
  have labels4: "map_at ?h4 labels (Some (fmupd RootPolicyLabel rn
           (fmupd ClusterNamespaceLabel cn (fmupd ClusterNameLabel cn (kept cm ls)))))"
    by (intro map_at_assign map_at_kept ol(1)) (simp add: map_at_keys [OF mc2])
  have lab: "labels \<noteq> Ref b" if "lim h \<le> b" "b < lim h1" for b
    using ol(3) that assms(4) by (auto simp: map_at_def split: option.splits)
  have ma4: "map_at ?h4 (field meta ''Annotations'') as"
  proof (rule map_at_frame [OF copy(2) [OF _ assms(5)]])
    show "lim h1 \<le> lim ?h4" using ol(2) lim4 by (simp add: extends_def)
    fix b assume b: "field meta ''Annotations'' = Ref b" "b < lim h1"
    with copy(3) [OF _ assms(5) b(1)] have "labels \<noteq> Ref b" by (intro lab) auto
    with b(2) ol(2) show "cells ?h4 b = cells h1 b" by (simp add: frame4 extends_def)
  qed simp
  note oa = or_empty_at [OF ma4 a]
  have mc5: "map_at h5 (field meta ''Annotations'') as"
    using ma4 oa(2) by (auto simp: extends_def elim!: map_at_frame)
  have ann7: "map_at ?h7 ann (Some (fmupd ManagedClusterUIDAnnotation uid
           (fmupd argoCDCompareOptionsAnnotation ''IgnoreExtraneous'' (kept cm as))))"
    by (intro map_at_assign map_at_kept oa(1)) (simp add: map_at_keys [OF mc5])
  then show "map_at h' (field meta' ''Annotations'') (Some (fmupd ManagedClusterUIDAnnotation uid
           (fmupd argoCDCompareOptionsAnnotation ''IgnoreExtraneous'' (kept cm as))))"
    unfolding res .
  have frame7: "ann \<noteq> Ref b \<Longrightarrow> b < lim h2 \<Longrightarrow> cells ?h7 b = cells ?h4 b" for b
    using oa(2) lim4 by (simp add: write_frame extends_def)
  have "lim ?h7 = lim h5" by (simp add: write_frame)
  with oa(2) have lim7: "lim ?h4 \<le> lim ?h7" unfolding extends_def by presburger
  have ann_new: "ann \<noteq> Ref b" if "b < lim h2" "labels = Ref b \<or> b < lim h" for b
    using oa(3) that copy(3) [OF _ assms(5), of b] lab lim4 by fastforce
  show "map_at h' (field meta' ''Labels'') (Some (fmupd RootPolicyLabel rn
           (fmupd ClusterNamespaceLabel cn (fmupd ClusterNameLabel cn (kept cm ls)))))"
    unfolding res by (rule map_at_frame [OF labels4 lim7]) (use frame7 ann_new lim4 in auto)
  show "field meta' ''Labels'' = field rm ''Labels''" if "field rm ''Labels'' \<noteq> NilRef"
    using ol(3) that assms(4) res(1) by auto
  show "map_at h' (field rm ''Annotations'') as"
    unfolding res
  proof (rule map_at_frame [OF assms(5)])
    have "lim h \<le> lim h2" using ext1 ol(2) by (simp add: extends_def)
    then show "lim h \<le> lim ?h7" using lim7 lim4 by simp
    fix b assume b: "field rm ''Annotations'' = Ref b" "b < lim h"
    have "labels \<noteq> Ref b" using ol(3) assms(6) b ext1 by (auto simp: extends_def)
    with b(2) ext1 ol(2) frame7 [of b] ann_new [of b] \<open>lim h \<le> lim h2\<close>
    show "cells ?h7 b = cells h b" by (simp add: frame4 extends_def)
  qed
qed

section \<open>An example\<close>

definition ex_meta_foreign :: foreign where
  "ex_meta_foreign =
     \<lparr>ty_ObjectMeta = TStruct [(''Name'', TBase BString), (''Labels'', TMap (TBase BString)),
        (''Annotations'', TMap (TBase BString))],
      copy_ObjectMeta = into [(''Labels'', if_not_nil (make_map id assign)),
        (''Annotations'', if_not_nil (make_map id assign))],
      ty_ListMeta = TStruct [], copy_ListMeta = into [], ty_Time = TBase BString, copy_Time = assign,
      ty_RawExtension = TSlice (TBase BInt), copy_RawExtension = if_not_nil make_copy, range_order = id\<rparr>"

lemma ex_meta_foreign_ok: "foreign_ok ex_meta_foreign" "metadata_ok ex_meta_foreign"
proof -
  have "mset (id xs) = mset xs" for xs :: "(string \<times> gval) list" by simp
  then show "foreign_ok ex_meta_foreign"
    unfolding foreign_ok_def ex_meta_foreign_def foreign.simps
    by (intro conjI allI deep_intros deep_into) (auto simp: statements_fit_def intro!: deep_intros)
  show "metadata_ok ex_meta_foreign" by (auto simp: metadata_ok_def ex_meta_foreign_def)
qed

text \<open>A root policy with one label and no annotations.\<close>

definition ex_meta_heap :: heap where
  "ex_meta_heap = \<lparr>lim = 1, cells = (\<lambda>_. Dict [(''team'', str ''a'')])\<rparr>"

definition ex_root_meta :: gval where
  "ex_root_meta = Struct [(''Name'', str ''p''), (''Labels'', Ref 0), (''Annotations'', NilRef)]"

definition ex_labelled_root :: Policy where
  "ex_labelled_root = ex_root\<lparr>p_ObjectMeta := (p_ObjectMeta ex_root)\<lparr>
     om_Labels := Some (fmupd ''team'' ''a'' fmempty)\<rparr>\<rparr>"

lemma ex_root_meta_rep: "\<exists>t. rep 0 ex_meta_heap (ty_ObjectMeta ex_meta_foreign) ex_root_meta t"
proof -
  have "rep 0 ex_meta_heap (TMap (TBase BString)) (Ref 0) (TDict [''team'' \<mapsto> TScalar (SString ''a'')])"
    by (rule rep_map [where kvs = "[(''team'', str ''a'')]"])
       (auto simp: ex_meta_heap_def str_def rep_string_iff)
  then have "rep 0 ex_meta_heap (ty_ObjectMeta ex_meta_foreign) ex_root_meta
      (TRec [(''Name'', TScalar (SString ''p'')), (''Labels'', TDict [''team'' \<mapsto> TScalar (SString ''a'')]),
        (''Annotations'', TNil)])"
    unfolding ex_root_meta_def ex_meta_foreign_def foreign.simps str_def
    by (intro rep_struct_Cons rep_struct_Nil rep_base rep_map_nil) simp_all
  then show ?thesis ..
qed

section \<open>Properties\<close>

text \<open>C11. The metadata built in memory are those of the functional model, for the replica and for the
  root policy: the labels written for the replica appear in the root policy when its label map is not
  nil, and the annotations of the root policy stay as they are.\<close>

theorem replica_meta_refines:
  assumes "foreign_ok E" and "metadata_ok E" and "rep 0 h (ty_ObjectMeta E) rootMeta t"
    and "map_at h (field rootMeta ''Labels'') (p_Labels rootPlc)"
    and "map_at h (field rootMeta ''Annotations'') (p_Annotations rootPlc)"
    and "field rootMeta ''Labels'' = field rootMeta ''Annotations'' \<longrightarrow> p_Labels rootPlc = None"
    and "fst (buildReplicatedPolicy c rootPlc dec) = Inr replicated"
    and "Get_ManagedCluster c (dec_Cluster dec) = Inr mc"
    and "replicated_meta E (ps_CopyPolicyMetadata (p_Spec rootPlc)) (dec_Cluster dec) (FullNameForPolicy rootPlc)
           (mc_UID mc) rootMeta h = (meta, h')"
  shows "map_at h' (field meta ''Labels'') (p_Labels replicated) \<and>
    map_at h' (field meta ''Annotations'') (p_Annotations replicated) \<and>
    map_at h' (field rootMeta ''Labels'') (p_Labels (snd (buildReplicatedPolicy c rootPlc dec))) \<and>
    map_at h' (field rootMeta ''Annotations'') (p_Annotations (snd (buildReplicatedPolicy c rootPlc dec)))"
proof -
  note maps = replicated_meta_maps [OF assms(1-5) _ assms(9)]
  have "p_Labels replicated = Some (fmupd RootPolicyLabel (FullNameForPolicy rootPlc)
        (fmupd ClusterNamespaceLabel (dec_Cluster dec) (fmupd ClusterNameLabel (dec_Cluster dec)
          (kept (ps_CopyPolicyMetadata (p_Spec rootPlc)) (p_Labels rootPlc)))))"
    "p_Annotations replicated = Some (fmupd ManagedClusterUIDAnnotation (mc_UID mc)
        (fmupd argoCDCompareOptionsAnnotation ''IgnoreExtraneous''
          (kept (ps_CopyPolicyMetadata (p_Spec rootPlc)) (p_Annotations rootPlc))))"
    using assms(7,8) by (auto simp: keep_metadata_kept elim!: buildReplicatedPolicy_Inr)
  moreover have "field rootMeta ''Labels'' \<noteq> NilRef" if "p_Labels rootPlc \<noteq> None"
    using assms(4) that by auto
  ultimately show ?thesis
    using maps assms(4,6) buildReplicatedPolicy_root_labels [OF assms(7)]
    by (cases "p_Labels rootPlc") (simp_all add: buildReplicatedPolicy_root_spec)
qed

theorem replica_meta_refines_witness:
  "\<exists>meta h'. replicated_meta ex_meta_foreign None ''c1'' ''ns.p'' ''u'' ex_root_meta ex_meta_heap = (meta, h') \<and>
     map_at h' (field ex_root_meta ''Labels'') (p_Labels (snd (buildReplicatedPolicy ex_reader ex_labelled_root
       \<lparr>dec_Cluster = ''c1'', dec_PolicyOverrides = \<lparr>bo_RemediationAction = []\<rparr>\<rparr>)))"
proof -
  let ?dec = "\<lparr>dec_Cluster = ''c1'', dec_PolicyOverrides = \<lparr>bo_RemediationAction = []\<rparr>\<rparr>"
  obtain t where t: "rep 0 ex_meta_heap (ty_ObjectMeta ex_meta_foreign) ex_root_meta t"
    using ex_root_meta_rep by blast
  obtain meta h' where m: "replicated_meta ex_meta_foreign None ''c1'' ''ns.p'' ''u'' ex_root_meta ex_meta_heap = (meta, h')"
    by fastforce
  obtain r where r: "fst (buildReplicatedPolicy ex_reader ex_labelled_root ?dec) = Inr r"
    by (simp add: buildReplicatedPolicy_def canonicalizeDependencies_def ex_labelled_root_def ex_reader_def ex_objects Let_def)
  have maps: "map_at ex_meta_heap (field ex_root_meta ''Labels'') (p_Labels ex_labelled_root)"
    "map_at ex_meta_heap (field ex_root_meta ''Annotations'') (p_Annotations ex_labelled_root)"
    "field ex_root_meta ''Labels'' = field ex_root_meta ''Annotations'' \<longrightarrow> p_Labels ex_labelled_root = None"
    by (simp_all add: map_at_Some ex_root_meta_def ex_meta_heap_def ex_labelled_root_def ex_objects)
  have "Get_ManagedCluster ex_reader (dec_Cluster ?dec) = Inr \<lparr>mc_Name = ''c1'', mc_UID = ''u''\<rparr>"
    by (simp add: ex_reader_def)
  moreover have "replicated_meta ex_meta_foreign (ps_CopyPolicyMetadata (p_Spec ex_labelled_root)) (dec_Cluster ?dec)
      (FullNameForPolicy ex_labelled_root) (mc_UID \<lparr>mc_Name = ''c1'', mc_UID = ''u''\<rparr>) ex_root_meta ex_meta_heap = (meta, h')"
    using m by (simp add: ex_labelled_root_def FullNameForPolicy_def ex_objects)
  ultimately show ?thesis
    using replica_meta_refines [OF ex_meta_foreign_ok t maps r] m by blast
qed

end
