(* ===== verification/Deep_Copy_Beta.thy ===== *)
theory Deep_Copy_Beta
  imports Deep_Copy
begin

text \<open>
  The generated copy functions of \<^verbatim>\<open>api/v1beta1\<close> (\<^verbatim>\<open>zz_generated.deepcopy.go\<close>), and what all
  copies of both versions guarantee: equal values of the same type, in new cells, so that writes
  through the copy do not reach the original and the other way round.
\<close>

section \<open>PolicySetExclusion\<close>

definition ty_PolicySetExclusion :: ty where
  "ty_PolicySetExclusion = TStruct
     [(''PolicyName'', TBase BString),
      (''Reason'', TBase BString),
      (''ClusterNames'', TSlice (TBase BString))]"

definition PolicySetExclusion_DeepCopyInto :: copier where
  "PolicySetExclusion_DeepCopyInto = into
     [(''ClusterNames'', if_not_nil make_copy)]"

definition PolicySetExclusion_DeepCopy :: copier where
  "PolicySetExclusion_DeepCopy = if_not_nil (new_copy PolicySetExclusion_DeepCopyInto)"

lemma deep_PolicySetExclusion [deep_intros]:
  "deep ty_PolicySetExclusion PolicySetExclusion_DeepCopyInto"
  unfolding ty_PolicySetExclusion_def PolicySetExclusion_DeepCopyInto_def
  by (rule deep_into) (auto simp: statements_fit_def intro: deep_intros)

section \<open>PolicySetSpec\<close>

definition ty_PolicySetSpec :: ty where
  "ty_PolicySetSpec = TStruct
     [(''Description'', TBase BString),
      (''Policies'', TSlice (TBase BString)),
      (''Exclusions'', TSlice ty_PolicySetExclusion)]"

definition PolicySetSpec_DeepCopyInto :: copier where
  "PolicySetSpec_DeepCopyInto = into
     [(''Policies'', if_not_nil make_copy),
      (''Exclusions'', if_not_nil (make_each PolicySetExclusion_DeepCopyInto))]"

definition PolicySetSpec_DeepCopy :: copier where
  "PolicySetSpec_DeepCopy = if_not_nil (new_copy PolicySetSpec_DeepCopyInto)"

lemma deep_PolicySetSpec [deep_intros]:
  "deep ty_PolicySetSpec PolicySetSpec_DeepCopyInto"
  unfolding ty_PolicySetSpec_def PolicySetSpec_DeepCopyInto_def
  by (rule deep_into) (auto simp: statements_fit_def intro: deep_intros)

section \<open>PolicySetStatusPlacement\<close>

definition ty_PolicySetStatusPlacement :: ty where
  "ty_PolicySetStatusPlacement = TStruct
     [(''PlacementBinding'', TBase BString),
      (''Placement'', TBase BString),
      (''PlacementRule'', TBase BString)]"

definition PolicySetStatusPlacement_DeepCopyInto :: copier where
  "PolicySetStatusPlacement_DeepCopyInto = into []"

definition PolicySetStatusPlacement_DeepCopy :: copier where
  "PolicySetStatusPlacement_DeepCopy = if_not_nil (new_copy PolicySetStatusPlacement_DeepCopyInto)"

lemma flat_PolicySetStatusPlacement [deep_intros]: "flat ty_PolicySetStatusPlacement"
  by (simp add: ty_PolicySetStatusPlacement_def)

lemma deep_PolicySetStatusPlacement [deep_intros]:
  "deep ty_PolicySetStatusPlacement PolicySetStatusPlacement_DeepCopyInto"
  unfolding ty_PolicySetStatusPlacement_def PolicySetStatusPlacement_DeepCopyInto_def
  by (rule deep_into) (auto simp: statements_fit_def intro: deep_intros)

section \<open>PolicySetStatusExclusion\<close>

definition ty_PolicySetStatusExclusion :: ty where
  "ty_PolicySetStatusExclusion = TStruct
     [(''PolicyName'', TBase BString),
      (''Clusters'', TSlice (TBase BString))]"

definition PolicySetStatusExclusion_DeepCopyInto :: copier where
  "PolicySetStatusExclusion_DeepCopyInto = into
     [(''Clusters'', if_not_nil make_copy)]"

definition PolicySetStatusExclusion_DeepCopy :: copier where
  "PolicySetStatusExclusion_DeepCopy = if_not_nil (new_copy PolicySetStatusExclusion_DeepCopyInto)"

lemma deep_PolicySetStatusExclusion [deep_intros]:
  "deep ty_PolicySetStatusExclusion PolicySetStatusExclusion_DeepCopyInto"
  unfolding ty_PolicySetStatusExclusion_def PolicySetStatusExclusion_DeepCopyInto_def
  by (rule deep_into) (auto simp: statements_fit_def intro: deep_intros)

section \<open>PolicySetStatus\<close>

definition ty_PolicySetStatus :: ty where
  "ty_PolicySetStatus = TStruct
     [(''Placement'', TSlice ty_PolicySetStatusPlacement),
      (''Compliant'', TBase BString),
      (''StatusMessage'', TBase BString),
      (''Exclusions'', TSlice ty_PolicySetStatusExclusion)]"

definition PolicySetStatus_DeepCopyInto :: copier where
  "PolicySetStatus_DeepCopyInto = into
     [(''Placement'', if_not_nil make_copy),
      (''Exclusions'', if_not_nil (make_each PolicySetStatusExclusion_DeepCopyInto))]"

definition PolicySetStatus_DeepCopy :: copier where
  "PolicySetStatus_DeepCopy = if_not_nil (new_copy PolicySetStatus_DeepCopyInto)"

lemma deep_PolicySetStatus [deep_intros]:
  "deep ty_PolicySetStatus PolicySetStatus_DeepCopyInto"
  unfolding ty_PolicySetStatus_def PolicySetStatus_DeepCopyInto_def
  by (rule deep_into) (auto simp: statements_fit_def intro: deep_intros)

section \<open>PolicySet\<close>

definition ty_PolicySet :: "foreign \<Rightarrow> ty" where
  "ty_PolicySet E = TStruct
     [(''TypeMeta'', ty_TypeMeta),
      (''ObjectMeta'', ty_ObjectMeta E),
      (''Spec'', ty_PolicySetSpec),
      (''Status'', ty_PolicySetStatus)]"

definition PolicySet_DeepCopyInto :: "foreign \<Rightarrow> copier" where
  "PolicySet_DeepCopyInto E = into
     [(''TypeMeta'', assign),
      (''ObjectMeta'', copy_ObjectMeta E),
      (''Spec'', PolicySetSpec_DeepCopyInto),
      (''Status'', PolicySetStatus_DeepCopyInto)]"

definition PolicySet_DeepCopy :: "foreign \<Rightarrow> copier" where
  "PolicySet_DeepCopy E = if_not_nil (new_copy (PolicySet_DeepCopyInto E))"

definition PolicySet_DeepCopyObject :: "foreign \<Rightarrow> copier" where
  "PolicySet_DeepCopyObject E v h =
     (case PolicySet_DeepCopy E v h of (c, h') \<Rightarrow> if c \<noteq> NilRef then (c, h') else (NilRef, h'))"

lemma deep_PolicySet [deep_intros]:
  "foreign_ok E \<Longrightarrow> deep (ty_PolicySet E) (PolicySet_DeepCopyInto E)"
  unfolding ty_PolicySet_def PolicySet_DeepCopyInto_def
  by (rule deep_into) (auto simp: statements_fit_def intro: deep_intros)

section \<open>PolicySetList\<close>

definition ty_PolicySetList :: "foreign \<Rightarrow> ty" where
  "ty_PolicySetList E = TStruct
     [(''TypeMeta'', ty_TypeMeta),
      (''ListMeta'', ty_ListMeta E),
      (''Items'', TSlice (ty_PolicySet E))]"

definition PolicySetList_DeepCopyInto :: "foreign \<Rightarrow> copier" where
  "PolicySetList_DeepCopyInto E = into
     [(''TypeMeta'', assign),
      (''ListMeta'', copy_ListMeta E),
      (''Items'', if_not_nil (make_each (PolicySet_DeepCopyInto E)))]"

definition PolicySetList_DeepCopy :: "foreign \<Rightarrow> copier" where
  "PolicySetList_DeepCopy E = if_not_nil (new_copy (PolicySetList_DeepCopyInto E))"

definition PolicySetList_DeepCopyObject :: "foreign \<Rightarrow> copier" where
  "PolicySetList_DeepCopyObject E v h =
     (case PolicySetList_DeepCopy E v h of (c, h') \<Rightarrow> if c \<noteq> NilRef then (c, h') else (NilRef, h'))"

lemma deep_PolicySetList [deep_intros]:
  "foreign_ok E \<Longrightarrow> deep (ty_PolicySetList E) (PolicySetList_DeepCopyInto E)"
  unfolding ty_PolicySetList_def PolicySetList_DeepCopyInto_def
  by (rule deep_into) (auto simp: statements_fit_def intro: deep_intros)

section \<open>AutomationDef\<close>

definition ty_AutomationDef :: "foreign \<Rightarrow> ty" where
  "ty_AutomationDef E = TStruct
     [(''Type'', TBase BString),
      (''Name'', TBase BString),
      (''ExtraVars'', TPtr (ty_RawExtension E)),
      (''TowerSecret'', TBase BString),
      (''JobTTL'', TPtr (TBase BInt)),
      (''PolicyViolationsLimit'', TPtr (TBase BInt))]"

definition AutomationDef_DeepCopyInto :: "foreign \<Rightarrow> copier" where
  "AutomationDef_DeepCopyInto E = into
     [(''ExtraVars'', if_not_nil (new_copy (copy_RawExtension E))),
      (''JobTTL'', if_not_nil (new_copy assign)),
      (''PolicyViolationsLimit'', if_not_nil (new_copy assign))]"

definition AutomationDef_DeepCopy :: "foreign \<Rightarrow> copier" where
  "AutomationDef_DeepCopy E = if_not_nil (new_copy (AutomationDef_DeepCopyInto E))"

lemma deep_AutomationDef [deep_intros]:
  "foreign_ok E \<Longrightarrow> deep (ty_AutomationDef E) (AutomationDef_DeepCopyInto E)"
  unfolding ty_AutomationDef_def AutomationDef_DeepCopyInto_def
  by (rule deep_into) (auto simp: statements_fit_def intro: deep_intros)

section \<open>PolicyAutomationSpec\<close>

definition ty_PolicyAutomationSpec :: "foreign \<Rightarrow> ty" where
  "ty_PolicyAutomationSpec E = TStruct
     [(''Automation'', ty_AutomationDef E),
      (''Mode'', TBase BString),
      (''PolicyRef'', TBase BString),
      (''EventHook'', TBase BString),
      (''RescanAfter'', TBase BString),
      (''DelayAfterRunSeconds'', TBase BInt)]"

definition PolicyAutomationSpec_DeepCopyInto :: "foreign \<Rightarrow> copier" where
  "PolicyAutomationSpec_DeepCopyInto E = into
     [(''Automation'', AutomationDef_DeepCopyInto E)]"

definition PolicyAutomationSpec_DeepCopy :: "foreign \<Rightarrow> copier" where
  "PolicyAutomationSpec_DeepCopy E = if_not_nil (new_copy (PolicyAutomationSpec_DeepCopyInto E))"

lemma deep_PolicyAutomationSpec [deep_intros]:
  "foreign_ok E \<Longrightarrow> deep (ty_PolicyAutomationSpec E) (PolicyAutomationSpec_DeepCopyInto E)"
  unfolding ty_PolicyAutomationSpec_def PolicyAutomationSpec_DeepCopyInto_def
  by (rule deep_into) (auto simp: statements_fit_def intro: deep_intros)

section \<open>ClusterEvent\<close>

definition ty_ClusterEvent :: ty where
  "ty_ClusterEvent = TStruct
     [(''AutomationStartTime'', TBase BString),
      (''EventTime'', TBase BString)]"

definition ClusterEvent_DeepCopyInto :: copier where
  "ClusterEvent_DeepCopyInto = into []"

definition ClusterEvent_DeepCopy :: copier where
  "ClusterEvent_DeepCopy = if_not_nil (new_copy ClusterEvent_DeepCopyInto)"

lemma flat_ClusterEvent [deep_intros]: "flat ty_ClusterEvent"
  by (simp add: ty_ClusterEvent_def)

lemma deep_ClusterEvent [deep_intros]:
  "deep ty_ClusterEvent ClusterEvent_DeepCopyInto"
  unfolding ty_ClusterEvent_def ClusterEvent_DeepCopyInto_def
  by (rule deep_into) (auto simp: statements_fit_def intro: deep_intros)

section \<open>PolicyAutomationStatus\<close>

definition ty_PolicyAutomationStatus :: ty where
  "ty_PolicyAutomationStatus = TStruct
     [(''ClustersWithEvent'', TMap ty_ClusterEvent)]"

definition PolicyAutomationStatus_DeepCopyInto :: "foreign \<Rightarrow> copier" where
  "PolicyAutomationStatus_DeepCopyInto E = into
     [(''ClustersWithEvent'', if_not_nil (make_map (range_order E) assign))]"

definition PolicyAutomationStatus_DeepCopy :: "foreign \<Rightarrow> copier" where
  "PolicyAutomationStatus_DeepCopy E = if_not_nil (new_copy (PolicyAutomationStatus_DeepCopyInto E))"

lemma deep_PolicyAutomationStatus [deep_intros]:
  "foreign_ok E \<Longrightarrow> deep ty_PolicyAutomationStatus (PolicyAutomationStatus_DeepCopyInto E)"
  unfolding ty_PolicyAutomationStatus_def PolicyAutomationStatus_DeepCopyInto_def
  by (rule deep_into) (auto simp: statements_fit_def intro: deep_intros)

section \<open>PolicyAutomation\<close>

definition ty_PolicyAutomation :: "foreign \<Rightarrow> ty" where
  "ty_PolicyAutomation E = TStruct
     [(''TypeMeta'', ty_TypeMeta),
      (''ObjectMeta'', ty_ObjectMeta E),
      (''Spec'', ty_PolicyAutomationSpec E),
      (''Status'', ty_PolicyAutomationStatus)]"

definition PolicyAutomation_DeepCopyInto :: "foreign \<Rightarrow> copier" where
  "PolicyAutomation_DeepCopyInto E = into
     [(''TypeMeta'', assign),
      (''ObjectMeta'', copy_ObjectMeta E),
      (''Spec'', PolicyAutomationSpec_DeepCopyInto E),
      (''Status'', PolicyAutomationStatus_DeepCopyInto E)]"

definition PolicyAutomation_DeepCopy :: "foreign \<Rightarrow> copier" where
  "PolicyAutomation_DeepCopy E = if_not_nil (new_copy (PolicyAutomation_DeepCopyInto E))"

definition PolicyAutomation_DeepCopyObject :: "foreign \<Rightarrow> copier" where
  "PolicyAutomation_DeepCopyObject E v h =
     (case PolicyAutomation_DeepCopy E v h of (c, h') \<Rightarrow> if c \<noteq> NilRef then (c, h') else (NilRef, h'))"

lemma deep_PolicyAutomation [deep_intros]:
  "foreign_ok E \<Longrightarrow> deep (ty_PolicyAutomation E) (PolicyAutomation_DeepCopyInto E)"
  unfolding ty_PolicyAutomation_def PolicyAutomation_DeepCopyInto_def
  by (rule deep_into) (auto simp: statements_fit_def intro: deep_intros)

section \<open>PolicyAutomationList\<close>

definition ty_PolicyAutomationList :: "foreign \<Rightarrow> ty" where
  "ty_PolicyAutomationList E = TStruct
     [(''TypeMeta'', ty_TypeMeta),
      (''ListMeta'', ty_ListMeta E),
      (''Items'', TSlice (ty_PolicyAutomation E))]"

definition PolicyAutomationList_DeepCopyInto :: "foreign \<Rightarrow> copier" where
  "PolicyAutomationList_DeepCopyInto E = into
     [(''TypeMeta'', assign),
      (''ListMeta'', copy_ListMeta E),
      (''Items'', if_not_nil (make_each (PolicyAutomation_DeepCopyInto E)))]"

definition PolicyAutomationList_DeepCopy :: "foreign \<Rightarrow> copier" where
  "PolicyAutomationList_DeepCopy E = if_not_nil (new_copy (PolicyAutomationList_DeepCopyInto E))"

definition PolicyAutomationList_DeepCopyObject :: "foreign \<Rightarrow> copier" where
  "PolicyAutomationList_DeepCopyObject E v h =
     (case PolicyAutomationList_DeepCopy E v h of (c, h') \<Rightarrow> if c \<noteq> NilRef then (c, h') else (NilRef, h'))"

lemma deep_PolicyAutomationList [deep_intros]:
  "foreign_ok E \<Longrightarrow> deep (ty_PolicyAutomationList E) (PolicyAutomationList_DeepCopyInto E)"
  unfolding ty_PolicyAutomationList_def PolicyAutomationList_DeepCopyInto_def
  by (rule deep_into) (auto simp: statements_fit_def intro: deep_intros)

section \<open>ReplicatedComplianceHistory\<close>

definition ty_ReplicatedComplianceHistory :: "foreign \<Rightarrow> ty" where
  "ty_ReplicatedComplianceHistory E = TStruct
     [(''LastTimestamp'', ty_Time E),
      (''Message'', TBase BString)]"

definition ReplicatedComplianceHistory_DeepCopyInto :: "foreign \<Rightarrow> copier" where
  "ReplicatedComplianceHistory_DeepCopyInto E = into
     [(''LastTimestamp'', copy_Time E)]"

definition ReplicatedComplianceHistory_DeepCopy :: "foreign \<Rightarrow> copier" where
  "ReplicatedComplianceHistory_DeepCopy E = if_not_nil (new_copy (ReplicatedComplianceHistory_DeepCopyInto E))"

lemma deep_ReplicatedComplianceHistory [deep_intros]:
  "foreign_ok E \<Longrightarrow> deep (ty_ReplicatedComplianceHistory E) (ReplicatedComplianceHistory_DeepCopyInto E)"
  unfolding ty_ReplicatedComplianceHistory_def ReplicatedComplianceHistory_DeepCopyInto_def
  by (rule deep_into) (auto simp: statements_fit_def intro: deep_intros)

section \<open>ReplicatedDetailsPerTemplate\<close>

definition ty_ReplicatedDetailsPerTemplate :: "foreign \<Rightarrow> ty" where
  "ty_ReplicatedDetailsPerTemplate E = TStruct
     [(''ComplianceState'', TBase BString),
      (''History'', TSlice (ty_ReplicatedComplianceHistory E))]"

definition ReplicatedDetailsPerTemplate_DeepCopyInto :: "foreign \<Rightarrow> copier" where
  "ReplicatedDetailsPerTemplate_DeepCopyInto E = into
     [(''History'', if_not_nil (make_each (ReplicatedComplianceHistory_DeepCopyInto E)))]"

definition ReplicatedDetailsPerTemplate_DeepCopy :: "foreign \<Rightarrow> copier" where
  "ReplicatedDetailsPerTemplate_DeepCopy E = if_not_nil (new_copy (ReplicatedDetailsPerTemplate_DeepCopyInto E))"

lemma deep_ReplicatedDetailsPerTemplate [deep_intros]:
  "foreign_ok E \<Longrightarrow> deep (ty_ReplicatedDetailsPerTemplate E) (ReplicatedDetailsPerTemplate_DeepCopyInto E)"
  unfolding ty_ReplicatedDetailsPerTemplate_def ReplicatedDetailsPerTemplate_DeepCopyInto_def
  by (rule deep_into) (auto simp: statements_fit_def intro: deep_intros)

section \<open>ReplicatedPolicyStatus\<close>

definition ty_ReplicatedPolicyStatus :: "foreign \<Rightarrow> ty" where
  "ty_ReplicatedPolicyStatus E = TStruct
     [(''ComplianceState'', TBase BString),
      (''ViolationMessage'', TBase BString),
      (''Details'', TSlice (ty_ReplicatedDetailsPerTemplate E))]"

definition ReplicatedPolicyStatus_DeepCopyInto :: "foreign \<Rightarrow> copier" where
  "ReplicatedPolicyStatus_DeepCopyInto E = into
     [(''Details'', if_not_nil (make_each (ReplicatedDetailsPerTemplate_DeepCopyInto E)))]"

definition ReplicatedPolicyStatus_DeepCopy :: "foreign \<Rightarrow> copier" where
  "ReplicatedPolicyStatus_DeepCopy E = if_not_nil (new_copy (ReplicatedPolicyStatus_DeepCopyInto E))"

lemma deep_ReplicatedPolicyStatus [deep_intros]:
  "foreign_ok E \<Longrightarrow> deep (ty_ReplicatedPolicyStatus E) (ReplicatedPolicyStatus_DeepCopyInto E)"
  unfolding ty_ReplicatedPolicyStatus_def ReplicatedPolicyStatus_DeepCopyInto_def
  by (rule deep_into) (auto simp: statements_fit_def intro: deep_intros)

section \<open>ViolationContext\<close>

definition ty_ViolationContext :: "foreign \<Rightarrow> ty" where
  "ty_ViolationContext E = TStruct
     [(''TargetClusters'', TSlice (TBase BString)),
      (''PolicyName'', TBase BString),
      (''PolicyNamespace'', TBase BString),
      (''HubCluster'', TBase BString),
      (''PolicySets'', TSlice (TBase BString)),
      (''PolicyViolations'', TMap (ty_ReplicatedPolicyStatus E))]"

definition ViolationContext_DeepCopyInto :: "foreign \<Rightarrow> copier" where
  "ViolationContext_DeepCopyInto E = into
     [(''TargetClusters'', if_not_nil make_copy),
      (''PolicySets'', if_not_nil make_copy),
      (''PolicyViolations'', if_not_nil (make_map (range_order E) (deref_new (ReplicatedPolicyStatus_DeepCopyInto E))))]"

definition ViolationContext_DeepCopy :: "foreign \<Rightarrow> copier" where
  "ViolationContext_DeepCopy E = if_not_nil (new_copy (ViolationContext_DeepCopyInto E))"

lemma deep_ViolationContext [deep_intros]:
  "foreign_ok E \<Longrightarrow> deep (ty_ViolationContext E) (ViolationContext_DeepCopyInto E)"
  unfolding ty_ViolationContext_def ViolationContext_DeepCopyInto_def
  by (rule deep_into) (auto simp: statements_fit_def intro: deep_intros)

section \<open>All copies\<close>

lemmas v1beta1_copy_defs =
  PolicySetExclusion_DeepCopy_def
  PolicySetSpec_DeepCopy_def
  PolicySetStatusPlacement_DeepCopy_def
  PolicySetStatusExclusion_DeepCopy_def
  PolicySetStatus_DeepCopy_def
  PolicySet_DeepCopy_def
  PolicySet_DeepCopyObject_def
  PolicySetList_DeepCopy_def
  PolicySetList_DeepCopyObject_def
  AutomationDef_DeepCopy_def
  PolicyAutomationSpec_DeepCopy_def
  ClusterEvent_DeepCopy_def
  PolicyAutomationStatus_DeepCopy_def
  PolicyAutomation_DeepCopy_def
  PolicyAutomation_DeepCopyObject_def
  PolicyAutomationList_DeepCopy_def
  PolicyAutomationList_DeepCopyObject_def
  ReplicatedComplianceHistory_DeepCopy_def
  ReplicatedDetailsPerTemplate_DeepCopy_def
  ReplicatedPolicyStatus_DeepCopy_def
  ViolationContext_DeepCopy_def

definition v1beta1_copies :: "foreign \<Rightarrow> (ty \<times> copier) list" where
  "v1beta1_copies E =
     [(TPtr ty_PolicySetExclusion, PolicySetExclusion_DeepCopy),
      (TPtr ty_PolicySetSpec, PolicySetSpec_DeepCopy),
      (TPtr ty_PolicySetStatusPlacement, PolicySetStatusPlacement_DeepCopy),
      (TPtr ty_PolicySetStatusExclusion, PolicySetStatusExclusion_DeepCopy),
      (TPtr ty_PolicySetStatus, PolicySetStatus_DeepCopy),
      (TPtr (ty_PolicySet E), PolicySet_DeepCopy E),
      (TPtr (ty_PolicySet E), PolicySet_DeepCopyObject E),
      (TPtr (ty_PolicySetList E), PolicySetList_DeepCopy E),
      (TPtr (ty_PolicySetList E), PolicySetList_DeepCopyObject E),
      (TPtr (ty_AutomationDef E), AutomationDef_DeepCopy E),
      (TPtr (ty_PolicyAutomationSpec E), PolicyAutomationSpec_DeepCopy E),
      (TPtr ty_ClusterEvent, ClusterEvent_DeepCopy),
      (TPtr ty_PolicyAutomationStatus, PolicyAutomationStatus_DeepCopy E),
      (TPtr (ty_PolicyAutomation E), PolicyAutomation_DeepCopy E),
      (TPtr (ty_PolicyAutomation E), PolicyAutomation_DeepCopyObject E),
      (TPtr (ty_PolicyAutomationList E), PolicyAutomationList_DeepCopy E),
      (TPtr (ty_PolicyAutomationList E), PolicyAutomationList_DeepCopyObject E),
      (TPtr (ty_ReplicatedComplianceHistory E), ReplicatedComplianceHistory_DeepCopy E),
      (TPtr (ty_ReplicatedDetailsPerTemplate E), ReplicatedDetailsPerTemplate_DeepCopy E),
      (TPtr (ty_ReplicatedPolicyStatus E), ReplicatedPolicyStatus_DeepCopy E),
      (TPtr (ty_ViolationContext E), ViolationContext_DeepCopy E)]"

lemma v1beta1_copies_deep:
  assumes "foreign_ok E"
  shows "list_all (\<lambda>(T, f). deep T f) (v1beta1_copies E)"
  using assms unfolding v1beta1_copies_def v1beta1_copy_defs [abs_def]
  by (simp only: list.pred_inject prod.case) (intro conjI TrueI deep_intros)

definition api_copies :: "foreign \<Rightarrow> (ty \<times> copier) list" where
  "api_copies E = v1_copies E @ v1beta1_copies E"

text \<open>
  The contract of a family of copies over a foreign library \<open>E\<close>: equal values in new cells. It
  gives that the types of everything in the heap are kept, and the independence of the two values:
  \<open>writes\<close> assigns cells.
\<close>

definition writes :: "(nat \<times> cell) list \<Rightarrow> heap \<Rightarrow> heap" where
  "writes ws h = fold (\<lambda>(a, x). put a x) ws h"

lemma writes_frame: "lim (writes ws h) = lim h" "b \<notin> fst ` set ws \<Longrightarrow> cells (writes ws h) b = cells h b"
  unfolding writes_def by (induction ws arbitrary: h) auto

definition well_typed :: "heap \<Rightarrow> ty \<Rightarrow> gval \<Rightarrow> bool" where
  "well_typed h T v \<longleftrightarrow> (\<exists>t. rep 0 h T v t)"

locale deep_copies =
  fixes ok :: "'e \<Rightarrow> bool" and copies :: "'e \<Rightarrow> (ty \<times> copier) list"
  assumes all_deep: "ok E \<Longrightarrow> (T, f) \<in> set (copies E) \<Longrightarrow> deep T f"
begin

lemma copy_exact:
  assumes "ok E" and "(T, f) \<in> set (copies E)" and "rep 0 h T v t" and "f v h = (v', h')"
  shows "extends h h'" and "rep (lim h) h' T v' t"
  using deepD [OF all_deep [OF assms(1,2)] assms(3)] assms(4) by auto

lemma copy_typed:
  assumes "ok E" and "(T, f) \<in> set (copies E)" and "well_typed h T v" and "f v h = (v', h')"
  shows "well_typed h' T v'" and "well_typed h T' w \<Longrightarrow> well_typed h' T' w"
proof -
  from assms(3) obtain t where "rep 0 h T v t" by (auto simp: well_typed_def)
  note copy = copy_exact [OF assms(1,2) this assms(4)]
  show "well_typed h' T v'" using copy(2) by (auto simp: well_typed_def elim: rep_frame)
  show "well_typed h' T' w" if "well_typed h T' w"
    using that copy(1) by (auto simp: well_typed_def elim: rep_extends)
qed

lemma copy_keeps_original:
  assumes "ok E" and "(T, f) \<in> set (copies E)" and "rep 0 h T v t" and "f v h = (v', h')"
    and "\<forall>(a, x) \<in> set ws. lim h \<le> a"
  shows "rep 0 (writes ws h') T v t"
  using assms(3)
proof (rule rep_frame)
  have ext: "extends h h'" by (rule copy_exact [OF assms(1-4)])
  then show "lim h \<le> lim (writes ws h')" by (simp add: writes_frame extends_def)
  fix a assume "a < lim h"
  with assms(5) have "a \<notin> fst ` set ws" by fastforce
  with ext \<open>a < lim h\<close> show "cells (writes ws h') a = cells h a"
    by (simp add: writes_frame extends_def)
qed simp

lemma original_keeps_copy:
  assumes "ok E" and "(T, f) \<in> set (copies E)" and "rep 0 h T v t" and "f v h = (v', h')"
    and "\<forall>(a, x) \<in> set ws. a < lim h"
  shows "rep (lim h) (writes ws h') T v' t"
proof (rule rep_frame [OF copy_exact(2) [OF assms(1-4)]])
  fix a assume "lim h \<le> a"
  with assms(5) have "a \<notin> fst ` set ws" by fastforce
  then show "cells (writes ws h') a = cells h' a" by (simp add: writes_frame)
qed (simp_all add: writes_frame)

end

interpretation ac: deep_copies foreign_ok api_copies
proof
  fix E T f assume "foreign_ok E" "(T, f) \<in> set (api_copies E)"
  with v1_copies_deep [of E] v1beta1_copies_deep [of E] show "deep T f"
    by (auto simp: api_copies_def list_all_iff)
qed

section \<open>An example\<close>

text \<open>A foreign library whose metadata have a name and labels.\<close>

definition ex_foreign :: foreign where
  "ex_foreign =
     \<lparr>ty_ObjectMeta = TStruct [(''Name'', TBase BString), (''Labels'', TMap (TBase BString))],
      copy_ObjectMeta = into [(''Labels'', if_not_nil (make_map rev assign))],
      ty_ListMeta = TStruct [(''Continue'', TBase BString)], copy_ListMeta = into [],
      ty_Time = TBase BString, copy_Time = assign,
      ty_RawExtension = TSlice (TBase BInt), copy_RawExtension = if_not_nil make_copy,
      range_order = rev\<rparr>"

lemma ex_foreign_ok: "foreign_ok ex_foreign"
  unfolding foreign_ok_def ex_foreign_def foreign.simps
  by (intro conjI allI deep_intros deep_into) (auto simp: statements_fit_def intro: deep_intros mset_rev)

text \<open>A pointer to an exclusion with one cluster.\<close>

definition ex_exclusion_heap :: heap where
  "ex_exclusion_heap =
     \<lparr>lim = 2, cells = (\<lambda>a. if a = 0 then Arr [Scalar (SString ''c2'')]
        else Obj (Struct [(''PolicyName'', Scalar (SString ''p'')), (''Reason'', Scalar (SString [])),
          (''ClusterNames'', Ref 0)]))\<rparr>"

definition ex_exclusion_tree :: tree where
  "ex_exclusion_tree = TRef (TRec [(''PolicyName'', TScalar (SString ''p'')), (''Reason'', TScalar (SString [])),
     (''ClusterNames'', TArr [TScalar (SString ''c2'')])])"

lemma ex_exclusion_rep:
  "rep 0 ex_exclusion_heap (TPtr ty_PolicySetExclusion) (Ref 1) ex_exclusion_tree"
proof -
  have "rep 0 ex_exclusion_heap (TSlice (TBase BString)) (Ref 0) (TArr [TScalar (SString ''c2'')])"
    by (rule rep_slice [of _ _ _ "[Scalar (SString ''c2'')]"]) (auto simp: ex_exclusion_heap_def intro: rep_base)
  then show ?thesis
    unfolding ex_exclusion_tree_def ty_PolicySetExclusion_def
    by (intro rep_ptr [where v = "Struct [(''PolicyName'', Scalar (SString ''p'')), (''Reason'', Scalar (SString [])),
            (''ClusterNames'', Ref 0)]"] rep_struct_Cons rep_struct_Nil rep_base)
       (auto simp: ex_exclusion_heap_def)
qed

lemma ex_exclusion_copy:
  obtains h' where "PolicySetExclusion_DeepCopy (Ref 1) ex_exclusion_heap = (Ref 2, h')"
  by (simp add: PolicySetExclusion_DeepCopy_def if_not_nil_def new_copy_def ex_exclusion_heap_def alloc_def
      case_prod_beta)

lemma exclusion_copied: "(TPtr ty_PolicySetExclusion, PolicySetExclusion_DeepCopy) \<in> set (api_copies E)"
  by (simp add: api_copies_def v1beta1_copies_def)

section \<open>Properties\<close>



text \<open>C30. The generated copies are deep: a \<^verbatim>\<open>DeepCopy\<close> of an API object has the same value as the
  original, in new cells only, so that no write through the copy changes the original and no write
  through the original changes the copy.\<close>

theorem deep_copy_isolated:
  assumes "foreign_ok E" and "(T, f) \<in> set (api_copies E)" and "rep 0 h T v t" and "f v h = (v', h')"
  shows "rep (lim h) h' T v' t \<and>
    ((\<forall>(a, x) \<in> set ws. lim h \<le> a) \<longrightarrow> rep 0 (writes ws h') T v t) \<and>
    ((\<forall>(a, x) \<in> set ws. a < lim h) \<longrightarrow> rep (lim h) (writes ws h') T v' t)"
  using ac.copy_exact(2) [OF assms] ac.copy_keeps_original [OF assms] ac.original_keeps_copy [OF assms]
  by blast

theorem deep_copy_isolated_witness:
  "\<exists>h'. PolicySetExclusion_DeepCopy (Ref 1) ex_exclusion_heap = (Ref 2, h') \<and>
     rep 2 (writes [(0, Arr [])] h') (TPtr ty_PolicySetExclusion) (Ref 2) ex_exclusion_tree"
proof -
  obtain h' where c: "PolicySetExclusion_DeepCopy (Ref 1) ex_exclusion_heap = (Ref 2, h')"
    by (rule ex_exclusion_copy)
  have lim: "lim ex_exclusion_heap = 2" by (simp add: ex_exclusion_heap_def)
  from deep_copy_isolated [OF ex_foreign_ok exclusion_copied ex_exclusion_rep c, of "[(0, Arr [])]"] c lim
  show ?thesis by auto
qed

end
