(* ===== verification/Automation_Delay.thy ===== *)
theory Automation_Delay
  imports Automation
begin

text \<open>
  Mode \<^verbatim>\<open>everyEvent\<close> of \<^verbatim>\<open>controllers/automation/policyautomation_controller.go\<close>. The controller
  remembers one event per cluster. \<open>event_step\<close> specifies what happens to the event of one cluster,
  and the loop of the source is shown to do exactly that for every cluster (\<open>note_events_fold\<close>,
  \<open>note_events_refines\<close>). Over a run of reconciles (\<open>every_event_run\<close>, by rule induction) two jobs
  for the same cluster are at least the delay apart.
\<close>

section \<open>The event of one cluster\<close>

text \<open>
  What a pass of mode \<^verbatim>\<open>everyEvent\<close> means for one cluster with an event: the job is not due
  (\<open>Keep\<close>), the event is touched because the cluster was compliant within the delay (\<open>Touch\<close>), a
  new violation waits for the end of the delay (\<open>Hold\<close>, with the time to wait), or the event is
  forgotten (\<open>Forget\<close>), so that a violation is handled as a new one.
\<close>

datatype verdict = Keep | Touch | Hold int | Forget

definition delay_until :: "64 word \<Rightarrow> int \<Rightarrow> int" where
  "delay_until delay start = start + wrap64 (sint delay * Second)"

definition event_step :: "crypto_env \<Rightarrow> bool \<Rightarrow> 64 word \<Rightarrow> int \<Rightarrow> ClusterEvent \<Rightarrow> verdict" where
  "event_step cr violated delay now e =
     (let (start, start_ok) = parse_time cr (ce_AutomationStartTime e);
          (seen, seen_ok) = parse_time cr (ce_EventTime e);
          until = delay_until delay start
      in if violated then
           if 0 < delay \<and> start < seen then
             if until < now then Forget else Hold (wrap64 (sat64 (until - now) + 1))
           else if start_ok \<and> seen_ok then Keep else Forget
         else if 0 < delay \<and> now < until then Touch else Forget)"

definition event_after :: "crypto_env \<Rightarrow> int \<Rightarrow> verdict \<Rightarrow> ClusterEvent \<Rightarrow> ClusterEvent option" where
  "event_after cr now v e =
     (case v of Keep \<Rightarrow> Some e | Forget \<Rightarrow> None | _ \<Rightarrow> Some (e\<lparr>ce_EventTime := cr_FormatUTC cr now\<rparr>))"

definition shorter :: "int option \<Rightarrow> verdict \<Rightarrow> int option" where
  "shorter w v =
     (case v of Hold d \<Rightarrow> (case w of None \<Rightarrow> Some d | Some d' \<Rightarrow> Some (if d' = 0 \<or> d < d' then d else d')) | _ \<Rightarrow> w)"

definition ev_wait :: "event_loop \<Rightarrow> int option" where
  "ev_wait l = (if ev_requeueFlag l then Some (ev_requeueDuration l) else None)"

text \<open>One round of the loop on an entry that no earlier round touched.\<close>

lemma map_of_delete_update [simp]:
  "map_of (AList.delete k m) = (map_of m)(k := None)"
  "map_of (AList.update k v m) = (map_of m)(k := Some v)"
  by (simp_all add: delete_conv' update_conv')

lemma note_event_step:
  assumes e: "map_of (ev_eventMap l) cl = Some e" and v: "v = event_step cr (cl \<in> set ts) delay now e"
  shows "map_of (ev_eventMap (note_event cr ts delay now (cl, e) l)) = (map_of (ev_eventMap l))(cl := event_after cr now v e)"
    and "set (ev_trimmedTargetMap (note_event cr ts delay now (cl, e) l)) \<subseteq>
           set (ev_trimmedTargetMap l) \<union> (if v = Forget \<and> cl \<in> set ts then {cl} else {})"
    and "set (ev_trimmedTargetMap l) \<subseteq> set (ev_trimmedTargetMap (note_event cr ts delay now (cl, e) l))"
    and "distinct (ev_trimmedTargetMap (note_event cr ts delay now (cl, e) l)) = distinct (ev_trimmedTargetMap l)"
proof -
  obtain start sok seen ok where p: "parse_time cr (ce_AutomationStartTime e) = (start, sok)"
    "parse_time cr (ce_EventTime e) = (seen, ok)" by fastforce
  note [simp] = note_event_def event_step_def event_after_def delay_until_def p
  show "map_of (ev_eventMap (note_event cr ts delay now (cl, e) l)) = (map_of (ev_eventMap l))(cl := event_after cr now v e)"
    unfolding v using e by (simp add: fun_upd_idem Let_def)
  show "set (ev_trimmedTargetMap (note_event cr ts delay now (cl, e) l)) \<subseteq>
           set (ev_trimmedTargetMap l) \<union> (if v = Forget \<and> cl \<in> set ts then {cl} else {})"
    unfolding v by (simp add: Let_def subset_insertI)
  show "set (ev_trimmedTargetMap l) \<subseteq> set (ev_trimmedTargetMap (note_event cr ts delay now (cl, e) l))"
    by (simp add: Let_def subset_insertI)
  show "distinct (ev_trimmedTargetMap (note_event cr ts delay now (cl, e) l)) = distinct (ev_trimmedTargetMap l)"
    by (simp add: Let_def)
qed

lemma note_event_wait:
  assumes v: "v = event_step cr (cl \<in> set ts) delay now e" and "\<not> ev_requeueFlag l \<longrightarrow> ev_requeueDuration l = 0"
  shows "ev_wait (note_event cr ts delay now (cl, e) l) = shorter (ev_wait l) v"
    and "\<not> ev_requeueFlag (note_event cr ts delay now (cl, e) l) \<longrightarrow> ev_requeueDuration (note_event cr ts delay now (cl, e) l) = 0"
proof -
  obtain start sok seen ok where p: "parse_time cr (ce_AutomationStartTime e) = (start, sok)"
    "parse_time cr (ce_EventTime e) = (seen, ok)" by fastforce
  show "ev_wait (note_event cr ts delay now (cl, e) l) = shorter (ev_wait l) v"
    unfolding v using assms(2)
    by (simp add: note_event_def event_step_def ev_wait_def shorter_def delay_until_def p Let_def)
  show "\<not> ev_requeueFlag (note_event cr ts delay now (cl, e) l) \<longrightarrow> ev_requeueDuration (note_event cr ts delay now (cl, e) l) = 0"
    using assms(2) by (simp add: note_event_def p Let_def)
qed

text \<open>The whole loop: every entry is handled on its own.\<close>

lemma note_event_fold:
  assumes "distinct (map fst es)" and "\<forall>(c, e) \<in> set es. map_of (ev_eventMap l) c = Some e"
    and "\<not> ev_requeueFlag l \<longrightarrow> ev_requeueDuration l = 0"
    and "l' = fold (note_event cr ts delay now) es l"
  shows "map_of (ev_eventMap l') cl =
           (case map_of es cl of None \<Rightarrow> map_of (ev_eventMap l) cl
            | Some e \<Rightarrow> event_after cr now (event_step cr (cl \<in> set ts) delay now e) e)
       \<and> set (ev_trimmedTargetMap l') \<subseteq> set (ev_trimmedTargetMap l) \<union>
           {c \<in> set ts. \<exists>e. map_of es c = Some e \<and> event_step cr True delay now e = Forget}
       \<and> distinct (ev_trimmedTargetMap l') = distinct (ev_trimmedTargetMap l)
       \<and> ev_wait l' = fold (\<lambda>(c, e) w. shorter w (event_step cr (c \<in> set ts) delay now e)) es (ev_wait l)"
  using assms
proof (induction es arbitrary: l)
  case Nil
  then show ?case by simp
next
  case (Cons ce es)
  obtain c e where ce: "ce = (c, e)" by fastforce
  let ?l = "note_event cr ts delay now (c, e) l"
  from Cons.prems ce have e: "map_of (ev_eventMap l) c = Some e" and fresh: "c \<notin> fst ` set es" by auto
  note step = note_event_step [OF e refl, of cr ts delay now]
  have m: "\<forall>(c', e') \<in> set es. map_of (ev_eventMap ?l) c' = Some e'"
    using Cons.prems(2) fresh ce step(1) by force
  have d: "distinct (map fst es)" using Cons.prems(1) by simp
  have f: "l' = fold (note_event cr ts delay now) es ?l" using Cons.prems(4) ce by simp
  note IH = Cons.IH [OF d m note_event_wait(2) [OF refl Cons.prems(3)] f]
  have "map_of es c = None" using fresh by (simp add: map_of_eq_None_iff)
  with IH step(1) have 1: "map_of (ev_eventMap l') cl = (case map_of (ce # es) cl of None \<Rightarrow> map_of (ev_eventMap l) cl
            | Some e \<Rightarrow> event_after cr now (event_step cr (cl \<in> set ts) delay now e) e)"
    by (auto simp: ce split: option.splits)
  have 2: "set (ev_trimmedTargetMap l') \<subseteq> set (ev_trimmedTargetMap l) \<union>
           {c \<in> set ts. \<exists>e. map_of (ce # es) c = Some e \<and> event_step cr True delay now e = Forget}"
    using IH step(2) \<open>map_of es c = None\<close> by (auto simp: ce split: if_splits)
  from 1 2 IH step(4) note_event_wait(1) [OF refl Cons.prems(3), of cr ts delay now c e] show ?case
    by (simp add: ce)
qed

lemma note_events_fold:
  assumes "distinct (map fst ev)"
  shows "map_of (ev_eventMap (note_events cr ts delay now ev)) cl =
           Option.bind (map_of ev cl) (\<lambda>e. event_after cr now (event_step cr (cl \<in> set ts) delay now e) e)"
    and "set (ev_trimmedTargetMap (note_events cr ts delay now ev)) \<subseteq>
           {c \<in> set ts. \<exists>e. map_of ev c = Some e \<and> event_step cr True delay now e = Forget}"
    and "distinct (ev_trimmedTargetMap (note_events cr ts delay now ev))"
    and "ev_wait (note_events cr ts delay now ev) =
           fold (\<lambda>(c, e) w. shorter w (event_step cr (c \<in> set ts) delay now e)) ev None"
  using note_event_fold [OF assms, of "\<lparr>ev_eventMap = ev, ev_trimmedTargetMap = [], ev_requeueFlag = False, ev_requeueDuration = 0\<rparr>"
      "note_events cr ts delay now ev" cr ts delay now cl] assms
  by (auto simp: note_events_def ev_wait_def split: option.splits)

text \<open>A cluster is a target exactly when it violates the policy and has no event after the loop.\<close>

lemma event_after_None [simp]: "event_after cr now v e = None \<longleftrightarrow> v = Forget"
  by (cases v) (simp_all add: event_after_def)

lemma bind_None_iff: "Option.bind x f = None \<longleftrightarrow> (\<forall>e. x = Some e \<longrightarrow> f e = None)"
  by (cases x) simp_all

lemma set_fold_targets:
  "set (fold (\<lambda>c acc. if P c then add_key c acc else acc) ts acc) = set acc \<union> {c \<in> set ts. P c}"
  "distinct acc \<Longrightarrow> distinct (fold (\<lambda>c acc. if P c then add_key c acc else acc) ts acc)"
  by (induction ts arbitrary: acc) auto

lemma note_events_refines:
  assumes "distinct (map fst ev)"
  shows "set (trimmed_targets ts (note_events cr ts delay now ev)) =
           {c \<in> set ts. \<forall>e. map_of ev c = Some e \<longrightarrow> event_step cr True delay now e = Forget}"
    and "distinct (trimmed_targets ts (note_events cr ts delay now ev))"
proof -
  note fold = note_events_fold [OF assms, of cr ts delay now]
  show "set (trimmed_targets ts (note_events cr ts delay now ev)) =
           {c \<in> set ts. \<forall>e. map_of ev c = Some e \<longrightarrow> event_step cr True delay now e = Forget}"
    using fold(2) by (auto simp: trimmed_targets_def set_fold_targets fold(1) bind_None_iff)
  show "distinct (trimmed_targets ts (note_events cr ts delay now ev))"
    using fold(3) by (simp add: trimmed_targets_def set_fold_targets)
qed

section \<open>The delay between two jobs for a cluster\<close>

text \<open>RFC 3339 without fractions cuts a time to the second.\<close>

definition whole_second :: "int \<Rightarrow> int" where
  "whole_second t = t - t mod Second"

lemma whole_second_mono: "t \<le> t' \<Longrightarrow> whole_second t \<le> whole_second t'"
  by (simp add: whole_second_def minus_mod_eq_div_mult zdiv_mono1 Second_def)

lemma whole_second_le: "whole_second t \<le> t"
  by (simp add: whole_second_def Second_def)

definition rfc3339 :: "crypto_env \<Rightarrow> bool" where
  "rfc3339 cr \<longleftrightarrow> (\<forall>t. 0 \<le> t \<longrightarrow> t < 2 ^ 63 \<longrightarrow> cr_Parse cr (cr_FormatUTC cr t) = Inr (whole_second t))"

text \<open>
  The log of created jobs with the time of their creation and the stored events of a
  PolicyAutomation, as functions of the world: what a create and a status update do to them.
\<close>

definition automation_store ::
  "'k automation_env \<Rightarrow> ('k \<Rightarrow> (AnsibleJob \<times> int) list) \<Rightarrow> ('k \<Rightarrow> (string \<times> ClusterEvent) list) \<Rightarrow> bool" where
  "automation_store env log events \<longleftrightarrow>
     (\<forall>ns aj k k'. Create_AnsibleJob env ns aj k = (None, k') \<longrightarrow>
        log k' = (aj, Now (au_api env) k') # log k \<and> events k' = events k \<and> Now (au_api env) k \<le> Now (au_api env) k') \<and>
     (\<forall>pa k k'. UpdateStatus_PolicyAutomation env pa k = (None, k') \<longrightarrow>
        log k' = log k \<and> events k' = pas_ClustersWithEvent (pa_Status pa) \<and> Now (au_api env) k \<le> Now (au_api env) k')"

inductive every_event_run ::
  "'k automation_env \<Rightarrow> ('k \<Rightarrow> (AnsibleJob \<times> int) list) \<Rightarrow> ('k \<Rightarrow> (string \<times> ClusterEvent) list) \<Rightarrow> 64 word \<Rightarrow>
   'k \<Rightarrow> bool" for env log events delay where
  start: "log k = [] \<Longrightarrow> distinct (map fst (events k)) \<Longrightarrow> 0 \<le> Now (au_api env) k \<Longrightarrow>
    every_event_run env log events delay k"
| wait: "every_event_run env log events delay k \<Longrightarrow> log k' = log k \<Longrightarrow> events k' = events k \<Longrightarrow>
    Now (au_api env) k \<le> Now (au_api env) k' \<Longrightarrow> every_event_run env log events delay k'"
| pass: "every_event_run env log events delay (aus_world s) \<Longrightarrow>
    pas_ClustersWithEvent (pa_Status pa) = events (aus_world s) \<Longrightarrow> as_DelayAfterRunSeconds (pa_Spec pa) = delay \<Longrightarrow>
    reconcile_every_event env pa policy s = ((r, None), s') \<Longrightarrow>
    every_event_run env log events delay (aus_world s')"

text \<open>The delay as a number, and the event of a job that still guards it.\<close>

definition pause :: "64 word \<Rightarrow> int" where
  "pause delay = int (unat delay) * Second"

definition guards :: "crypto_env \<Rightarrow> int \<Rightarrow> int \<Rightarrow> ClusterEvent \<Rightarrow> bool" where
  "guards cr t now e \<longleftrightarrow>
     (\<exists>start seen. cr_Parse cr (ce_AutomationStartTime e) = Inr start \<and> cr_Parse cr (ce_EventTime e) = Inr seen \<and>
        whole_second t \<le> start \<and> start \<le> now)"

lemma delay_until_pause:
  assumes "pause delay < 2 ^ 63"
  shows "delay_until delay start = start + pause delay"
proof -
  have "int (unat delay) < 2 ^ 63" using assms by (simp add: pause_def Second_def)
  then have "sint delay = int (unat delay)"
    using order_trans [of "- (2 ^ 63)" 0 "uint delay"] by (simp add: sint_uint signed_take_bit_int_eq_self)
  moreover have "0 \<le> pause delay" by (simp add: pause_def Second_def)
  then have "wrap64 (pause delay) = pause delay" using assms by (intro wrap64_id) simp_all
  ultimately show ?thesis by (simp add: delay_until_def pause_def)
qed

lemma forget_after_pause:
  assumes "guards cr t now e" and "pause delay < 2 ^ 63" and "event_step cr b delay now e = Forget"
  shows "whole_second t + pause delay \<le> now"
  using assms
  by (auto simp: guards_def event_step_def parse_time_def delay_until_pause Let_def pause_def word_gt_0 split: if_splits)

lemma guards_event_after:
  assumes "rfc3339 cr" and "guards cr t now e" and "event_after cr now (event_step cr b delay now e) e = Some e'"
    and "0 \<le> now" and "now < 2 ^ 63"
  shows "guards cr t now e'"
  using assms by (auto simp: guards_def event_after_def rfc3339_def split: verdict.splits)

text \<open>The shape of a pass without error.\<close>

lemma reconcile_every_event_pass:
  assumes "reconcile_every_event env pa policy s = ((r, None), s')"
  defines "ts \<equiv> FindNonCompliantClustersForPolicy policy" and "k \<equiv> aus_world s"
  defines "now \<equiv> Now (au_api env) k"
  defines "l \<equiv> note_events (au_crypto env) ts (as_DelayAfterRunSeconds (pa_Spec pa)) now (pas_ClustersWithEvent (pa_Status pa))"
  defines "due \<equiv> trimmed_targets ts l"
  obtains (job) k1 where "due \<noteq> []"
    "CreateAnsibleJob env pa EveryEvent (getViolationContext env policy (au_order env due) pa k) k = (None, k1)"
    "UpdateStatus_PolicyAutomation env (pa\<lparr>pa_Status := \<lparr>pas_ClustersWithEvent =
       record_events (au_crypto env) (au_order env due) (Now (au_api env) k1) now (ev_eventMap l)\<rparr>\<rparr>) k1 = (None, aus_world s')"
  | (no_job) "due = []"
    "UpdateStatus_PolicyAutomation env (pa\<lparr>pa_Status := \<lparr>pas_ClustersWithEvent = ev_eventMap l\<rparr>\<rparr>) k = (None, aus_world s')"
  using assms(1) unfolding assms(2-6)
  by (auto simp: reconcile_every_event_def Let_def split: if_splits option.splits prod.splits)

lemma every_event_pass_time:
  assumes store: "automation_store env log events" and pass: "reconcile_every_event env pa policy s = ((r, None), s')"
  shows "Now (au_api env) (aus_world s) \<le> Now (au_api env) (aus_world s')"
  using pass
proof (cases rule: reconcile_every_event_pass)
  case (job k1)
  from CreateAnsibleJob_targets [OF job(2)] obtain aj where
    "Create_AnsibleJob env (pa_Namespace pa) aj (aus_world s) = (None, k1)" by blast
  with store have "Now (au_api env) (aus_world s) \<le> Now (au_api env) k1" by (simp add: automation_store_def)
  also from store job(3) have "\<dots> \<le> Now (au_api env) (aus_world s')" unfolding automation_store_def by blast
  finally show ?thesis .
next
  case no_job
  with store show ?thesis unfolding automation_store_def by blast
qed

lemma record_events_lookup:
  "map_of (record_events cr ts start now ev) c =
     (if c \<in> set ts then Some \<lparr>ce_AutomationStartTime = cr_FormatUTC cr start, ce_EventTime = cr_FormatUTC cr now\<rparr>
      else map_of ev c)"
  unfolding record_events_def by (induction ts arbitrary: ev) auto

lemma distinct_record_events: "distinct (map fst ev) \<Longrightarrow> distinct (map fst (record_events cr ts start now ev))"
  unfolding record_events_def by (induction ts arbitrary: ev) (simp_all add: distinct_update)

lemma distinct_note_event:
  "distinct (map fst (ev_eventMap l)) \<Longrightarrow> distinct (map fst (ev_eventMap (note_event cr ts delay now x l)))"
  by (cases x) (simp add: note_event_def Let_def distinct_update distinct_delete split: prod.splits)

lemma distinct_note_events:
  "distinct (map fst ev) \<Longrightarrow> distinct (map fst (ev_eventMap (note_events cr ts delay now ev)))"
proof -
  have "distinct (map fst (ev_eventMap l)) \<Longrightarrow> distinct (map fst (ev_eventMap (fold (note_event cr ts delay now) es l)))" for es l
    by (induction es arbitrary: l) (simp_all add: distinct_note_event)
  then show "distinct (map fst ev) \<Longrightarrow> ?thesis" by (simp add: note_events_def)
qed

text \<open>
  The invariant of a run: for every job, either its targets still have an event that guards the
  delay, or the delay is over.
\<close>

definition job_guarded :: "crypto_env \<Rightarrow> 64 word \<Rightarrow> int \<Rightarrow> (string \<rightharpoonup> ClusterEvent) \<Rightarrow> AnsibleJob \<times> int \<Rightarrow> bool" where
  "job_guarded cr delay now ev j \<longleftrightarrow>
     (\<forall>c \<in> job_targets (fst j). (\<exists>e. ev c = Some e \<and> guards cr (snd j) now e) \<or> whole_second (snd j) + pause delay \<le> now)"

abbreviation apart :: "64 word \<Rightarrow> AnsibleJob \<times> int \<Rightarrow> AnsibleJob \<times> int \<Rightarrow> bool" where
  "apart delay later earlier \<equiv>
     (\<forall>c \<in> job_targets (fst later) \<inter> job_targets (fst earlier). whole_second (snd earlier) + pause delay \<le> snd later)"

lemma job_guarded_mono: "job_guarded cr delay now ev j \<Longrightarrow> now \<le> now' \<Longrightarrow> job_guarded cr delay now' ev j"
  unfolding job_guarded_def guards_def by (meson order_trans)

lemma job_guarded_loop:
  assumes "job_guarded cr delay now (map_of ev) j" and "distinct (map fst ev)" and "rfc3339 cr"
    and "pause delay < 2 ^ 63" and "0 \<le> now" and "now < 2 ^ 63"
  shows "job_guarded cr delay now (map_of (ev_eventMap (note_events cr ts delay now ev))) j"
  unfolding job_guarded_def
proof
  fix c assume c: "c \<in> job_targets (fst j)"
  show "(\<exists>e. map_of (ev_eventMap (note_events cr ts delay now ev)) c = Some e \<and> guards cr (snd j) now e) \<or>
      whole_second (snd j) + pause delay \<le> now"
  proof (cases "whole_second (snd j) + pause delay \<le> now")
    case False
    with assms(1) c obtain e where e: "map_of ev c = Some e" "guards cr (snd j) now e"
      by (auto simp: job_guarded_def)
    let ?v = "event_step cr (c \<in> set ts) delay now e"
    have "?v \<noteq> Forget" using forget_after_pause [OF e(2) assms(4)] False by blast
    then obtain e' where "event_after cr now ?v e = Some e'"
      by (metis event_after_None option.exhaust)
    with guards_event_after [OF assms(3) e(2) this assms(5,6)] show ?thesis
      by (simp add: note_events_fold(1) [OF assms(2)] e(1))
  qed simp
qed

text \<open>A cluster that is due is not guarded any more.\<close>

lemma due_after_pause:
  assumes "job_guarded cr delay now (map_of ev) j" and "distinct (map fst ev)" and "pause delay < 2 ^ 63"
    and "c \<in> set (trimmed_targets ts (note_events cr ts delay now ev))" and "c \<in> job_targets (fst j)"
  shows "whole_second (snd j) + pause delay \<le> now"
  using assms(1,4,5) forget_after_pause [OF _ assms(3)]
  by (auto simp: job_guarded_def note_events_refines(1) [OF assms(2)])

lemma job_guarded_record:
  assumes "job_guarded cr delay now (map_of ev) j" and "rfc3339 cr" and "0 \<le> now" and "now \<le> start" and "start < 2 ^ 63"
    and "snd j \<le> now"
  shows "job_guarded cr delay start (map_of (record_events cr ts start now ev)) j"
  using assms whole_second_mono [of "snd j" start] whole_second_le [of start]
  by (auto simp: job_guarded_def record_events_lookup guards_def rfc3339_def)

text \<open>One pass keeps the invariant; \<open>j\<close> ranges over the jobs before the pass.\<close>

definition run_inv ::
  "'k automation_env \<Rightarrow> ('k \<Rightarrow> (AnsibleJob \<times> int) list) \<Rightarrow> ('k \<Rightarrow> (string \<times> ClusterEvent) list) \<Rightarrow> 64 word \<Rightarrow> 'k \<Rightarrow> bool" where
  "run_inv env log events delay k \<longleftrightarrow>
     distinct (map fst (events k)) \<and> 0 \<le> Now (au_api env) k \<and>
     (\<forall>j \<in> set (log k). snd j \<le> Now (au_api env) k \<and>
        job_guarded (au_crypto env) delay (Now (au_api env) k) (map_of (events k)) j) \<and>
     sorted_wrt (apart delay) (log k)"

lemma run_inv_pass:
  assumes inv: "run_inv env log events delay (aus_world s)" and cr: "rfc3339 (au_crypto env)"
    and store: "automation_store env log events" and pause: "pause delay < 2 ^ 63"
    and order: "\<forall>xs. set (au_order env xs) = set xs"
    and pa: "pas_ClustersWithEvent (pa_Status pa) = events (aus_world s)" "as_DelayAfterRunSeconds (pa_Spec pa) = delay"
    and pass: "reconcile_every_event env pa policy s = ((r, None), s')" and bound: "Now (au_api env) (aus_world s') < 2 ^ 63"
  shows "run_inv env log events delay (aus_world s')"
proof -
  let ?cr = "au_crypto env" and ?now = "Now (au_api env) (aus_world s)" and ?now' = "Now (au_api env) (aus_world s')"
  let ?ts = "FindNonCompliantClustersForPolicy policy"
  let ?l = "note_events ?cr ?ts delay ?now (events (aus_world s))"
  from inv have d: "distinct (map fst (events (aus_world s)))" and now: "0 \<le> ?now"
    and g: "\<And>j. j \<in> set (log (aus_world s)) \<Longrightarrow> snd j \<le> ?now"
      "\<And>j. j \<in> set (log (aus_world s)) \<Longrightarrow> job_guarded ?cr delay ?now (map_of (events (aus_world s))) j"
    and a: "sorted_wrt (apart delay) (log (aus_world s))"
    by (auto simp: run_inv_def)
  have le: "snd j \<le> ?now'" if "j \<in> set (log (aus_world s))" for j
    using g(1) [OF that] every_event_pass_time [OF store pass] by simp
  have kept: "job_guarded ?cr delay ?now (map_of (ev_eventMap ?l)) j" if "j \<in> set (log (aus_world s))" "?now < 2 ^ 63" for j
    using job_guarded_loop [OF g(2) [OF that(1)] d cr pause now that(2)] .
  from pass show ?thesis
  proof (cases rule: reconcile_every_event_pass)
    case (job k1)
    let ?due = "trimmed_targets ?ts ?l" and ?start = "Now (au_api env) k1"
    let ?ev = "record_events ?cr (au_order env ?due) ?start ?now (ev_eventMap ?l)"
    obtain aj where
      aj: "Create_AnsibleJob env (pa_Namespace pa) aj (aus_world s) = (None, k1)" "job_targets aj \<subseteq> set ?due"
      using CreateAnsibleJob_targets [OF job(2)] unfolding pa order [rule_format] by blast
    from store aj(1) have k1: "log k1 = (aj, ?start) # log (aus_world s)" "?now \<le> ?start"
      by (auto simp: automation_store_def)
    from store job(3) pa have k2: "log (aus_world s') = log k1" "events (aus_world s') = ?ev" "?start \<le> ?now'"
      by (fastforce simp: automation_store_def)+
    have b: "?start < 2 ^ 63" "?now < 2 ^ 63" using k1 k2 bound by auto
    have old: "job_guarded ?cr delay ?start (map_of ?ev) j" if "j \<in> set (log (aus_world s))" for j
      using job_guarded_record [OF kept [OF that b(2)] cr now k1(2) b(1) g(1) [OF that]] .
    have new: "job_guarded ?cr delay ?start (map_of ?ev) (aj, ?start)"
      using aj(2) order cr now k1(2) b whole_second_le [of ?start]
      by (auto simp: job_guarded_def record_events_lookup guards_def rfc3339_def)
    have "apart delay (aj, ?start) j" if "j \<in> set (log (aus_world s))" for j
      using due_after_pause [OF g(2) [OF that] d pause] aj(2) k1(2) by force
    with a old new k1 k2 le now d show ?thesis
      by (auto simp: run_inv_def distinct_record_events distinct_note_events intro: job_guarded_mono)
  next
    case no_job
    with store pa have k2: "log (aus_world s') = log (aus_world s)" "events (aus_world s') = ev_eventMap ?l" "?now \<le> ?now'"
      by (fastforce simp: automation_store_def)+
    with a kept le now d bound show ?thesis
      by (auto simp: run_inv_def distinct_note_events intro: job_guarded_mono)
  qed
qed

lemma every_event_run_inv:
  assumes "every_event_run env log events delay k" and "rfc3339 (au_crypto env)" and "automation_store env log events"
    and "pause delay < 2 ^ 63" and "\<forall>xs. set (au_order env xs) = set xs" and "Now (au_api env) k < 2 ^ 63"
  shows "run_inv env log events delay k"
  using assms(1,6)
proof (induction rule: every_event_run.induct)
  case (start k)
  then show ?case by (simp add: run_inv_def)
next
  case (wait k k')
  then show ?case by (auto simp: run_inv_def intro: job_guarded_mono)
next
  case (pass s pa policy r s')
  have "Now (au_api env) (aus_world s) < 2 ^ 63"
    using every_event_pass_time [OF assms(3) pass.hyps(4)] pass.prems by simp
  with pass.IH have "run_inv env log events delay (aus_world s)" by simp
  from run_inv_pass [OF this assms(2-5) pass.hyps(2-4) pass.prems] show ?case .
qed


section \<open>Properties\<close>

lemma wait_not_zero: "0 \<le> x \<Longrightarrow> wrap64 (sat64 x + 1) \<noteq> 0"
proof -
  assume "0 \<le> x"
  then consider "sat64 x + 1 < 2 ^ 63" "0 < sat64 x + 1" | "sat64 x + 1 = 2 ^ 63" by (fastforce simp: sat64_def)
  then show ?thesis by cases (simp_all add: wrap64_id, simp add: wrap64_def)
qed

lemma Hold_not_zero: "event_step cr b delay now e \<noteq> Hold 0"
  using wait_not_zero by (auto simp: event_step_def Let_def split: prod.splits)

text \<open>The waits among the verdicts.\<close>

definition waits :: "verdict list \<Rightarrow> int set" where
  "waits vs = {d. Hold d \<in> set vs}"

lemma waits_simps: "waits [] = {}" "waits (v # vs) = (case v of Hold d \<Rightarrow> insert d (waits vs) | _ \<Rightarrow> waits vs)"
  by (auto simp: waits_def split: verdict.splits)

lemma finite_waits: "finite (waits vs)"
  by (induction vs) (auto simp: waits_simps split: verdict.splits)

lemma Min_min: "finite S \<Longrightarrow> Min (insert (min d a) S) = Min (insert d (insert a S))" for a d :: int
  by (cases "S = {}") (simp_all add: min.assoc)

lemma fold_shorter_Min:
  assumes "\<forall>v \<in> set vs. v \<noteq> Hold 0" and "w \<noteq> Some 0"
  shows "fold (\<lambda>v w. shorter w v) vs w =
    (if waits vs \<union> set_option w = {} then None else Some (Min (waits vs \<union> set_option w)))"
  using assms
proof (induction vs arbitrary: w)
  case Nil
  then show ?case by (cases w) (simp_all add: waits_simps)
next
  case (Cons v vs)
  show ?case
  proof (cases v)
    case (Hold d)
    have "shorter w v = Some (case w of None \<Rightarrow> d | Some a \<Rightarrow> min d a)" and "shorter w v \<noteq> Some 0"
      using Cons.prems Hold by (auto simp: shorter_def min_def split: option.splits)
    with Cons.IH [of "shorter w v"] Cons.prems(1) show ?thesis
      by (cases w) (simp_all add: waits_simps Hold Min_min finite_waits insert_commute)
  qed (use Cons in \<open>simp_all add: shorter_def waits_simps\<close>)
qed

lemma note_events_wait:
  assumes "distinct (map fst ev)"
  shows "ev_wait (note_events cr ts delay now ev) =
    (let ws = waits (map (\<lambda>(c, e). event_step cr (c \<in> set ts) delay now e) ev) in if ws = {} then None else Some (Min ws))"
proof -
  let ?vs = "map (\<lambda>(c, e). event_step cr (c \<in> set ts) delay now e) ev"
  have "fold (\<lambda>(c, e) w. shorter w (event_step cr (c \<in> set ts) delay now e)) es w =
      fold (\<lambda>v w. shorter w v) (map (\<lambda>(c, e). event_step cr (c \<in> set ts) delay now e) es) w" for es w
    by (induction es arbitrary: w) auto
  moreover have "\<forall>v \<in> set ?vs. v \<noteq> Hold 0" by (auto simp: Hold_not_zero)
  ultimately show ?thesis
    using fold_shorter_Min [of ?vs None] note_events_fold(4) [OF assms, of cr ts delay now] by (simp add: Let_def)
qed

text \<open>C16. The loop of mode \<^verbatim>\<open>everyEvent\<close> handles every cluster on its own, as \<open>event_step\<close> says: an event
  is kept, touched or forgotten, the clusters that get a job are exactly the violating ones without an
  event after that, each once, and the controller comes back after the shortest of the waits.\<close>

theorem event_loop_refines:
  assumes "distinct (map fst ev)" and "l = note_events cr ts delay now ev"
  shows "map_of (ev_eventMap l) =
           (\<lambda>c. Option.bind (map_of ev c) (\<lambda>e. event_after cr now (event_step cr (c \<in> set ts) delay now e) e))
    \<and> set (trimmed_targets ts l) = {c \<in> set ts. \<forall>e. map_of ev c = Some e \<longrightarrow> event_step cr True delay now e = Forget}
    \<and> distinct (trimmed_targets ts l)
    \<and> (let ws = waits (map (\<lambda>(c, e). event_step cr (c \<in> set ts) delay now e) ev) in
        if ev_requeueFlag l then ws \<noteq> {} \<and> ev_requeueDuration l = Min ws else ws = {})"
  using note_events_fold(1) [OF assms(1), of cr ts delay now] note_events_refines [OF assms(1), of ts cr delay now]
    note_events_wait [OF assms(1), of cr ts delay now] assms(2)
  by (auto simp: ev_wait_def Let_def split: if_splits)

definition ex_events :: "(string \<times> ClusterEvent) list" where
  "ex_events =
     [(''c1'', \<lparr>ce_AutomationStartTime = digits 100, ce_EventTime = digits 120\<rparr>),
      (''c2'', \<lparr>ce_AutomationStartTime = digits 10, ce_EventTime = digits 10\<rparr>),
      (''c3'', \<lparr>ce_AutomationStartTime = digits 10, ce_EventTime = digits 30\<rparr>)]"

lemma ex_rfc3339: "rfc3339 ex_clock"
  by (simp add: rfc3339_def ex_clock_def whole_second_def minus_mod_eq_div_mult Second_def)

text \<open>At second 130 with a delay of a minute, \<^verbatim>\<open>c1\<close> waits, \<^verbatim>\<open>c2\<close> never recovered, \<^verbatim>\<open>c3\<close> and \<^verbatim>\<open>c4\<close> are due.\<close>

theorem event_loop_refines_witness:
  "set (trimmed_targets [''c1'', ''c2'', ''c3'', ''c4'']
     (note_events ex_clock [''c1'', ''c2'', ''c3'', ''c4''] 60 (130 * Second) ex_events)) = {''c3'', ''c4''}"
proof -
  have d: "distinct (map fst ex_events)" by (simp add: ex_events_def)
  have "event_step ex_clock True 60 (130 * Second) \<lparr>ce_AutomationStartTime = digits 100, ce_EventTime = digits 120\<rparr> \<noteq> Forget"
    "event_step ex_clock True 60 (130 * Second) \<lparr>ce_AutomationStartTime = digits 10, ce_EventTime = digits 10\<rparr> \<noteq> Forget"
    "event_step ex_clock True 60 (130 * Second) \<lparr>ce_AutomationStartTime = digits 10, ce_EventTime = digits 30\<rparr> = Forget"
    by (simp_all add: event_step_def parse_time_def ex_clock_def delay_until_def wrap64_def Second_def)
  then show ?thesis
    using event_loop_refines [OF d refl, of ex_clock "[''c1'', ''c2'', ''c3'', ''c4'']" 60 "130 * Second"]
    by (simp add: ex_events_def) blast
qed


definition ex_log :: "ex_world \<Rightarrow> (AnsibleJob \<times> int) list" where
  "ex_log k = map snd (ew_jobs k)"

lemma ex_automation_store: "automation_store (ex_automation_env c ok) ex_log ew_events"
  by (auto simp: automation_store_def ex_automation_env_def ex_log_def ex_world_api_def)

definition ex_pass :: "Policy \<Rightarrow> int \<Rightarrow> ex_world \<Rightarrow> ex_world automation_out" where
  "ex_pass policy t w = reconcile_every_event (ex_automation_env ex_reader True)
     (ex_automation\<lparr>pa_Status := \<lparr>pas_ClustersWithEvent = ew_events w\<rparr>\<rparr>) policy
     \<lparr>aus_world = w\<lparr>ew_time := t\<rparr>, aus_counter = 0\<rparr>"

lemma ex_pass_run:
  assumes "every_event_run (ex_automation_env ex_reader True) ex_log ew_events 60 w" and "ew_time w \<le> t"
    and "ex_pass policy t w = ((r, None), s')"
  shows "every_event_run (ex_automation_env ex_reader True) ex_log ew_events 60 (aus_world s')"
proof -
  have "every_event_run (ex_automation_env ex_reader True) ex_log ew_events 60 (w\<lparr>ew_time := t\<rparr>)"
    by (rule every_event_run.wait [OF assms(1)]) (use assms(2) in \<open>simp_all add: ex_log_def ex_automation_env_def ex_world_api_def\<close>)
  then show ?thesis
    by (intro every_event_run.pass [OF _ _ _ assms(3) [unfolded ex_pass_def]]) (simp_all add: ex_automation_def)
qed

lemmas ex_pass_simps = ex_pass_def reconcile_every_event_def note_events_def note_event_def trimmed_targets_def
  record_events_def CreateAnsibleJob_def parse_time_def ex_clock_def ex_automation_env_def ex_world_api_def ex_automation_def
  FindNonCompliantClustersForPolicy_def items_def add_key_def

lemma ex_violated_pass:
  "\<exists>aj. ex_pass ex_violated t \<lparr>ew_time = t0, ew_jobs = js, ew_events = []\<rparr> = ((Result_zero, None),
     \<lparr>aus_world = \<lparr>ew_time = t, ew_jobs = (''ns'', aj, t) # js, ew_events =
        [(''c1'', \<lparr>ce_AutomationStartTime = digits (nat (t div Second)), ce_EventTime = digits (nat (t div Second))\<rparr>)]\<rparr>,
      aus_counter = 0\<rparr>) \<and> ''c1'' \<in> job_targets aj"
  by (simp add: ex_pass_simps ex_violated_def ex_objects NonCompliant_def getViolationContext_def getClusterDNSName_def
      job_targets_def ansible_job_def context_vars_def ex_reader_def Let_def)

text \<open>A job at second 100, the cluster is compliant at second 200 and violates again at second 210.\<close>

lemma ex_compliant_pass:
  "ex_pass ex_root (200 * Second) \<lparr>ew_time = 100 * Second, ew_jobs = js, ew_events =
        [(''c1'', \<lparr>ce_AutomationStartTime = digits 100, ce_EventTime = digits 100\<rparr>)]\<rparr> =
     ((Result_zero, None), \<lparr>aus_world = \<lparr>ew_time = 200 * Second, ew_jobs = js, ew_events = []\<rparr>, aus_counter = 0\<rparr>)"
  by (simp add: ex_pass_simps ex_objects wrap64_def Second_def Let_def)


text \<open>An event whose times the controller wrote, at times that have passed.\<close>

definition past_event :: "crypto_env \<Rightarrow> int \<Rightarrow> ClusterEvent \<Rightarrow> bool" where
  "past_event cr now e \<longleftrightarrow>
     (\<exists>start seen. cr_Parse cr (ce_AutomationStartTime e) = Inr start \<and> cr_Parse cr (ce_EventTime e) = Inr seen \<and>
        start \<le> now \<and> seen \<le> whole_second now)"

lemma held_event_due:
  assumes "rfc3339 cr" and "past_event cr now e" and "pause delay < 2 ^ 63 - 1" and "0 \<le> now" and "now < 2 ^ 63"
    and "event_step cr True delay now e = Hold d" and "now + d \<le> now'"
  shows "0 < d" and "event_step cr True delay now' (e\<lparr>ce_EventTime := cr_FormatUTC cr now\<rparr>) = Forget"
proof -
  from assms(2) obtain start seen where
    p: "cr_Parse cr (ce_AutomationStartTime e) = Inr start" "cr_Parse cr (ce_EventTime e) = Inr seen"
    and le: "start \<le> now" "seen \<le> whole_second now" by (auto simp: past_event_def)
  have u: "delay_until delay start = start + pause delay" using assms(3) by (intro delay_until_pause) simp
  from assms(6) p u have c: "0 < delay" "start < seen" "now \<le> start + pause delay"
    and d: "d = wrap64 (sat64 (start + pause delay - now) + 1)"
    by (auto simp: event_step_def parse_time_def Let_def split: if_splits)
  have "d = start + pause delay - now + 1" using d c le assms(3) by (simp add: sat64_id wrap64_id)
  with c assms(7) show "0 < d" and "event_step cr True delay now' (e\<lparr>ce_EventTime := cr_FormatUTC cr now\<rparr>) = Forget"
    using assms(1,4,5) p u le by (simp_all add: event_step_def parse_time_def rfc3339_def)
qed

text \<open>A violation that the delay holds back is not forgotten: when the controller asks to come back
  after some time, then at that time, or later, a cluster that waited and still violates the policy
  gets its job.\<close>

theorem held_violation_retried:
  assumes "rfc3339 cr" and "distinct (map fst ev)" and "\<forall>(c, e) \<in> set ev. past_event cr now e"
    and "int (unat delay) * Second < 2 ^ 63 - 1" and "0 \<le> now" and "now < 2 ^ 63"
    and "l = note_events cr ts delay now ev" and "ev_requeueFlag l" and "now + ev_requeueDuration l \<le> now'"
  shows "0 < ev_requeueDuration l \<and> (\<exists>c \<in> set ts. c \<notin> set (trimmed_targets ts l) \<and>
    (\<forall>ts'. c \<in> set ts' \<longrightarrow> c \<in> set (trimmed_targets ts' (note_events cr ts' delay now' (ev_eventMap l)))))"
proof -
  let ?vs = "map (\<lambda>(c, e). event_step cr (c \<in> set ts) delay now e) ev"
  have "ev_wait l = (if waits ?vs = {} then None else Some (Min (waits ?vs)))"
    using note_events_wait [OF assms(2), of cr ts delay now] assms(7) by (simp add: Let_def)
  then have "ev_requeueDuration l \<in> waits ?vs"
    using assms(8) Min_in [OF finite_waits, of ?vs] by (auto simp: ev_wait_def split: if_splits)
  then obtain c e where ce: "(c, e) \<in> set ev" "event_step cr (c \<in> set ts) delay now e = Hold (ev_requeueDuration l)"
    by (auto simp: waits_def)
  have c: "c \<in> set ts" using ce(2) by (auto simp: event_step_def Let_def split: if_splits prod.splits)
  have hold: "event_step cr True delay now e = Hold (ev_requeueDuration l)" using ce(2) c by simp
  have e: "map_of ev c = Some e" using ce(1) assms(2) by simp
  have p: "past_event cr now e" using assms(3) ce(1) by blast
  note due = held_event_due [OF assms(1) p assms(4) [folded pause_def] assms(5,6) hold assms(9)]
  have d: "distinct (map fst (ev_eventMap l))" using distinct_note_events [OF assms(2)] assms(7) by simp
  have "map_of (ev_eventMap l) c = Some (e\<lparr>ce_EventTime := cr_FormatUTC cr now\<rparr>)"
    using note_events_fold(1) [OF assms(2), of cr ts delay now c] assms(7) e c hold by (simp add: event_after_def)
  with due(2) have "\<forall>e. map_of (ev_eventMap l) c = Some e \<longrightarrow> event_step cr True delay now' e = Forget" by simp
  then have "c \<in> set (trimmed_targets ts' (note_events cr ts' delay now' (ev_eventMap l)))" if "c \<in> set ts'" for ts'
    unfolding note_events_refines(1) [OF d] using that by simp
  moreover have "c \<notin> set (trimmed_targets ts l)"
    using note_events_refines(1) [OF assms(2), of ts cr delay now] assms(7) e hold by simp
  ultimately show ?thesis using due(1) c by blast
qed

theorem held_violation_retried_witness:
  "\<exists>c \<in> {''c1''}. c \<in> set (trimmed_targets [''c1''] (note_events ex_clock [''c1''] 60 (161 * Second)
     (ev_eventMap (note_events ex_clock [''c1''] 60 (130 * Second) (take 1 ex_events)))))"
proof -
  let ?l = "note_events ex_clock [''c1''] 60 (130 * Second) (take 1 ex_events)"
  have l: "ev_requeueFlag ?l" "ev_requeueDuration ?l = 30 * Second + 1"
    by (simp_all add: note_events_def note_event_def ex_events_def parse_time_def ex_clock_def wrap64_def sat64_def Second_def Let_def)
  have p: "\<forall>(c, e) \<in> set (take 1 ex_events). past_event ex_clock (130 * Second) e"
    by (simp add: ex_events_def past_event_def ex_clock_def whole_second_def Second_def)
  have "distinct (map fst (take 1 ex_events))" by (simp add: ex_events_def)
  from held_violation_retried [OF ex_rfc3339 this p, of 60 ?l "[''c1'']" "161 * Second"] l
  show ?thesis by (simp add: Second_def)
qed

end
