(* ===== verification/Process_Lifecycle.thy ===== *)
theory Process_Lifecycle
  imports Manager_Startup
begin

text \<open>
  The rest of \<^verbatim>\<open>main.go\<close>: the scheme that \<^verbatim>\<open>init\<close> fills before \<^verbatim>\<open>main\<close> runs, and the process after the start, with
  the goroutines of \<^verbatim>\<open>main\<close> (the dynamic watcher, the wait for the template resolvers, the manager), the callback of
  the TLS profile watcher of \<^verbatim>\<open>tlsconfig.go\<close> and the wait group on which \<^verbatim>\<open>main\<close> returns.
\<close>

section \<open>The scheme\<close>

datatype scheme_group = ClientGo | ClusterV1 | ClusterV1beta1 | AppsV1 | ConfigV1 | PolicyV1 | PolicyV1beta1

text \<open>
  Adding the types of a group is a library call and a parameter, with its error; \<^verbatim>\<open>utilruntime.Must\<close> panics on an
  error, the value None. The types of \<open>ConfigV1\<close> are added by name, which returns no error.
\<close>

definition must_add :: "(scheme_group \<Rightarrow> 'g \<Rightarrow> goerr option \<times> 'g) \<Rightarrow> scheme_group \<Rightarrow> 'g \<Rightarrow> 'g option" where
  "must_add add grp g = (case add grp g of (None, g') \<Rightarrow> Some g' | (Some _, _) \<Rightarrow> None)"

definition scheme_init :: "(scheme_group \<Rightarrow> 'g \<Rightarrow> goerr option \<times> 'g) \<Rightarrow> ('g \<Rightarrow> 'g) \<Rightarrow> 'g \<Rightarrow> 'g option" where
  "scheme_init add addConfig g =
     Option.bind (must_add add ClientGo g) (\<lambda>g.
     Option.bind (must_add add ClusterV1 g) (\<lambda>g.
     Option.bind (must_add add ClusterV1beta1 g) (\<lambda>g.
     Option.bind (must_add add AppsV1 g) (\<lambda>g.
     let g = addConfig g in
     Option.bind (must_add add PolicyV1 g) (\<lambda>g. must_add add PolicyV1beta1 g)))))"

section \<open>The process\<close>

text \<open>
  \<open>pc_canceled\<close> is the context of the signal handler, \<open>pc_loops\<close> the counter of the wait group of the template
  resolvers, \<open>pc_resolvers\<close> and \<open>pc_manager\<close> the two goroutines of \<^verbatim>\<open>main\<close>'s own wait group that have
  ended, and \<open>pc_exit\<close> the status with which the process has ended.
\<close>

record process =
  pc_canceled :: bool
  pc_loops :: nat
  pc_resolvers :: bool
  pc_manager :: bool
  pc_exit :: "nat option"

text \<open>
  The steps; the process ends at the first \<^verbatim>\<open>os.Exit\<close> or when \<^verbatim>\<open>main\<close> returns. What is relied on of the manager:
  \<^verbatim>\<open>Start\<close> returns without an error only when its context is done.
\<close>

inductive process_step :: "bool \<Rightarrow> process \<Rightarrow> process \<Rightarrow> bool" for tlsWatched where
  signal: "pc_exit s = None \<Longrightarrow> process_step tlsWatched s (s\<lparr>pc_canceled := True\<rparr>)"
| loop_started: "pc_exit s = None \<Longrightarrow> process_step tlsWatched s (s\<lparr>pc_loops := Suc (pc_loops s)\<rparr>)"
| loop_ended: "pc_exit s = None \<Longrightarrow> pc_loops s = Suc n \<Longrightarrow> process_step tlsWatched s (s\<lparr>pc_loops := n\<rparr>)"
| watcher_failed: "pc_exit s = None \<Longrightarrow> process_step tlsWatched s (s\<lparr>pc_exit := Some 1\<rparr>)"
| profile_changed: "pc_exit s = None \<Longrightarrow> tlsWatched \<Longrightarrow> process_step tlsWatched s (s\<lparr>pc_exit := Some 0\<rparr>)"
| resolvers_ended: "pc_exit s = None \<Longrightarrow> pc_canceled s \<Longrightarrow> pc_loops s = 0 \<Longrightarrow>
    process_step tlsWatched s (s\<lparr>pc_resolvers := True\<rparr>)"
| manager_failed: "pc_exit s = None \<Longrightarrow> \<not> pc_manager s \<Longrightarrow> process_step tlsWatched s (s\<lparr>pc_exit := Some 1\<rparr>)"
| manager_ended: "pc_exit s = None \<Longrightarrow> pc_canceled s \<Longrightarrow> process_step tlsWatched s (s\<lparr>pc_manager := True\<rparr>)"
| main_returned: "pc_exit s = None \<Longrightarrow> pc_resolvers s \<Longrightarrow> pc_manager s \<Longrightarrow>
    process_step tlsWatched s (s\<lparr>pc_exit := Some 0\<rparr>)"

inductive process_run :: "bool \<Rightarrow> process \<Rightarrow> process \<Rightarrow> bool" for tlsWatched where
  start: "process_run tlsWatched s s"
| step: "process_run tlsWatched s s' \<Longrightarrow> process_step tlsWatched s' s'' \<Longrightarrow> process_run tlsWatched s s''"

inductive_cases process_stepE: "process_step tlsWatched s s'"

definition process_start :: process where
  "process_start = \<lparr>pc_canceled = False, pc_loops = 0, pc_resolvers = False, pc_manager = False, pc_exit = None\<rparr>"

section \<open>How the process ends\<close>

definition process_inv :: "bool \<Rightarrow> process \<Rightarrow> bool" where
  "process_inv tlsWatched s \<longleftrightarrow>
     (pc_resolvers s \<longrightarrow> pc_canceled s) \<and> (pc_manager s \<longrightarrow> pc_canceled s) \<and>
     (pc_exit s = Some 0 \<longrightarrow> tlsWatched \<or> pc_resolvers s \<and> pc_manager s)"

lemma process_step_inv: "process_step tlsWatched s s' \<Longrightarrow> process_inv tlsWatched s \<Longrightarrow> process_inv tlsWatched s'"
  by (erule process_stepE) (auto simp: process_inv_def)

lemma process_run_inv: "process_run tlsWatched s s' \<Longrightarrow> process_inv tlsWatched s \<Longrightarrow> process_inv tlsWatched s'"
  by (induction rule: process_run.induct) (auto intro: process_step_inv)

text \<open>
  When the profile of the API server is not watched the process ends with status 0 only after a signal, when the
  manager has stopped and every refresh loop of a token has ended in between. An ended process does nothing more.
\<close>

theorem clean_exit:
  assumes "process_run False process_start s" and "pc_exit s = Some 0"
  shows "pc_canceled s \<and> pc_manager s \<and> pc_resolvers s"
  using process_run_inv [OF assms(1)] assms(2) by (auto simp: process_inv_def process_start_def)

lemma ended_process_stays: "pc_exit s \<noteq> None \<Longrightarrow> \<not> process_step tlsWatched s s'"
  by (auto elim: process_stepE)

text \<open>After a signal the process can always end: the loops end, then the resolvers, the manager and \<^verbatim>\<open>main\<close>.\<close>

lemma loops_end:
  assumes "pc_exit s = None"
  shows "process_run tlsWatched s (s\<lparr>pc_loops := 0\<rparr>)"
  using assms
proof (induction "pc_loops s" arbitrary: s)
  case 0
  then have "s\<lparr>pc_loops := 0\<rparr> = s" by simp
  then show ?case using process_run.start [of tlsWatched s] by simp
next
  case (Suc n)
  have "process_run tlsWatched (s\<lparr>pc_loops := n\<rparr>) (s\<lparr>pc_loops := 0\<rparr>)" using Suc.hyps(1) [of "s\<lparr>pc_loops := n\<rparr>"] Suc.prems by simp
  moreover have "process_step tlsWatched s (s\<lparr>pc_loops := n\<rparr>)" using Suc.hyps(2) Suc.prems by (intro loop_ended) simp_all
  moreover have "process_run tlsWatched s'' s'" if "process_run tlsWatched s1 s'" "process_step tlsWatched s'' s1" for s'' s1 s'
    using that by (induction rule: process_run.induct) (auto intro: process_run.intros)
  ultimately show ?case by blast
qed

theorem signal_ends_process:
  assumes "pc_exit s = None" and "pc_canceled s"
  shows "\<exists>s'. process_run tlsWatched s s' \<and> pc_exit s' = Some 0 \<and> pc_loops s' = 0"
proof (intro exI conjI)
  let ?s1 = "s\<lparr>pc_loops := 0\<rparr>"
  have "process_run tlsWatched s (?s1\<lparr>pc_resolvers := True\<rparr>)"
    by (rule process_run.step [OF loops_end [OF assms(1)] resolvers_ended]) (simp_all add: assms)
  then have "process_run tlsWatched s (?s1\<lparr>pc_resolvers := True, pc_manager := True\<rparr>)"
    by (rule process_run.step [OF _ manager_ended [of "?s1\<lparr>pc_resolvers := True\<rparr>", simplified]]) (simp_all add: assms)
  then show "process_run tlsWatched s (?s1\<lparr>pc_resolvers := True, pc_manager := True, pc_exit := Some 0\<rparr>)"
    by (rule process_run.step [OF _ main_returned [of "?s1\<lparr>pc_resolvers := True, pc_manager := True\<rparr>", simplified]])
       (simp_all add: assms)
qed simp_all

end
