(* ===== verification/Spec2Isabelle.thy ===== *)
theory Spec2Isabelle
  imports
    Example_Objects
    Replicated_Reconcile
    Policyset_Controller
    Webhooks
    Metrics
    Convergence
    Set_Watches
    Metrics_Coverage
    Automation_Watches
    Propagator_Metrics
    Version_Locks
    Heap_Replica
    Deep_Copy_Beta
    Automation_Delay
    Process_Lifecycle
begin

text \<open>
  The governance policy propagator of Open Cluster Management, modelled and verified.

  \<^bold>\<open>The program.\<close> A user writes a root \<^verbatim>\<open>Policy\<close> in a namespace of the hub. Bindings
  (\<^verbatim>\<open>PlacementBinding\<close>) connect policies, or policy sets, with a Placement or PlacementRule whose
  decisions name managed clusters. The propagator keeps one replicated policy named
  \<^verbatim>\<open><namespace>.<name>\<close> in the namespace of every decided cluster, with the templates resolved for
  that cluster, and rolls the compliance of the replicas up into the status of the root policy and
  of the policy sets. The parts are controllers that meet only through the API server and a channel:
  the root policy controller sends requests to the replicated policy controller, event handlers map
  changed objects to requests, and each reconcile reads the client's cache and writes objects.

  \<^bold>\<open>How it is modelled.\<close> A reconcile is a function from the state to a result and the next state.
  The state of the cluster is a type variable \<open>'k\<close>; the Kubernetes client is the record
  \<open>client_reader\<close> (get and list, in the current state) inside the record \<open>'k api\<close> (create, update,
  delete, patch, the dynamic watches, the clock and the random source). They are parameters of the
  definitions, so every theorem holds for every behaviour of the API server that meets the theorem's
  hypotheses, errors included. Errors are values of \<open>goerr\<close> (API statuses, wrapped and joined
  errors, the sentinels of the source), results are \<open>goerr + 'a\<close>; a Go map that may be nil is
  \<open>strmap\<close>, a slice that may be nil is \<open>slice\<close>. Loops are folds or structural recursion, so nothing
  needs fuel and every definition is total. Logging and the
  text of error messages beyond their wrapping are left out.

  \<^bold>\<open>The theories\<close>, in the order of their imports, with the files of \<^verbatim>\<open>src/\<close> they model:

  \<^item> \<open>Go_Prelude\<close>: what the code uses of Go and its library: strings, nil maps and slices, errors and
    \<^verbatim>\<open>errors.Is\<close>/\<^verbatim>\<open>Join\<close>, loops that may fail (\<open>foldE\<close>), association lists, with their lemmas and the
    simplification collections.
  \<^item> \<open>Policy_Types\<close>: \<^verbatim>\<open>api/v1/*_types.go\<close>, \<^verbatim>\<open>api/v1beta1/policyset_types.go\<close> and the objects of other
    API groups the code reads, as records.
  \<^item> \<open>Kube_Client\<close>: the client records; \<open>Example_Objects\<close>: a small hub for the witnesses.
  \<^item> \<open>Common_Lookup\<close>: \<^verbatim>\<open>controllers/common/common.go\<close>: cluster namespaces, root policy labels, the
    policies and decisions of a binding, affected objects. The locale \<open>affected_diff\<close> is the contract
    of \<open>GetAffectedObjs\<close> on which the event handlers rely.
  \<^item> \<open>Set_Exclusions\<close>: \<^verbatim>\<open>controllers/common/common.go\<close>, exclusions of policy sets, decision sets and the
    bindings that remain after the exclusions.
  \<^item> \<open>Root_Status\<close>: \<^verbatim>\<open>controllers/common/common_status_update.go\<close>: placements and decisions of a root policy,
    compliance per cluster and of the policy, the status update. The locale \<open>compliance_rollup\<close> is
    implemented here and in \<open>Policyset_Controller\<close>.
  \<^item> \<open>Cluster_Decision\<close>: \<^verbatim>\<open>singleClusterDecision\<close> and \<^verbatim>\<open>isSingleClusterInDecisions\<close> of
    \<^verbatim>\<open>controllers/propagator/replicatedpolicy_controller.go\<close>: whether one cluster gets the policy, and the override.
  \<^item> \<open>Decision_Agreement\<close>: the decision for one cluster against the decisions for all of them.
  \<^item> \<open>Event_Handlers\<close>: the mappers, predicates and event handlers of \<^verbatim>\<open>controllers/propagator\<close>,
    \<^verbatim>\<open>controllers/rootpolicystatus\<close>, \<^verbatim>\<open>controllers/policyset\<close> and \<^verbatim>\<open>controllers/common\<close>. The locale
    \<open>placement_handler\<close> extends \<open>affected_diff\<close> and is interpreted for PlacementDecisions and for
    PlacementRules.
  \<^item> \<open>Replication\<close>: \<^verbatim>\<open>controllers/propagator/replication.go\<close>: the replicated policy built from the root.
  \<^item> \<open>Resource_Versions\<close>: the cache of resource versions and tombstones with the event predicates of
    \<^verbatim>\<open>controllers/propagator/replicatedpolicy_setup.go\<close>. The locale \<open>version_cache\<close> is its contract.
  \<^item> \<open>Root_Reconcile\<close>: \<^verbatim>\<open>controllers/propagator/rootpolicy_controller.go\<close>, \<^verbatim>\<open>handleRootPolicy\<close> of
    \<^verbatim>\<open>propagation.go\<close>, the root policy status controller and the managed cluster handler.
  \<^item> \<open>Template_Resolvers\<close>: \<^verbatim>\<open>controllers/propagator/template_utils.go\<close>: the shared resolvers with 32 bit
    reference counts, as a transition system over the operations that hold the lock.
  \<^item> \<open>Encryption\<close>: \<^verbatim>\<open>controllers/propagator/encryption.go\<close> and
    \<^verbatim>\<open>controllers/encryptionkeys/encryptionkeys_controller.go\<close>: keys, initialization vectors, rotation; durations have 64 bits.
  \<^item> \<open>Template_Processing\<close>: \<^verbatim>\<open>processTemplates\<close> of \<^verbatim>\<open>controllers/propagator/propagation.go\<close>.
  \<^item> \<open>Replicated_Reconcile\<close>: \<^verbatim>\<open>Reconcile\<close> and \<^verbatim>\<open>cleanUpReplicated\<close> of
    \<^verbatim>\<open>controllers/propagator/replicatedpolicy_controller.go\<close>.
  \<^item> \<open>Policyset_Controller\<close>: \<^verbatim>\<open>controllers/policyset/policyset_controller.go\<close>.
  \<^item> \<open>Webhooks\<close>: \<^verbatim>\<open>api/v1/policy_webhook.go\<close>, \<^verbatim>\<open>api/v1beta1/policyset_webhook.go\<close> and the policy set event handler.
  \<^item> \<open>Metrics\<close>: \<^verbatim>\<open>controllers/policymetrics/policymetrics_controller.go\<close>.
  \<^item> \<open>Convergence\<close>: a policy without hub templates through two reconciles of the replicated policy
    controller.
  \<^item> \<open>Automation\<close>: \<^verbatim>\<open>controllers/automation\<close> and \<^verbatim>\<open>api/v1beta1/policyautomation_types.go\<close>: the controller that
    starts Ansible jobs, with its modes, the violation context and the jobs; \<open>Automation_Delay\<close>: the
    events of mode \<^verbatim>\<open>everyEvent\<close>, their specification per cluster and the runs of the controller.
  \<^item> \<open>Token_Refresh\<close>: the goroutine of \<^verbatim>\<open>GetToken\<close> in \<^verbatim>\<open>template_utils.go\<close> that renews a token, as a state
    machine over the times at which it wakes up, with shutdown, count of watches and client configuration.
  \<^item> \<open>Manager_Startup\<close>: \<^verbatim>\<open>main.go\<close> and \<^verbatim>\<open>tlsconfig.go\<close>: flags, environment, TLS, the transform of the cache and
    the order of the set-ups; \<open>Process_Lifecycle\<close>: the scheme that \<^verbatim>\<open>init\<close> fills, and the process after the start as a
    transition system of the goroutines of \<^verbatim>\<open>main\<close>.
  \<^item> \<open>Version_Locks\<close>: the entries of the cache of resource versions with their read-write locks, as a transition system of the worker
    of one key, the event predicates and other clients.
  \<^item> \<open>Go_Heap\<close>: the memory of a Go program as far as copies and aliasing need it: cells for pointers, slices and
    maps, the types of values, what a value represents (\<open>rep\<close>) and the contract of a deep copy (\<open>deep\<close>).
  \<^item> \<open>Deep_Copy\<close> and \<open>Deep_Copy_Beta\<close>: \<^verbatim>\<open>api/v1/zz_generated.deepcopy.go\<close>,
    \<^verbatim>\<open>api/v1beta1/zz_generated.deepcopy.go\<close> and the copies of \<^verbatim>\<open>GuttedObject\<close>, statement by statement on the
    heap. The locale \<open>deep_copies\<close> is interpreted on all of them.
  \<^item> \<open>Heap_Replica\<close>: the metadata part of \<^verbatim>\<open>buildReplicatedPolicy\<close> on the heap, where the replica takes over the
    label map of the root policy.
  \<^item> \<open>Work_Queue\<close>: the work queue of a controller over time and the locale \<open>watch_coverage\<close>, the contract between
    a controller's watches and its reconciler, with the laws of the informer cache.
  \<^item> \<open>Event_Coverage\<close>: the watches of \<^verbatim>\<open>replicatedpolicy_setup.go\<close> and the three placement handlers composed
    with the decision of the reconciler, over the runs of events and reconciles.
  \<^item> \<open>Status_Coverage\<close>: the watches of \<^verbatim>\<open>controllers/rootpolicystatus/root_policy_status_controller.go\<close> composed
    with the status it computes, over such runs; \<open>Set_Watches\<close>: those of
    \<^verbatim>\<open>controllers/policyset/policyset_controller.go\<close>.
  \<^item> \<open>Propagation_Pipeline\<close>: the watches of \<^verbatim>\<open>rootpolicy_setup.go\<close> and of the managed cluster controller, and the three
    controllers of \<^verbatim>\<open>controllers/propagator\<close> together: the cache, the three work queues and the channel between them, with
    steps for every event and every reconcile (\<open>pipeline_step\<close>).
  \<^item> \<open>Metrics_Coverage\<close>: the watch of the metrics controller and its gauge over time; \<open>Automation_Watches\<close>: the
    watches of the automation controller; \<open>Propagator_Metrics\<close>: \<^verbatim>\<open>controllers/propagator/metric.go\<close>, the reconcilers with their
    metrics and the registration of all metrics.

  \<^bold>\<open>What is shown.\<close>

  \<^item> Placement: a policy is on a cluster exactly when an unrestricted binding places it (C1), the
    enforce override follows all bindings (C19), and every cluster that gets a replica is
    in the decision set of the root policy (C9), which is characterised exactly
    (C8) and gives the requests that are sent (C7).
  \<^item> Replicas: metadata, name and dependencies of the built policy (C10, C12,
    \<open>dependencies_canonical\<close>), removal of a replica that is no longer placed (C5), no
    second removal while the cache is stale (C6), no reaction to the
    controller's own writes (C20), and convergence: one
    reconcile creates a replica and the next writes nothing (C13). Templates change only what
    they may (C29), and the transform of the cache commutes with the builder
    (C34).
  \<^item> Status: the roll-ups of root policies and policy sets (\<open>root_compliance_rollup\<close>, C18,
    C24), the remaining bindings (\<open>remaining_bindings_exact\<close>), and a second status update
    that writes nothing (\<open>status_update_idempotent\<close>).
  \<^item> Events: what the watches of placements and bindings request is enough: in every run a replicated
    policy is in the queue or was reconciled with the decision that holds (C2), and a root
    policy is in the queue of the status controller or has the status that holds (C3), by rule
    induction; the three controllers that propagate a policy leave no replica stale together
    (C4), where the watches and reconciles of all three are needed; the gauges follow the
    policies (C27); an update of an admitted policy set requests every policy it affects
    (C23).
  \<^item> Concurrency of the version cache: the locks make its accesses atomic (C21), filter out the
    events of own writes in every interleaving (C20) and are always released
    (C22), by rule induction over the steps.
  \<^item> Shared resolvers and tokens: in every reachable state the reference counts are exact and no resolver in
    use is taken away (C14), by rule induction over the steps; the loop that renews a
    token ends exactly at a cancellation or a failure (C32) and asks for a new token in time
    (C33).
  \<^item> Automation: the loop over the events refines the specification of one cluster (C16); in
    every run two jobs for a cluster are the delay apart (C15), by rule induction, and a violation
    that was held back gets its job later (\<open>held_violation_retried\<close>); mode \<^verbatim>\<open>once\<close> starts one job per
    generation (C17); the reported violations keep to the limit (\<open>violations_limited\<close>).
  \<^item> Encryption keys: rotation keeps the previous valid key, drops invalid ones and happens not before it is
    due (C28, \<open>invalid_key_dropped\<close>, \<open>no_rotation_before_due\<close>).
  \<^item> Start: the exact conditions of a start and what is then set up (C35); the process ends with
    status 0 only after a signal or a change of the TLS profile, and after a signal it can end (\<open>clean_exit\<close>,
    \<open>signal_ends_process\<close>).
  \<^item> Memory: every generated deep copy is typed (C31) and shares nothing with its original
    (C30); the metadata of a replica built in memory refine the functional model, the
    labels that the root policy gets included (C11).
  \<^item> Where the code does not do what it means to, the behaviour is stated as it is: the order of a policy
    set's placements (C25), a lost error (\<open>token_close_error_lost\<close>), a Placement that
    is missing (C40), the nil map in \<open>invalid_key_dropped\<close>, a mode that is not
    disabled (C39), a binding update that requests nothing (C36), a policy set that is
    not requested (C26), a TLS profile that is not watched (\<open>tls_profile_watched\<close>), a race that
    orphans a replica (C37), a gauge that outlives its cluster (C38), an automation
    behind another one (\<open>first_automation_only\<close>) and the namespaces in C35.

  \<^bold>\<open>What is not modelled.\<close> The builders of \<^verbatim>\<open>SetupWithManager\<close> (but their watches), logging and the tests. The deep copies of
  types of other modules, the template library, the
  dynamic watch library, the work queue, base64, RFC 3339, JSON and the TLS libraries are parameters. But for those of \<open>Version_Locks\<close>, locks
  are not modelled as such: the operations under one lock are the steps of the transition system, and one
  key is reconciled by one worker at a time. Nothing runs out of fuel: loops are folds or structural
  recursion, and the goroutine that may run forever is a function of the list of its wake-ups, so a run
  that has not ended is a state that still waits.
  The runs of \<open>Propagation_Pipeline\<close> leave out changes of policy sets, for which the invariant does not hold
  (C37), and clusters that appear or disappear; the lists of replicas that its reconciles read are
  taken to contain the replicas written before (\<open>caught_up\<close>), and the content is the one before the hub
  templates are resolved.
\<close>

section \<open>Properties across the components\<close>

text \<open>C9. The replicated policy controller and the root policy controllers agree: a cluster to which an
  enabled root policy is replicated is in the decision set from which the root policy's status and
  the requests for its replicas are computed.\<close>

theorem replicated_cluster_is_decided:
  assumes "singleClusterDecision c rootPlc cl = Inr dec" and "dec_Cluster dec \<noteq> []"
    and "GetClusterDecisions c rootPlc = Inr (pls, d)" and "\<not> ps_Disabled (p_Spec rootPlc)"
    and "no_unnamed_decisions c"
  shows "dec_Cluster dec = cl \<and> cl \<in> decided d"
  using placed_decided [OF assms] by blast

theorem replicated_cluster_is_decided_witness:
  "\<exists>pls d. GetClusterDecisions (ex_reader\<lparr>List_PlacementBindings := \<lambda>_. Inr [ex_pb]\<rparr>) ex_root = Inr (pls, d) \<and>
     ''c1'' \<in> decided d"
proof -
  let ?c = "ex_reader\<lparr>List_PlacementBindings := \<lambda>_. Inr [ex_pb]\<rparr>"
  obtain pls d where g: "GetClusterDecisions ?c ex_root = Inr (pls, d)"
    by (simp add: GetClusterDecisions_def gather_unrestricted_def gather_restricted_def
        GetPolicyPlacementDecisions_def subject_placements_def name_placements_def GetDecisions_def
        HasValidPlacementRef_def ex_reader_def ex_objects Let_def)
  have s: "singleClusterDecision ?c ex_root ''c1'' = Inr (clusterDecision_zero\<lparr>dec_Cluster := ''c1''\<rparr>)"
    by (simp add: singleClusterDecision_def isSingleClusterInDecisions_def HasValidPlacementRef_def
        EqualFold_def Enforce_def ex_reader_def ex_objects Let_def)
  have "\<not> ps_Disabled (p_Spec ex_root)" "no_unnamed_decisions ?c"
    by (simp_all add: ex_objects no_unnamed_decisions_def ex_reader_def)
  with replicated_cluster_is_decided [OF s _ g] g show ?thesis by simp
qed

end
